(* ===== verification/Prelude.thy ===== *)
theory Prelude
  imports Main "HOL-Library.Word"
begin

text \<open>
  What every component shares: the machine types, results that carry the ways a C++
  function can fail to return normally, byte buffers with bounds-checked reads and writes,
  little-endian integers, and the C string functions the sources call.
\<close>

unbundle bit_operations_syntax

subsection \<open>Machine types and collections of facts\<close>

type_synonym u8 = "8 word"
type_synonym u16 = "16 word"
type_synonym u32 = "32 word"
type_synonym u64 = "64 word"
type_synonym bytes = "u8 list"

named_theorems res_simps \<comment> \<open>unfolding the result monad\<close>
named_theorems byte_simps \<comment> \<open>reading, writing and laying out bytes\<close>
named_theorems len_simps \<comment> \<open>lengths of encoded structures\<close>

subsection \<open>Results\<close>

text \<open>
  A function of the sources either returns, or does not: it reads or writes outside an
  object, divides by zero, fails an \<open>assert\<close>, loops for ever, or throws
  \<open>std::bad_alloc\<close>. \<open>Inl\<close> carries which.
\<close>

datatype fault = OutOfBounds | DivByZero | AssertFailed | Diverges | BadAlloc

type_synonym 'a res = "fault + 'a"

definition rbind :: "'a res \<Rightarrow> ('a \<Rightarrow> 'b res) \<Rightarrow> 'b res" where
  "rbind r f = (case r of Inl e \<Rightarrow> Inl e | Inr x \<Rightarrow> f x)"

lemma rbind_Inl [simp, res_simps]: "rbind (Inl e) f = Inl e"
  by (simp add: rbind_def)

lemma rbind_Inr [simp, res_simps]: "rbind (Inr x) f = f x"
  by (simp add: rbind_def)

lemma rbind_eq_Inr [res_simps]: "rbind r f = Inr y \<longleftrightarrow> (\<exists>x. r = Inr x \<and> f x = Inr y)"
  by (cases r) simp_all

lemma rbind_eq_Inl [res_simps]:
  "rbind r f = Inl e \<longleftrightarrow> r = Inl e \<or> (\<exists>x. r = Inr x \<and> f x = Inl e)"
  by (cases r) simp_all

lemma rbind_cong [fundef_cong]:
  "r = r' \<Longrightarrow> (\<And>x. r' = Inr x \<Longrightarrow> f x = f' x) \<Longrightarrow> rbind r f = rbind r' f'"
  by (cases r') simp_all

lemma rbind_assoc: "rbind (rbind r f) g = rbind r (\<lambda>x. rbind (f x) g)"
  by (cases r) simp_all

definition require :: "fault \<Rightarrow> bool \<Rightarrow> unit res" where
  "require e b = (if b then Inr () else Inl e)"

lemma require_True [simp]: "require e True = Inr ()"
  by (simp add: require_def)

lemma require_eq_Inr [res_simps]: "require e b = Inr u \<longleftrightarrow> b"
  by (simp add: require_def)

text \<open>
  What the preprocessor decides: the target of the two \<open>#ifdef\<close> branches, whether
  \<open>assert\<close> is compiled away (\<open>NDEBUG\<close>), and whether the overlap check of the core
  builder is compiled in (\<open>_DEBUG\<close>).
\<close>

datatype arch = X86_64 | Arm64

record config =
  target :: arch
  ndebug :: bool
  debug_checks :: bool

definition cpp_assert :: "config \<Rightarrow> bool \<Rightarrow> unit res" where
  "cpp_assert cfg b = require AssertFailed (ndebug cfg \<or> b)"

lemma cpp_assert_True [simp]: "cpp_assert cfg True = Inr ()"
  by (simp add: cpp_assert_def)

lemma cpp_assert_eq_Inr [res_simps]: "cpp_assert cfg b = Inr u \<longleftrightarrow> ndebug cfg \<or> b"
  by (simp add: cpp_assert_def require_eq_Inr)

text \<open>Running a partial step over a list, in order.\<close>

primrec rfold :: "('a \<Rightarrow> 's \<Rightarrow> 's res) \<Rightarrow> 'a list \<Rightarrow> 's \<Rightarrow> 's res" where
  "rfold f [] s = Inr s"
| "rfold f (x # xs) s = rbind (f x s) (rfold f xs)"

lemma rfold_append: "rfold f (xs @ ys) s = rbind (rfold f xs s) (rfold f ys)"
  by (induction xs arbitrary: s) (simp_all add: rbind_assoc cong: rbind_cong)

lemma rfold_invariant:
  assumes "rfold f xs s = Inr t" and "P s"
    and "\<And>x s t. x \<in> set xs \<Longrightarrow> P s \<Longrightarrow> f x s = Inr t \<Longrightarrow> P t"
  shows "P t"
  using assms by (induction xs arbitrary: s) (auto simp: res_simps)

subsection \<open>Address ranges\<close>

text \<open>A range of bytes that ends at or below the last address.\<close>

definition no_wrap :: "u64 \<Rightarrow> u64 \<Rightarrow> bool" where
  "no_wrap start len \<longleftrightarrow> unat start + unat len < 2 ^ 64"

lemma no_wrap_less: "no_wrap start len \<Longrightarrow> len \<noteq> 0 \<Longrightarrow> start < start + len"
  by (simp add: no_wrap_def word_less_nat_alt unat_word_ariths unat_gt_0)

lemma no_wrap_unat: "no_wrap a n \<Longrightarrow> unat (a + n) = unat a + unat n"
  by (simp add: no_wrap_def unat_word_ariths)

lemma no_wrap_le: "no_wrap a n \<Longrightarrow> a \<le> a + n"
  by (simp add: word_le_nat_alt no_wrap_unat)

subsection \<open>Byte buffers\<close>

definition chunk :: "nat \<Rightarrow> nat \<Rightarrow> 'a list \<Rightarrow> 'a list" where
  "chunk off n xs = take n (drop off xs)"

lemma length_chunk [simp, len_simps]: "length (chunk off n xs) = min n (length xs - off)"
  by (simp add: chunk_def)

lemma chunk_append_right [byte_simps]:
  "off = length xs \<Longrightarrow> chunk off n (xs @ ys) = take n ys"
  by (simp add: chunk_def)

lemma chunk_at_append: "chunk (length xs) (length ys) (xs @ ys @ zs) = ys"
  by (simp add: chunk_def)

lemma chunk_mid: "off = length xs \<Longrightarrow> n = length ys \<Longrightarrow> chunk off n (xs @ ys @ zs) = ys"
  by (simp add: chunk_def)

lemma chunk_skip [byte_simps]:
  "length xs \<le> off \<Longrightarrow> chunk off n (xs @ ys) = chunk (off - length xs) n ys"
  by (simp add: chunk_def)

lemma chunk_take_left [byte_simps]:
  "off + n \<le> length xs \<Longrightarrow> chunk off n (xs @ ys) = chunk off n xs"
  by (simp add: chunk_def)

lemma chunk_all [simp]: "length xs \<le> n \<Longrightarrow> chunk 0 n xs = xs"
  by (simp add: chunk_def)

lemma chunk_prefix [simp]: "n = length xs \<Longrightarrow> chunk 0 n (xs @ ys) = xs"
  by (simp add: chunk_def)

lemma chunk_chunk:
  "i + n \<le> m \<Longrightarrow> chunk i n (chunk off m xs) = chunk (off + i) n xs"
  by (simp add: chunk_def drop_take min_def add.commute)

lemma nth_chunk: "i < n \<Longrightarrow> off + i < length xs \<Longrightarrow> chunk off n xs ! i = xs ! (off + i)"
  by (simp add: chunk_def)

text \<open>One piece of a concatenation.\<close>

lemma split_at: "i < length xs \<Longrightarrow> xs = take i xs @ xs ! i # drop (Suc i) xs"
  by (rule id_take_nth_drop)

lemma chunk_concat:
  assumes "i < length xs" and "off = length pre + length (concat (take i xs))"
  shows "chunk off (length (xs ! i)) (pre @ concat xs @ post) = xs ! i"
proof -
  have "concat xs = concat (take i xs) @ xs ! i @ concat (drop (Suc i) xs)"
    using split_at [OF assms(1)] by (metis concat.simps(2) concat_append)
  then show ?thesis
    using chunk_mid [of off "pre @ concat (take i xs)" "length (xs ! i)" "xs ! i"] assms(2) by simp
qed

text \<open>\<open>read_at\<close> is a read through a pointer into a buffer, \<open>poke\<close> a \<open>memcpy\<close> into one.\<close>

definition read_at :: "'a list \<Rightarrow> nat \<Rightarrow> nat \<Rightarrow> 'a list res" where
  "read_at buf off n = (if off + n \<le> length buf then Inr (chunk off n buf) else Inl OutOfBounds)"

lemma read_at_ok [simp]: "off + n \<le> length buf \<Longrightarrow> read_at buf off n = Inr (chunk off n buf)"
  by (simp add: read_at_def)

lemma read_at_eq_Inr [res_simps]:
  "read_at buf off n = Inr d \<longleftrightarrow> off + n \<le> length buf \<and> d = chunk off n buf"
  by (auto simp: read_at_def)

lemma read_at_skip:
  "length xs \<le> off \<Longrightarrow> read_at (xs @ ys) off n = read_at ys (off - length xs) n"
  by (simp add: read_at_def byte_simps) linarith

definition patch :: "nat \<Rightarrow> 'a list \<Rightarrow> 'a list \<Rightarrow> 'a list" where
  "patch off d buf = take off buf @ d @ drop (off + length d) buf"

definition poke :: "'a list \<Rightarrow> nat \<Rightarrow> 'a list \<Rightarrow> 'a list res" where
  "poke buf off d =
     (if off + length d \<le> length buf then Inr (patch off d buf) else Inl OutOfBounds)"

lemma length_patch [simp, len_simps]:
  "off + length d \<le> length buf \<Longrightarrow> length (patch off d buf) = length buf"
  by (simp add: patch_def)

lemma chunk_patch_same:
  "off + length d \<le> length buf \<Longrightarrow> n = length d \<Longrightarrow> chunk off n (patch off d buf) = d"
  by (simp add: patch_def chunk_def)

lemma chunk_patch_before:
  assumes "i + n \<le> off" and "off \<le> length buf"
  shows "chunk i n (patch off d buf) = chunk i n buf"
proof -
  have "chunk i n (take off buf @ d @ drop (off + length d) buf) = chunk i n (take off buf)"
    by (rule chunk_take_left) (use assms in simp)
  also have "\<dots> = chunk i n buf"
    using assms(1) by (simp add: chunk_def drop_take min_def)
  finally show ?thesis by (simp add: patch_def)
qed

lemma chunk_patch_after:
  assumes "off + length d \<le> i" and "off + length d \<le> length buf"
  shows "chunk i n (patch off d buf) = chunk i n buf"
  using assms by (simp add: patch_def chunk_def)

lemma patch_fill:
  "length a = off \<Longrightarrow> length b = length d \<Longrightarrow> patch off d (a @ b @ c) = a @ d @ c"
  by (simp add: patch_def)

subsection \<open>Little-endian integers\<close>

text \<open>
  \<open>memcpy\<close> of an integer, and a load through a cast pointer, on the two little-endian
  targets (\<open>__x86_64__\<close>, \<open>__arm64__\<close>).
\<close>

primrec le_bytes :: "nat \<Rightarrow> 'a::len word \<Rightarrow> bytes" where
  "le_bytes 0 w = []"
| "le_bytes (Suc n) w = ucast w # le_bytes n (drop_bit 8 w)"

primrec le_word :: "bytes \<Rightarrow> 'a::len word" where
  "le_word [] = 0"
| "le_word (b # bs) = ucast b OR push_bit 8 (le_word bs)"

abbreviation le32 :: "u32 \<Rightarrow> bytes" where
  "le32 \<equiv> le_bytes 4"

abbreviation le64 :: "u64 \<Rightarrow> bytes" where
  "le64 \<equiv> le_bytes 8"

lemma length_le_bytes [simp, len_simps]: "length (le_bytes n w) = n"
  by (induction n arbitrary: w) simp_all

lemma le_word_le_bytes: "(le_word (le_bytes n w) :: 'a::len word) = take_bit (8 * n) w"
proof (induction n arbitrary: w)
  case (Suc n)
  show ?case
    by (rule bit_word_eqI) (auto simp: Suc bit_simps)
qed simp

lemma le_word_le32 [simp]: "le_word (le32 w) = w"
  by (simp add: le_word_le_bytes take_bit_word_eq_self)

lemma le_word_le64 [simp]: "le_word (le64 w) = w"
  by (simp add: le_word_le_bytes take_bit_word_eq_self)

lemma le_bytes_0 [simp]: "le_bytes n 0 = replicate n 0"
  by (induction n) simp_all

definition rd32 :: "bytes \<Rightarrow> nat \<Rightarrow> u32 res" where
  "rd32 buf off = rbind (read_at buf off 4) (\<lambda>d. Inr (le_word d))"

definition rd64 :: "bytes \<Rightarrow> nat \<Rightarrow> u64 res" where
  "rd64 buf off = rbind (read_at buf off 8) (\<lambda>d. Inr (le_word d))"

lemma rd32_skip: "length xs \<le> off \<Longrightarrow> rd32 (xs @ ys) off = rd32 ys (off - length xs)"
  by (simp add: rd32_def read_at_skip)

lemma rd64_skip: "length xs \<le> off \<Longrightarrow> rd64 (xs @ ys) off = rd64 ys (off - length xs)"
  by (simp add: rd64_def read_at_skip)

lemma read_at_0 [simp]: "n = length xs \<Longrightarrow> read_at (xs @ ys) 0 n = Inr xs"
  by (simp add: chunk_def)

lemma rd32_0 [simp]: "rd32 (le32 w @ ys) 0 = Inr w"
  by (simp add: rd32_def)

lemma rd64_0 [simp]: "rd64 (le64 w @ ys) 0 = Inr w"
  by (simp add: rd64_def)

lemmas rd_skips = read_at_skip rd32_skip rd64_skip

subsection \<open>C strings in byte buffers\<close>

text \<open>
  \<open>strcmp a b == 0\<close> as it reads: byte by byte up to the first difference or to a
  common terminator; \<open>None\<close> when it runs off the bytes that are known.
\<close>

fun strcmp_eq :: "bytes \<Rightarrow> bytes \<Rightarrow> bool option" where
  "strcmp_eq (a # as) (b # bs) =
     (if a \<noteq> b then Some False else if a = 0 then Some True else strcmp_eq as bs)"
| "strcmp_eq _ _ = None"

text \<open>\<open>strncmp a b n == 0\<close>, the same over at most \<open>n\<close> bytes.\<close>

fun strncmp_eq :: "nat \<Rightarrow> bytes \<Rightarrow> bytes \<Rightarrow> bool option" where
  "strncmp_eq 0 as bs = Some True"
| "strncmp_eq (Suc n) (a # as) (b # bs) =
     (if a \<noteq> b then Some False else if a = 0 then Some True else strncmp_eq n as bs)"
| "strncmp_eq (Suc n) _ _ = None"

text \<open>\<open>strncpy (dst, src, n)\<close>: \<open>n\<close> bytes, zero-filled after the terminator of the source.\<close>

fun strncpy :: "nat \<Rightarrow> bytes \<Rightarrow> bytes" where
  "strncpy 0 s = []"
| "strncpy (Suc n) [] = 0 # strncpy n []"
| "strncpy (Suc n) (c # s) = (if c = 0 then replicate (Suc n) 0 else c # strncpy n s)"

definition cstr :: "string \<Rightarrow> bytes" where
  "cstr s = map of_char s @ [0]"

lemma length_strncpy [simp, len_simps]: "length (strncpy n s) = n"
  by (induction n s rule: strncpy.induct) simp_all

lemma strncpy_nil [simp]: "strncpy n [] = replicate n 0"
  by (induction n) simp_all

text \<open>Copying a field of the same size twice changes nothing after its terminator.\<close>

lemma strncpy_idem: "strncpy n (strncpy n s) = strncpy n s"
proof (induction n s rule: strncpy.induct)
  case (3 n c s)
  then show ?case by simp
qed simp_all

lemma strcmp_eq_refl: "0 \<in> set as \<Longrightarrow> strcmp_eq as as = Some True"
  by (induction as) auto

text \<open>Where both sides have a terminator, the comparison is equality of the strings before it.\<close>

lemma strcmp_eq_takeWhile:
  assumes "0 \<in> set as" and "0 \<in> set bs"
  shows "strcmp_eq as bs = Some (takeWhile (\<lambda>b. b \<noteq> 0) as = takeWhile (\<lambda>b. b \<noteq> 0) bs)"
  using assms by (induction as bs rule: strcmp_eq.induct) auto

text \<open>Two strings that equal a third are equal.\<close>

lemma strcmp_eq_common:
  "strcmp_eq n x = Some True \<Longrightarrow> strcmp_eq n y = Some True \<Longrightarrow> strcmp_eq x y = Some True"
proof (induction n x arbitrary: y rule: strcmp_eq.induct)
  case (1 a as b bs)
  then show ?case by (cases y) (auto split: if_splits)
qed simp_all

text \<open>
  Comparison of a fixed-size name field with a literal. The literal ends before the field
  does, so the comparison never leaves the field.
\<close>

definition name_is :: "bytes \<Rightarrow> string \<Rightarrow> bool" where
  "name_is n lit \<longleftrightarrow> strcmp_eq n (cstr lit) = Some True"

definition name_is_n :: "nat \<Rightarrow> bytes \<Rightarrow> string \<Rightarrow> bool" where
  "name_is_n k n lit \<longleftrightarrow> strncmp_eq k n (cstr lit) = Some True"

lemma strcmp_eq_literal:
  assumes "0 \<notin> set l" and "length l < length n"
  shows "strcmp_eq n (l @ [0]) = Some (take (Suc (length l)) n = l @ [0])"
  using assms
proof (induction l arbitrary: n)
  case Nil
  then show ?case by (cases n) auto
next
  case (Cons a l)
  then show ?case by (cases n) auto
qed

lemma strncmp_eq_literal:
  assumes "0 \<notin> set l" and "length l < length n" and "length l < k"
  shows "strncmp_eq k n (l @ [0]) = strcmp_eq n (l @ [0])"
  using assms
proof (induction l arbitrary: n k)
  case Nil
  then show ?case by (cases n; cases k) auto
next
  case (Cons a l)
  then show ?case by (cases n; cases k) auto
qed

lemma name_is_iff:
  assumes "0 \<notin> set (map of_char lit :: bytes)" and "length lit < length n"
  shows "name_is n lit \<longleftrightarrow> take (Suc (length lit)) n = cstr lit"
  using strcmp_eq_literal [OF assms(1)] assms(2) by (simp add: name_is_def cstr_def)

lemma take_strncpy_literal:
  assumes "0 \<notin> set l" and "length l < n" and "length l < length s"
  shows "take (Suc (length l)) (strncpy n s) = l @ [0] \<longleftrightarrow> take (Suc (length l)) s = l @ [0]"
  using assms
proof (induction l arbitrary: n s)
  case Nil
  then show ?case by (cases n; cases s) auto
next
  case (Cons a l)
  then show ?case by (cases n; cases s) auto
qed

lemma name_is_strncpy:
  assumes "0 \<notin> set (map of_char lit :: bytes)" and "length lit < n" and "length lit < length s"
  shows "name_is (strncpy n s) lit \<longleftrightarrow> take (Suc (length lit)) s = cstr lit"
  using take_strncpy_literal [OF assms(1), of n s] name_is_iff [OF assms(1), of "strncpy n s"] assms(2,3)
  by (simp add: cstr_def)

lemma name_is_n_eq:
  assumes "0 \<notin> set (map of_char lit :: bytes)" and "length lit < length n" and "length lit < k"
  shows "name_is_n k n lit = name_is n lit"
  using strncmp_eq_literal [OF assms(1)] assms(2,3) by (simp add: name_is_def name_is_n_def cstr_def)

end
