(* ===== verification/ProcessMemory.thy ===== *)
theory ProcessMemory
  imports Prelude
begin

text \<open>
  Reading the memory of the dumped task: \<open>ReadProcessMemory.cpp\<close> over the Mach calls it
  makes. The kernel is not part of the sources, so its answers about the task are the
  fields of a record that every function takes; what the code relies on is stated as named
  laws (here \<open>reads_exactly\<close> and \<open>coherent_reads\<close>; \<open>region_progress\<close> and
  \<open>failure_keeps_arguments\<close> in \<open>MemoryRegionList\<close>) and assumed only where a theorem says so.
\<close>

subsection \<open>The kernel's answers\<close>

record submap_info = \<comment> \<open>the fields read of \<open>vm_region_submap_info_64\<close>\<close>
  protection :: u32
  user_tag :: u32

record region_reply = \<comment> \<open>the return code and the in/out arguments after the call\<close>
  rr_success :: bool
  rr_address :: u64
  rr_size :: u64
  rr_depth :: u32
  rr_info :: submap_info

record mem_kernel =
  vm_read_overwrite :: "u64 \<Rightarrow> u64 \<Rightarrow> bytes option"
  vm_region_recurse_64 :: "u64 \<Rightarrow> u64 \<Rightarrow> u32 \<Rightarrow> submap_info \<Rightarrow> region_reply"
  short_protection :: "u64 \<Rightarrow> u64 \<Rightarrow> u32 option" \<comment> \<open>\<open>mach_vm_region_recurse\<close>\<close>
  malloc_ok :: "u64 \<Rightarrow> bool" \<comment> \<open>whether the zone has a block of that many bytes\<close>
  uninit_size :: u64 \<comment> \<open>what an uninitialised local holds\<close>
  uninit_info :: submap_info

text \<open>\<open>vm_read_overwrite\<close> fills exactly the bytes it was asked for.\<close>

definition reads_exactly :: "'z mem_kernel_scheme \<Rightarrow> bool" where
  "reads_exactly K \<longleftrightarrow> (\<forall>a n d. vm_read_overwrite K a n = Some d \<longrightarrow> length d = unat n)"

text \<open>
  The memory does not change between two reads of it (the task, or every other thread of
  it, is suspended while the dump is made).
\<close>

definition coherent_reads :: "'z mem_kernel_scheme \<Rightarrow> bool" where
  "coherent_reads K \<longleftrightarrow>
     (\<forall>a n d i k. vm_read_overwrite K a n = Some d \<longrightarrow> unat i + unat k \<le> unat n \<longrightarrow>
        vm_read_overwrite K (a + i) k = Some (chunk (unat i) (unat k) d))"

subsection \<open>Allocation\<close>

text \<open>\<open>MakeUniqueArray\<close> and \<open>MakeUniqueArrayAligned\<close> of \<open>ZoneAllocator.hpp\<close>.\<close>

definition MakeUniqueArray :: "'z mem_kernel_scheme \<Rightarrow> u64 \<Rightarrow> u64 \<Rightarrow> unit res" where
  "MakeUniqueArray K count size_of_T = require BadAlloc (malloc_ok K (count * size_of_T))"

definition MakeUniqueArrayAligned :: "'z mem_kernel_scheme \<Rightarrow> u64 \<Rightarrow> u64 \<Rightarrow> unit res" where
  "MakeUniqueArrayAligned K count size_of_T = require BadAlloc (malloc_ok K (count * size_of_T))"

subsection \<open>Reads\<close>

text \<open>
  The read into a caller's buffer: \<open>None\<close> is the return value false. The overload for a
  value of type \<open>T\<close> reads \<open>sizeof (T)\<close> bytes; the two integer instances are given names.
\<close>

definition ReadProcessMemoryInto :: "'z mem_kernel_scheme \<Rightarrow> u64 \<Rightarrow> u64 \<Rightarrow> bytes option" where
  "ReadProcessMemoryInto K address sz = vm_read_overwrite K address sz"

definition read_u32 :: "'z mem_kernel_scheme \<Rightarrow> u64 \<Rightarrow> u32 option" where
  "read_u32 K address = map_option le_word (ReadProcessMemoryInto K address 4)"

definition read_u64 :: "'z mem_kernel_scheme \<Rightarrow> u64 \<Rightarrow> u64 option" where
  "read_u64 K address = map_option le_word (ReadProcessMemoryInto K address 8)"

definition ReadProcessMemory :: "'z mem_kernel_scheme \<Rightarrow> u64 \<Rightarrow> u64 \<Rightarrow> bytes option res" where
  "ReadProcessMemory K address sz =
     rbind (MakeUniqueArray K sz 1) (\<lambda>_. Inr (ReadProcessMemoryInto K address sz))"

definition PageSize :: u64 where
  "PageSize = 4096"

definition VM_PROT_READ :: u32 where
  "VM_PROT_READ = 1"

definition GetMemoryRegionEndDistance :: "'z mem_kernel_scheme \<Rightarrow> u64 \<Rightarrow> u64 option" where
  "GetMemoryRegionEndDistance K address =
     (let r = vm_region_recurse_64 K address (uninit_size K) 0 (uninit_info K) in
      if rr_success r then
        let regionBase = rr_address r;
            regionSize = rr_size r;
            result = regionBase + regionSize - address;
            regionSize' =
              (if result < PageSize then
                 let n = vm_region_recurse_64 K (regionBase + regionSize) (uninit_size K)
                           (rr_depth r) (rr_info r) in
                 if rr_success n then
                   if rr_address n = regionBase + regionSize \<and>
                      protection (rr_info n) AND VM_PROT_READ \<noteq> 0
                   then regionSize + rr_size n
                   else regionSize
                 else regionSize
               else regionSize)
        in Some (regionBase + regionSize' - address)
      else None)"

text \<open>
  Assigning a C string to a \<open>String\<close> copies the bytes before the terminator. The scan
  looks for a terminator within the bytes that were read.
\<close>

definition c_str :: "bytes \<Rightarrow> bytes" where
  "c_str d = takeWhile (\<lambda>c. c \<noteq> 0) d"

fun has_terminator :: "bytes \<Rightarrow> bool" where
  "has_terminator [] = False"
| "has_terminator (c # cs) = (if c = 0 then True else has_terminator cs)"

definition ReadProcessMemoryString ::
  "'z mem_kernel_scheme \<Rightarrow> u64 \<Rightarrow> u64 \<Rightarrow> bytes option res" where
  "ReadProcessMemoryString K address maxSize =
     (case GetMemoryRegionEndDistance K address of
        None \<Rightarrow> Inr None
      | Some dist \<Rightarrow>
          let sizeToRead = (if maxSize < dist then maxSize else dist) in
          rbind (ReadProcessMemory K address sizeToRead) (\<lambda>pMem.
            case pMem of
              None \<Rightarrow> Inr None
            | Some d \<Rightarrow> if has_terminator d then Inr (Some (c_str d)) else Inr None))"

subsection \<open>What a string read returns\<close>

lemma has_terminator_iff: "has_terminator d \<longleftrightarrow> 0 \<in> set d"
  by (induction d) auto

lemma c_str_no_zero: "0 \<notin> set (c_str d)"
  by (auto simp: c_str_def dest: set_takeWhileD)

lemma c_str_split:
  assumes "0 \<in> set d"
  shows "take (Suc (length (c_str d))) d = c_str d @ [0]"
  using assms unfolding c_str_def by (induction d) auto

lemma c_str_terminated: "0 \<notin> set s \<Longrightarrow> c_str (s @ 0 # d) = s"
  by (induction s) (auto simp: c_str_def)

lemma c_str_shorter: "0 \<in> set d \<Longrightarrow> length (c_str d) < length d"
  unfolding c_str_def by (induction d) auto

text \<open>
  A returned string is what the task's memory holds at the address up to the first zero
  byte, and with its terminator it fits in the caller's limit.
\<close>

lemma ReadProcessMemoryString_sound:
  assumes "ReadProcessMemoryString K address maxSize = Inr (Some s)" and "reads_exactly K"
  shows "\<exists>n d. n \<le> maxSize \<and> vm_read_overwrite K address n = Some d \<and>
    take (Suc (length s)) d = s @ [0] \<and> 0 \<notin> set s \<and> length s < unat maxSize"
proof -
  obtain dist where dist: "GetMemoryRegionEndDistance K address = Some dist"
    using assms(1) by (cases "GetMemoryRegionEndDistance K address")
      (auto simp: ReadProcessMemoryString_def)
  let ?n = "if maxSize < dist then maxSize else dist"
  obtain d where d: "vm_read_overwrite K address ?n = Some d" "has_terminator d" "s = c_str d"
    using assms(1) dist by (auto simp: ReadProcessMemoryString_def ReadProcessMemory_def
        ReadProcessMemoryInto_def Let_def res_simps simp del: if_split split: option.splits if_split_asm)
  have n: "?n \<le> maxSize" by (simp add: not_less)
  have "length d = unat ?n" using assms(2) d(1) by (auto simp: reads_exactly_def)
  with n have "length d \<le> unat maxSize" by (metis word_le_nat_alt)
  then have "length s < unat maxSize"
    using c_str_shorter [of d] d(2,3) by (simp add: has_terminator_iff)
  with n d show ?thesis
    using c_str_split [of d] c_str_no_zero [of d] by (auto simp: has_terminator_iff)
qed

text \<open>
  Conversely a terminated string is found whenever the bytes up to the end of its region,
  or up to the limit, can be read and hold the terminator.
\<close>

lemma ReadProcessMemoryString_complete:
  assumes "GetMemoryRegionEndDistance K address = Some dist"
    and "n = (if maxSize < dist then maxSize else dist)"
    and "malloc_ok K n"
    and "vm_read_overwrite K address n = Some (s @ 0 # d)" and "0 \<notin> set s"
  shows "ReadProcessMemoryString K address maxSize = Inr (Some s)"
  using assms by (simp add: ReadProcessMemoryString_def ReadProcessMemory_def MakeUniqueArray_def
      ReadProcessMemoryInto_def Let_def has_terminator_iff c_str_terminated)

lemma ReadProcessMemoryString_unterminated:
  assumes "GetMemoryRegionEndDistance K address = Some dist"
    and "n = (if maxSize < dist then maxSize else dist)"
    and "malloc_ok K n"
    and "vm_read_overwrite K address n = Some d" and "0 \<notin> set d"
  shows "ReadProcessMemoryString K address maxSize = Inr None"
  using assms by (simp add: ReadProcessMemoryString_def ReadProcessMemory_def MakeUniqueArray_def
      ReadProcessMemoryInto_def Let_def has_terminator_iff)

subsection \<open>A concrete kernel\<close>

text \<open>
  One mapped region that holds the bytes of a list, for the theorems that show the laws can
  hold.
\<close>

definition flat_kernel :: "u64 \<Rightarrow> bytes \<Rightarrow> mem_kernel" where
  "flat_kernel base mem =
     \<lparr>vm_read_overwrite = (\<lambda>a n.
        if base \<le> a \<and> unat (a - base) + unat n \<le> length mem
        then Some (chunk (unat (a - base)) (unat n) mem) else None),
      vm_region_recurse_64 = (\<lambda>a s d i.
        if a < base + of_nat (length mem)
        then \<lparr>rr_success = True, rr_address = base, rr_size = of_nat (length mem), rr_depth = 0,
              rr_info = \<lparr>protection = 3, user_tag = 30\<rparr>\<rparr>
        else \<lparr>rr_success = False, rr_address = a, rr_size = s, rr_depth = d, rr_info = i\<rparr>),
      short_protection = (\<lambda>a s. if a < base + of_nat (length mem) then Some 3 else None),
      malloc_ok = (\<lambda>n. True), uninit_size = 0, uninit_info = \<lparr>protection = 0, user_tag = 0\<rparr>\<rparr>"

lemma flat_kernel_reads_exactly: "reads_exactly (flat_kernel base mem)"
  by (auto simp: reads_exactly_def flat_kernel_def split: if_splits)

subsection \<open>Properties\<close>

text \<open>C30. A string returned for an address is what the task's memory holds there up to the first
  zero byte, and with its terminator it fits into the caller's limit.\<close>

theorem string_is_memory_up_to_terminator:
  assumes "ReadProcessMemoryString K address maxSize = Inr (Some s)" and "reads_exactly K"
  shows "\<exists>n d. n \<le> maxSize \<and> vm_read_overwrite K address n = Some d \<and>
    take (Suc (length s)) d = s @ [0] \<and> 0 \<notin> set s \<and> length s < unat maxSize"
  by (rule ReadProcessMemoryString_sound [OF assms])

lemma string_is_memory_up_to_terminator_witness:
  "\<exists>n d. n \<le> 16 \<and> vm_read_overwrite (flat_kernel 0x1000 [1, 0x61, 0x62, 0, 9]) 0x1001 n = Some d \<and>
    take (Suc (length [0x61, 0x62 :: u8])) d = [0x61, 0x62] @ [0] \<and> 0 \<notin> set [0x61, 0x62 :: u8] \<and>
    length [0x61, 0x62 :: u8] < unat (16 :: u64)"
proof -
  have "ReadProcessMemoryString (flat_kernel 0x1000 [1, 0x61, 0x62, 0, 9]) 0x1001 16 =
      Inr (Some [0x61, 0x62])"
    by code_simp
  from string_is_memory_up_to_terminator [OF this flat_kernel_reads_exactly] show ?thesis .
qed

text \<open>Whether a string is found is decided by the bytes that are read, as many as the limit and
  the distance to the end of the region (or of the readable region right after it) allow: a
  terminator among them gives the bytes before it, none gives failure.\<close>

theorem string_found_iff_terminated:
  assumes "GetMemoryRegionEndDistance K address = Some dist"
    and "malloc_ok K (if maxSize < dist then maxSize else dist)"
    and "vm_read_overwrite K address (if maxSize < dist then maxSize else dist) = Some d"
  shows "ReadProcessMemoryString K address maxSize =
    Inr (if 0 \<in> set d then Some (takeWhile (\<lambda>c. c \<noteq> 0) d) else None)"
proof (cases "0 \<in> set d")
  case True
  note ReadProcessMemoryString_complete [OF assms(1) refl assms(2), of "c_str d" "drop (Suc (length (c_str d))) d"]
  moreover have "c_str d @ 0 # drop (Suc (length (c_str d))) d = d"
    using c_str_split [OF True] append_take_drop_id [of "Suc (length (c_str d))" d] by simp
  ultimately show ?thesis
    using assms(3) True c_str_no_zero [of d] by (simp add: c_str_def)
qed (use ReadProcessMemoryString_unterminated [OF assms(1) refl assms(2,3)] in simp)

lemma string_found_iff_terminated_witness:
  "ReadProcessMemoryString (flat_kernel 0x1000 [1, 0x61, 0x62, 0, 9]) 0x1001 16 = Inr (Some [0x61, 0x62])"
proof -
  let ?K = "flat_kernel 0x1000 [1, 0x61, 0x62, 0, 9]"
  have "GetMemoryRegionEndDistance ?K 0x1001 = Some 4" by code_simp
  moreover have "malloc_ok ?K (if 16 < (4 :: u64) then 16 else 4)" by (simp add: flat_kernel_def)
  moreover have "vm_read_overwrite ?K 0x1001 (if 16 < (4 :: u64) then 16 else 4) = Some [0x61, 0x62, 0, 9]"
    by code_simp
  ultimately show ?thesis
    by (rule string_found_iff_terminated [THEN trans]) simp
qed

end
