(* ===== verification/OrderedMap.thy ===== *)
theory OrderedMap
  imports Prelude
begin

text \<open>
  The standard library's ordered map (\<open>std::map\<close>), as the sources use it: the pairs in
  ascending key order, iterators as positions (\<open>end ()\<close> is the length), \<open>emplace\<close> and
  \<open>insert\<close> that keep an existing entry, \<open>operator[]\<close> assignment that replaces it,
  \<open>lower_bound\<close>, \<open>upper_bound\<close> and \<open>erase\<close>.
\<close>

type_synonym ('k, 'v) omap = "('k \<times> 'v) list"

definition sorted_keys :: "('k::linorder, 'v) omap \<Rightarrow> bool" where
  "sorted_keys m \<longleftrightarrow> sorted_wrt (<) (map fst m)"

fun map_emplace :: "'k::linorder \<Rightarrow> 'v \<Rightarrow> ('k, 'v) omap \<Rightarrow> ('k, 'v) omap" where
  "map_emplace k v [] = [(k, v)]"
| "map_emplace k v ((a, b) # m) =
     (if k < a then (k, v) # (a, b) # m
      else if k = a then (a, b) # m
      else (a, b) # map_emplace k v m)"

fun map_assign :: "'k::linorder \<Rightarrow> 'v \<Rightarrow> ('k, 'v) omap \<Rightarrow> ('k, 'v) omap" where
  "map_assign k v [] = [(k, v)]"
| "map_assign k v ((a, b) # m) =
     (if k < a then (k, v) # (a, b) # m
      else if k = a then (k, v) # m
      else (a, b) # map_assign k v m)"

definition lower_bound :: "('k::linorder, 'v) omap \<Rightarrow> 'k \<Rightarrow> nat" where
  "lower_bound m k = length (takeWhile (\<lambda>p. fst p < k) m)"

definition upper_bound :: "('k::linorder, 'v) omap \<Rightarrow> 'k \<Rightarrow> nat" where
  "upper_bound m k = length (takeWhile (\<lambda>p. fst p \<le> k) m)"

definition erase :: "nat \<Rightarrow> 'a list \<Rightarrow> 'a list" where
  "erase i m = take i m @ drop (Suc i) m"

subsection \<open>Keys and bounds\<close>

lemma sorted_keys_Nil [simp]: "sorted_keys []"
  by (simp add: sorted_keys_def)

lemma sorted_keys_Cons [simp]:
  "sorted_keys (p # m) \<longleftrightarrow> (\<forall>q \<in> set m. fst p < fst q) \<and> sorted_keys m"
  by (auto simp: sorted_keys_def)

lemma sorted_keys_append:
  "sorted_keys (m @ n) \<longleftrightarrow>
     sorted_keys m \<and> sorted_keys n \<and> (\<forall>p \<in> set m. \<forall>q \<in> set n. fst p < fst q)"
  by (auto simp: sorted_keys_def sorted_wrt_append)

lemma sorted_keys_distinct: "sorted_keys m \<Longrightarrow> distinct (map fst m)"
  by (induction m) auto

lemma length_erase [simp]: "i < length m \<Longrightarrow> length (erase i m) = length m - 1"
  by (simp add: erase_def)

lemma erase_append: "erase (length pre) (pre @ p # post) = pre @ post"
  by (simp add: erase_def)

lemma lower_bound_le: "lower_bound m k \<le> length m"
  by (simp add: lower_bound_def length_takeWhile_le)

lemma upper_bound_le: "upper_bound m k \<le> length m"
  by (simp add: upper_bound_def length_takeWhile_le)

text \<open>A sorted map splits at the bound into smaller keys and the others.\<close>

lemma lower_bound_split:
  assumes "sorted_keys m"
  shows "\<forall>p \<in> set (take (lower_bound m k) m). fst p < k"
    and "\<forall>p \<in> set (drop (lower_bound m k) m). k \<le> fst p"
proof -
  show "\<forall>p \<in> set (take (lower_bound m k) m). fst p < k"
    by (auto simp: lower_bound_def takeWhile_eq_take [symmetric] dest: set_takeWhileD)
  show "\<forall>p \<in> set (drop (lower_bound m k) m). k \<le> fst p"
    using assms unfolding lower_bound_def dropWhile_eq_drop [symmetric]
    by (induction m) (auto intro: less_imp_le le_less_trans)
qed

lemma upper_bound_split:
  assumes "sorted_keys m"
  shows "\<forall>p \<in> set (take (upper_bound m k) m). fst p \<le> k"
    and "\<forall>p \<in> set (drop (upper_bound m k) m). k < fst p"
proof -
  show "\<forall>p \<in> set (take (upper_bound m k) m). fst p \<le> k"
    by (auto simp: upper_bound_def takeWhile_eq_take [symmetric] dest: set_takeWhileD)
  show "\<forall>p \<in> set (drop (upper_bound m k) m). k < fst p"
    using assms unfolding upper_bound_def dropWhile_eq_drop [symmetric]
    by (induction m) (auto intro: less_trans)
qed

subsection \<open>The contract of an insertion\<close>

text \<open>
  \<open>emplace\<close>/\<open>insert\<close> and \<open>operator[]\<close> share one contract: the map stays sorted, the
  key is present afterwards, every other key keeps its value. What a loop of insertions
  does to the keys follows from the contract alone.
\<close>

locale map_insertion =
  fixes put :: "'k::linorder \<Rightarrow> 'v \<Rightarrow> ('k, 'v) omap \<Rightarrow> ('k, 'v) omap"
  assumes put_keys: "fst ` set (put k v m) = insert k (fst ` set m)"
    and put_sorted: "sorted_keys m \<Longrightarrow> sorted_keys (put k v m)"
    and put_other: "sorted_keys m \<Longrightarrow> k' \<noteq> k \<Longrightarrow> map_of (put k v m) k' = map_of m k'"
begin

lemma put_nonempty: "put k v m \<noteq> []"
  using put_keys [of k v m] by auto

lemma fold_keys:
  "fst ` set (fold (\<lambda>x. put (f x) (g x)) xs m) = f ` set xs \<union> fst ` set m"
  by (induction xs arbitrary: m) (auto simp: put_keys)

lemma fold_sorted:
  "sorted_keys m \<Longrightarrow> sorted_keys (fold (\<lambda>x. put (f x) (g x)) xs m)"
  by (induction xs arbitrary: m) (auto simp: put_sorted)

lemma put_length: "sorted_keys m \<Longrightarrow> k \<notin> fst ` set m \<Longrightarrow> length (put k v m) = Suc (length m)"
proof -
  assume m: "sorted_keys m" and k: "k \<notin> fst ` set m"
  have "length (put k v m) = card (set (map fst (put k v m)))"
    using sorted_keys_distinct [OF put_sorted [OF m]] by (metis distinct_card length_map)
  also have "\<dots> = Suc (card (set (map fst m)))"
    using k by (simp add: put_keys)
  also have "\<dots> = Suc (length m)"
    using sorted_keys_distinct [OF m] by (metis distinct_card length_map)
  finally show ?thesis .
qed

end

lemma map_emplace_keys: "fst ` set (map_emplace k v m) = insert k (fst ` set m)"
  by (induction k v m rule: map_emplace.induct) auto

lemma map_assign_keys: "fst ` set (map_assign k v m) = insert k (fst ` set m)"
  by (induction k v m rule: map_assign.induct) auto

lemma map_emplace_bound:
  "(\<forall>p \<in> set (map_emplace k v m). x < fst p) \<longleftrightarrow> x < k \<and> (\<forall>p \<in> set m. x < fst p)"
  by (induction k v m rule: map_emplace.induct) auto

lemma map_assign_bound:
  "(\<forall>p \<in> set (map_assign k v m). x < fst p) \<longleftrightarrow> x < k \<and> (\<forall>p \<in> set m. x < fst p)"
  by (induction k v m rule: map_assign.induct) auto

lemma map_emplace_sorted: "sorted_keys m \<Longrightarrow> sorted_keys (map_emplace k v m)"
  by (induction k v m rule: map_emplace.induct) (auto simp: map_emplace_bound)

lemma map_emplace_other:
  "sorted_keys m \<Longrightarrow> k' \<noteq> k \<Longrightarrow> map_of (map_emplace k v m) k' = map_of m k'"
  by (induction k v m rule: map_emplace.induct) auto

interpretation emplace: map_insertion map_emplace
  by unfold_locales (simp_all add: map_emplace_keys map_emplace_sorted map_emplace_other)

lemma map_assign_sorted: "sorted_keys m \<Longrightarrow> sorted_keys (map_assign k v m)"
  by (induction k v m rule: map_assign.induct) (auto simp: map_assign_bound)

lemma map_assign_other:
  "sorted_keys m \<Longrightarrow> k' \<noteq> k \<Longrightarrow> map_of (map_assign k v m) k' = map_of m k'"
  by (induction k v m rule: map_assign.induct) auto

lemma set_map_assign:
  "sorted_keys m \<Longrightarrow> set (map_assign k v m) = insert (k, v) {p \<in> set m. fst p \<noteq> k}"
proof (induction k v m rule: map_assign.induct)
  case (2 k v k' v' m)
  then show ?case by (cases "k = k'") auto
qed simp

interpretation assign: map_insertion map_assign
  by unfold_locales (simp_all add: map_assign_keys map_assign_sorted map_assign_other)

text \<open>They differ in what they do to a key that is present.\<close>

lemma map_of_emplace_same:
  "sorted_keys m \<Longrightarrow>
   map_of (map_emplace k v m) k = (case map_of m k of None \<Rightarrow> Some v | Some w \<Rightarrow> Some w)"
proof (induction k v m rule: map_emplace.induct)
  case (2 k v a b m)
  have "k < a \<Longrightarrow> map_of m k = None"
    using "2.prems" by (auto simp: map_of_eq_None_iff)
  with 2 show ?case by auto
qed simp

lemma map_of_assign_same: "map_of (map_assign k v m) k = Some v"
  by (induction k v m rule: map_assign.induct) auto

lemma map_assign_between:
  assumes "\<forall>p \<in> set pre. fst p < k" and "\<forall>p \<in> set post. k < fst p"
  shows "map_assign k v (pre @ post) = pre @ (k, v) # post"
  using assms
proof (induction pre)
  case Nil
  then show ?case by (cases post) auto
qed auto

lemma map_emplace_between:
  assumes "\<forall>p \<in> set pre. fst p < k" and "\<forall>p \<in> set post. k < fst p"
  shows "map_emplace k v (pre @ post) = pre @ (k, v) # post"
  using assms
proof (induction pre)
  case Nil
  then show ?case by (cases post) auto
qed auto

end
