(* ===== verification/AddressIndex.thy ===== *)
theory AddressIndex
  imports OrderedMap
begin

text \<open>
  \<open>MemoryRegionList\<close> and \<open>ModuleList\<close> look an address up the same way: \<open>lower_bound\<close>, then
  one step back unless the address is the key itself, then a test of the one candidate.
  This theory states the interface and proves once what such a lookup returns.
\<close>

definition candidate :: "(u64, 'v) omap \<Rightarrow> u64 \<Rightarrow> nat" where
  "candidate m a =
     (let it = lower_bound m a in
      if it = length m then it - 1
      else if it \<noteq> 0 \<and> a \<noteq> fst (m ! it) then it - 1
      else it)"

text \<open>
  The candidate is the last entry whose key does not exceed the address; it is the first
  entry when there is none.
\<close>

lemma candidate_less: "m \<noteq> [] \<Longrightarrow> candidate m a < length m"
  using lower_bound_le [of m a] by (auto simp: candidate_def Let_def)

lemma candidate_split:
  assumes "sorted_keys m" and "m \<noteq> []" and "p \<in> set m" and "fst p \<le> a"
  shows "fst p \<le> fst (m ! candidate m a) \<and> fst (m ! candidate m a) \<le> a"
proof -
  let ?it = "lower_bound m a"
  note split = lower_bound_split [OF assms(1), of a]
  have mono: "fst (m ! i) < fst (m ! j)" if "i < j" "j < length m" for i j
    using assms(1) that by (auto simp: sorted_keys_def sorted_wrt_iff_nth_less)
  obtain j where j: "j < length m" "p = m ! j" using assms(3) by (auto simp: in_set_conv_nth)
  have lt: "fst (m ! i) < a" if "i < ?it" for i
  proof -
    have "take ?it m ! i \<in> set (take ?it m)"
      using that lower_bound_le [of m a] by (intro nth_mem) simp
    with split(1) that show ?thesis by simp
  qed
  have ge: "a \<le> fst (m ! i)" if "?it \<le> i" "i < length m" for i
  proof -
    have "drop ?it m ! (i - ?it) \<in> set (drop ?it m)" using that by (intro nth_mem) simp
    with split(2) that show ?thesis by simp
  qed
  have le: "fst (m ! j) \<le> fst (m ! i)" if "j \<le> i" "i < length m" for i
    using mono [of j i] that by (cases "j = i") auto
  show ?thesis
  proof (cases "?it < length m \<and> (?it = 0 \<or> a = fst (m ! ?it))")
    case True
    then have c: "candidate m a = ?it" by (auto simp: candidate_def Let_def)
    have "fst (m ! ?it) = a"
    proof (cases "?it = 0")
      case True': True
      with ge [of j] ge [of 0] j assms(4) True le [of 0] mono [of 0 j] show ?thesis
        by (cases "j = 0") force+
    qed (use True in auto)
    with c j assms(4) show ?thesis by simp
  next
    case False
    have pos: "?it \<noteq> 0"
    proof
      assume "?it = 0"
      with False j lower_bound_le [of m a] show False by auto
    qed
    have c: "candidate m a = ?it - 1"
      using False pos lower_bound_le [of m a] by (auto simp: candidate_def Let_def)
    have "j < ?it"
    proof (rule ccontr)
      assume "\<not> j < ?it"
      then have a: "fst (m ! j) = a" using ge [of j] j assms(4) by auto
      with \<open>\<not> j < ?it\<close> False j pos mono [of ?it j] ge [of ?it] show False
        by (cases "j = ?it") auto
    qed
    with le [of "?it - 1"] lt [of "?it - 1"] pos j lower_bound_le [of m a] c show ?thesis by auto
  qed
qed

lemma candidate_none:
  assumes "sorted_keys m" and "m \<noteq> []" and "\<forall>p \<in> set m. a < fst p"
  shows "candidate m a = 0"
proof -
  have "takeWhile (\<lambda>p. fst p < a) m = []"
    using assms(2,3) by (cases m) (auto simp: not_less)
  then show ?thesis
    using assms(2) by (simp add: candidate_def lower_bound_def)
qed

text \<open>It is found from the keys alone.\<close>

lemma candidate_by_keys:
  "candidate m a =
     (let ks = map fst m; it = length (takeWhile (\<lambda>k. k < a) ks) in
      if it = length ks then it - 1 else if it \<noteq> 0 \<and> a \<noteq> ks ! it then it - 1 else it)"
proof -
  have it: "lower_bound m a = length (takeWhile (\<lambda>k. k < a) (map fst m))"
    by (simp add: lower_bound_def takeWhile_map o_def)
  show ?thesis
  proof (cases "lower_bound m a = length m")
    case False
    then have "lower_bound m a < length m" using lower_bound_le [of m a] by simp
    then have "map fst m ! lower_bound m a = fst (m ! lower_bound m a)" by (rule nth_map)
    then show ?thesis unfolding candidate_def Let_def it [symmetric] by simp
  qed (simp add: candidate_def Let_def it [symmetric])
qed

subsection \<open>The interface of an address lookup\<close>

locale address_lookup =
  fixes contains :: "u64 \<Rightarrow> 'v \<Rightarrow> bool"
    and lookup :: "(u64, 'v) omap \<Rightarrow> u64 \<Rightarrow> 'v option"
  assumes lookup_empty: "lookup [] a = None"
    and lookup_candidate:
      "m \<noteq> [] \<Longrightarrow> lookup m a =
         (let v = snd (m ! candidate m a) in if contains a v then Some v else None)"
begin

lemma lookup_sound: "lookup m a = Some v \<Longrightarrow> contains a v \<and> v \<in> snd ` set m"
  by (cases "m = []")
    (auto simp: lookup_empty lookup_candidate Let_def candidate_less split: if_splits)

text \<open>
  An entry that contains the address is found when no entry with a larger key, up to the
  address, hides it.
\<close>

lemma lookup_complete:
  assumes "sorted_keys m" and "(k, v) \<in> set m" and "k \<le> a" and "contains a v"
    and "\<forall>(k', v') \<in> set m. \<not> (k < k' \<and> k' \<le> a)"
  shows "lookup m a = Some v"
proof -
  have ne: "m \<noteq> []" using assms(2) by auto
  let ?c = "m ! candidate m a"
  have c: "?c \<in> set m" using candidate_less [OF ne] by simp
  have "k \<le> fst ?c \<and> fst ?c \<le> a"
    using candidate_split [OF assms(1) ne assms(2)] assms(3) by simp
  with assms(5) c have "fst ?c = k" by (metis (mono_tags, lifting) case_prodE fst_conv le_less)
  with c assms(1,2) have "?c = (k, v)"
    using sorted_keys_distinct by (metis eq_key_imp_eq_value prod.collapse)
  with assms(4) show ?thesis by (simp add: lookup_candidate [OF ne])
qed

lemma lookup_below_all:
  assumes "sorted_keys m" and "\<forall>p \<in> set m. a < fst p"
    and "\<forall>(k, v) \<in> set m. contains a v \<longrightarrow> k \<le> a"
  shows "lookup m a = None"
proof (cases "m = []")
  case False
  then have "m ! 0 \<in> set m" by simp
  with assms(2,3) have "\<not> contains a (snd (m ! 0))"
    by (metis (no_types, lifting) case_prod_unfold linorder_not_le)
  with False show ?thesis
    by (simp add: lookup_candidate candidate_none [OF assms(1) False assms(2)])
qed (simp add: lookup_empty)

end

end
