(* ===== verification/MachO.thy ===== *)
theory MachO
  imports Prelude
begin

text \<open>
  The Mach-O structures the program reads from the images of the task and writes to the
  core file, with the layout that \<open>Misc/core.hsl\<close> documents, and the walk over the load
  commands of an image that four functions of the program make.
\<close>

subsection \<open>Constants\<close>

definition MH_MAGIC_64 :: u32 where "MH_MAGIC_64 = 0xFEEDFACF"
definition MH_EXECUTE :: u32 where "MH_EXECUTE = 2"
definition MH_CORE :: u32 where "MH_CORE = 4"
definition LC_THREAD :: u32 where "LC_THREAD = 4"
definition LC_SEGMENT_64 :: u32 where "LC_SEGMENT_64 = 0x19"
definition LC_UUID :: u32 where "LC_UUID = 0x1b"
definition LC_NOTE :: u32 where "LC_NOTE = 0x31"
definition CPU_TYPE_X86_64 :: u32 where "CPU_TYPE_X86_64 = 0x1000007"
definition CPU_TYPE_ARM64 :: u32 where "CPU_TYPE_ARM64 = 0x100000C"

lemmas macho_constants = MH_MAGIC_64_def MH_EXECUTE_def MH_CORE_def LC_THREAD_def
  LC_SEGMENT_64_def LC_UUID_def LC_NOTE_def CPU_TYPE_X86_64_def CPU_TYPE_ARM64_def

subsection \<open>Structures\<close>

record mach_header_64 =
  magic :: u32
  cputype :: u32
  cpusubtype :: u32
  filetype :: u32
  ncmds :: u32
  sizeofcmds :: u32
  hdr_flags :: u32
  hdr_reserved :: u32

record note_command =
  nc_cmd :: u32
  nc_cmdsize :: u32
  data_owner :: bytes \<comment> \<open>\<open>char[16]\<close>\<close>
  nc_offset :: u64
  nc_size :: u64

record segment_command_64 =
  sc_cmd :: u32
  sc_cmdsize :: u32
  sc_segname :: bytes \<comment> \<open>\<open>char[16]\<close>\<close>
  sc_vmaddr :: u64
  sc_vmsize :: u64
  sc_fileoff :: u64
  sc_filesize :: u64
  sc_maxprot :: u32
  sc_initprot :: u32
  sc_nsects :: u32
  sc_flags :: u32

definition enc_header :: "mach_header_64 \<Rightarrow> bytes" where
  "enc_header h =
     le32 (magic h) @ le32 (cputype h) @ le32 (cpusubtype h) @ le32 (filetype h) @
     le32 (ncmds h) @ le32 (sizeofcmds h) @ le32 (hdr_flags h) @ le32 (hdr_reserved h)"

definition enc_note :: "note_command \<Rightarrow> bytes" where
  "enc_note c =
     le32 (nc_cmd c) @ le32 (nc_cmdsize c) @ data_owner c @ le64 (nc_offset c) @ le64 (nc_size c)"

definition enc_segment :: "segment_command_64 \<Rightarrow> bytes" where
  "enc_segment c =
     le32 (sc_cmd c) @ le32 (sc_cmdsize c) @ sc_segname c @ le64 (sc_vmaddr c) @
     le64 (sc_vmsize c) @ le64 (sc_fileoff c) @ le64 (sc_filesize c) @ le32 (sc_maxprot c) @
     le32 (sc_initprot c) @ le32 (sc_nsects c) @ le32 (sc_flags c)"

definition sizeof_mach_header_64 :: nat where "sizeof_mach_header_64 = 32"
definition sizeof_note_command :: nat where "sizeof_note_command = 40"
definition sizeof_segment_command_64 :: nat where "sizeof_segment_command_64 = 72"

lemmas sizeofs = sizeof_mach_header_64_def sizeof_note_command_def sizeof_segment_command_64_def

lemma length_enc_header [simp, len_simps]: "length (enc_header h) = 32"
  by (simp add: enc_header_def)

lemma length_enc_note [simp, len_simps]:
  "length (data_owner c) = 16 \<Longrightarrow> length (enc_note c) = 40"
  by (simp add: enc_note_def)

lemma length_enc_segment [simp, len_simps]:
  "length (sc_segname c) = 16 \<Longrightarrow> length (enc_segment c) = 72"
  by (simp add: enc_segment_def)

text \<open>What a debugger reads back: the fields at their documented offsets.\<close>

definition dec_header :: "bytes \<Rightarrow> mach_header_64 res" where
  "dec_header b =
     rbind (rd32 b 0) (\<lambda>m. rbind (rd32 b 4) (\<lambda>ct. rbind (rd32 b 8) (\<lambda>cs.
     rbind (rd32 b 12) (\<lambda>ft. rbind (rd32 b 16) (\<lambda>n. rbind (rd32 b 20) (\<lambda>s.
     rbind (rd32 b 24) (\<lambda>fl. rbind (rd32 b 28) (\<lambda>r.
       Inr \<lparr>magic = m, cputype = ct, cpusubtype = cs, filetype = ft, ncmds = n, sizeofcmds = s,
            hdr_flags = fl, hdr_reserved = r\<rparr>))))))))"

definition dec_note :: "bytes \<Rightarrow> note_command res" where
  "dec_note b =
     rbind (rd32 b 0) (\<lambda>c. rbind (rd32 b 4) (\<lambda>s. rbind (read_at b 8 16) (\<lambda>ow.
     rbind (rd64 b 24) (\<lambda>off. rbind (rd64 b 32) (\<lambda>sz.
       Inr \<lparr>nc_cmd = c, nc_cmdsize = s, data_owner = ow, nc_offset = off, nc_size = sz\<rparr>)))))"

definition dec_segment :: "bytes \<Rightarrow> segment_command_64 res" where
  "dec_segment b =
     rbind (rd32 b 0) (\<lambda>c. rbind (rd32 b 4) (\<lambda>s. rbind (read_at b 8 16) (\<lambda>nm.
     rbind (rd64 b 24) (\<lambda>va. rbind (rd64 b 32) (\<lambda>vs. rbind (rd64 b 40) (\<lambda>fo.
     rbind (rd64 b 48) (\<lambda>fs. rbind (rd32 b 56) (\<lambda>mp. rbind (rd32 b 60) (\<lambda>ip.
     rbind (rd32 b 64) (\<lambda>ns. rbind (rd32 b 68) (\<lambda>fl.
       Inr \<lparr>sc_cmd = c, sc_cmdsize = s, sc_segname = nm, sc_vmaddr = va, sc_vmsize = vs,
            sc_fileoff = fo, sc_filesize = fs, sc_maxprot = mp, sc_initprot = ip,
            sc_nsects = ns, sc_flags = fl\<rparr>)))))))))))"

lemma rd32_end [simp]: "rd32 (le32 w) 0 = Inr w"
  using rd32_0 [of w "[]"] by simp

lemma rd64_end [simp]: "rd64 (le64 w) 0 = Inr w"
  using rd64_0 [of w "[]"] by simp

lemma dec_enc_header: "dec_header (enc_header h @ rest) = Inr h"
  by (simp add: dec_header_def enc_header_def rd_skips)

lemma dec_enc_note: "length (data_owner c) = 16 \<Longrightarrow> dec_note (enc_note c @ rest) = Inr c"
  by (simp add: dec_note_def enc_note_def rd_skips chunk_skip)

lemma dec_enc_segment: "length (sc_segname c) = 16 \<Longrightarrow> dec_segment (enc_segment c @ rest) = Inr c"
  by (simp add: dec_segment_def enc_segment_def rd_skips chunk_skip)

subsection \<open>Walking the load commands of an image\<close>

text \<open>
  A load command is a run of bytes whose second field is its own length; the fields that
  the program reads from a segment or UUID command lie inside it.
\<close>

definition cmd_of :: "bytes \<Rightarrow> u32" where
  "cmd_of c = le_word (chunk 0 4 c)"

definition cmdsize_of :: "bytes \<Rightarrow> u32" where
  "cmdsize_of c = le_word (chunk 4 4 c)"

definition load_command :: "bytes \<Rightarrow> bool" where
  "load_command c \<longleftrightarrow>
     8 \<le> length c \<and> unat (cmdsize_of c) = length c \<and>
     (cmd_of c = LC_SEGMENT_64 \<longrightarrow> 72 \<le> length c) \<and> (cmd_of c = LC_UUID \<longrightarrow> 24 \<le> length c)"

definition at_offset :: "bytes \<Rightarrow> nat \<Rightarrow> bytes \<Rightarrow> bool" where
  "at_offset buf p c \<longleftrightarrow> p + length c \<le> length buf \<and> chunk p (length c) buf = c"

lemma at_offset_append: "p = length pre \<Longrightarrow> at_offset (pre @ c @ post) p c"
  by (simp add: at_offset_def chunk_mid)

lemma at_offset_read:
  assumes "at_offset buf p c" and "i + n \<le> length c"
  shows "read_at buf (p + i) n = Inr (chunk i n c)"
proof -
  have "chunk i n c = chunk (p + i) n buf"
    using assms chunk_chunk [of i n "length c" p buf] by (simp add: at_offset_def)
  with assms show ?thesis by (simp add: at_offset_def)
qed

lemma at_offset_rd32:
  "at_offset buf p c \<Longrightarrow> i + 4 \<le> length c \<Longrightarrow> rd32 buf (p + i) = Inr (le_word (chunk i 4 c))"
  by (simp add: rd32_def at_offset_read)

lemma at_offset_rd64:
  "at_offset buf p c \<Longrightarrow> i + 8 \<le> length c \<Longrightarrow> rd64 buf (p + i) = Inr (le_word (chunk i 8 c))"
  by (simp add: rd64_def at_offset_read)

lemma at_offset_cmd:
  assumes "load_command c" and "at_offset buf p c"
  shows "rd32 buf p = Inr (cmd_of c)" and "rd32 buf (p + 4) = Inr (cmdsize_of c)"
  using assms at_offset_rd32 [OF assms(2), of 0] at_offset_rd32 [OF assms(2), of 4]
  by (simp_all add: load_command_def cmd_of_def cmdsize_of_def)

lemmas at_offset_reads = at_offset_cmd at_offset_read at_offset_rd32 at_offset_rd64

text \<open>
  The interface of the walks that visit every command: one iteration consumes the command
  at the pointer and moves on by its \<open>cmdsize\<close>. Over a buffer that holds the commands one
  after another such a walk stays in bounds and is a fold over them.
\<close>

locale command_walk =
  fixes loop :: "nat \<Rightarrow> bytes \<Rightarrow> nat \<Rightarrow> 's \<Rightarrow> 's res"
    and ok :: "bytes \<Rightarrow> bool"
    and step :: "bytes \<Rightarrow> 's \<Rightarrow> 's"
  assumes loop_done: "loop 0 buf p s = Inr s"
    and loop_next: "\<lbrakk>load_command c; ok c; at_offset buf p c\<rbrakk> \<Longrightarrow>
      loop (Suc n) buf p s = loop n buf (p + length c) (step c s)"
begin

lemma walk_all:
  assumes "\<forall>c \<in> set cs. load_command c \<and> ok c" and "p = length pre"
  shows "loop (length cs) (pre @ concat cs @ post) p s = Inr (fold step cs s)"
  using assms
proof (induction cs arbitrary: pre p s)
  case Nil
  then show ?case by (simp add: loop_done)
next
  case (Cons c cs)
  have "loop (length cs) ((pre @ c) @ concat cs @ post) (p + length c) (step c s)
      = Inr (fold step cs (step c s))"
    by (rule Cons.IH) (use Cons.prems in simp_all)
  moreover have "at_offset (pre @ c @ concat cs @ post) p c"
    using Cons.prems(2) by (rule at_offset_append)
  from loop_next [OF _ _ this] have "loop (Suc (length cs)) (pre @ c @ concat cs @ post) p s =
      loop (length cs) (pre @ c @ concat cs @ post) (p + length c) (step c s)"
    using Cons.prems(1) by simp
  ultimately show ?case by simp
qed

end

text \<open>The walks that return at the first command of interest.\<close>

locale command_search =
  fixes loop :: "nat \<Rightarrow> bytes \<Rightarrow> nat \<Rightarrow> 'r res"
    and hit :: "bytes \<Rightarrow> bool"
    and result :: "bytes \<Rightarrow> 'r"
    and default_result :: 'r
  assumes search_done: "loop 0 buf p = Inr default_result"
    and search_hit: "\<lbrakk>load_command c; at_offset buf p c; hit c\<rbrakk> \<Longrightarrow>
      loop (Suc n) buf p = Inr (result c)"
    and search_next: "\<lbrakk>load_command c; at_offset buf p c; \<not> hit c\<rbrakk> \<Longrightarrow>
      loop (Suc n) buf p = loop n buf (p + length c)"
begin

lemma search_first:
  assumes "\<forall>c \<in> set cs. load_command c" and "p = length pre"
  shows "loop (length cs) (pre @ concat cs @ post) p =
    Inr (case find hit cs of None \<Rightarrow> default_result | Some c \<Rightarrow> result c)"
  using assms
proof (induction cs arbitrary: pre p)
  case Nil
  then show ?case by (simp add: search_done)
next
  case (Cons c cs)
  have at: "at_offset (pre @ c @ concat cs @ post) p c"
    using Cons.prems(2) by (rule at_offset_append)
  show ?case
  proof (cases "hit c")
    case True
    with search_hit [OF _ at] Cons.prems show ?thesis by simp
  next
    case False
    have "loop (length cs) ((pre @ c) @ concat cs @ post) (p + length c) =
        Inr (case find hit cs of None \<Rightarrow> default_result | Some c \<Rightarrow> result c)"
      by (rule Cons.IH) (use Cons.prems in simp_all)
    with search_next [OF _ at] Cons.prems(1) False show ?thesis by simp
  qed
qed

end

end
