(* ===== verification/ModuleList.thy ===== *)
theory ModuleList
  imports ProcessMemory AddressIndex MachO
begin

text \<open>
  \<open>ModuleList\<close>: the images loaded in the task, found through the information that the
  dynamic linker keeps there, each with its segments slid to where they are loaded. The
  structures of \<open>mach-o/dyld_images.h\<close> are not in the repository: their sizes and decoders
  are the fields of \<open>dyld_abi\<close>.
\<close>

subsection \<open>Types\<close>

record SegmentInfo =
  segmentName :: bytes \<comment> \<open>\<open>char[16]\<close>\<close>
  address :: u64
  seg_size :: u64

record ModuleInfo =
  loadAddress :: u64
  uuid :: bytes
  filePath :: bytes
  segments :: "SegmentInfo list"
  executing :: bool
  headerAndLoadCommandBytes :: bytes

type_synonym ModuleInfos = "(u64, ModuleInfo) omap"

record all_image_infos = \<comment> \<open>the fields read of \<open>dyld_all_image_infos\<close>\<close>
  version :: u32
  infoArrayCount :: u32
  infoArray :: u64
  dyldImageLoadAddress :: u64
  dyldPath :: u64

record image_info =
  imageLoadAddress :: u64
  imageFilePath :: u64

record dyld_abi =
  sizeof_all_image_infos :: u64
  dec_all_image_infos :: "bytes \<Rightarrow> all_image_infos"
  sizeof_image_info :: u64
  dec_image_info :: "bytes \<Rightarrow> image_info"

record dyld_kernel = mem_kernel +
  task_dyld_info :: "u64 option" \<comment> \<open>\<open>all_image_info_addr\<close> of \<open>task_info\<close>\<close>

subsection \<open>Reading the load commands of an image\<close>

text \<open>The body of the loop of \<open>GetSegmentsOfModule\<close>, then the loop with its counter.\<close>

definition read_segment_info :: "bytes \<Rightarrow> nat \<Rightarrow> SegmentInfo res" where
  "read_segment_info buf p =
     rbind (read_at buf (p + 8) 16) (\<lambda>segname.
     rbind (rd64 buf (p + 24)) (\<lambda>va.
     rbind (rd64 buf (p + 32)) (\<lambda>vs.
       Inr \<lparr>segmentName = strncpy 16 segname, address = va, seg_size = vs\<rparr>)))"

fun segments_loop :: "nat \<Rightarrow> bytes \<Rightarrow> nat \<Rightarrow> SegmentInfo list \<Rightarrow> SegmentInfo list res" where
  "segments_loop 0 buf p result = Inr result"
| "segments_loop (Suc n) buf p result =
     rbind (rd32 buf p) (\<lambda>cmd.
     rbind (if cmd = LC_SEGMENT_64
            then rbind (read_segment_info buf p) (\<lambda>si. Inr (result @ [si]))
            else Inr result) (\<lambda>result.
     rbind (rd32 buf (p + 4)) (\<lambda>cmdsize.
       segments_loop n buf (p + unat cmdsize) result)))"

definition GetSegmentsOfModule :: "bytes \<Rightarrow> SegmentInfo list res" where
  "GetSegmentsOfModule raw =
     rbind (rd32 raw 16) (\<lambda>n. segments_loop (unat n) raw sizeof_mach_header_64 [])"

fun uuid_loop :: "nat \<Rightarrow> bytes \<Rightarrow> nat \<Rightarrow> bytes res" where
  "uuid_loop 0 buf p = Inr (replicate 16 0)"
| "uuid_loop (Suc n) buf p =
     rbind (rd32 buf p) (\<lambda>cmd.
       if cmd = LC_UUID then read_at buf (p + 8) 16
       else rbind (rd32 buf (p + 4)) (\<lambda>cmdsize. uuid_loop n buf (p + unat cmdsize)))"

definition GetUUIDOfModule :: "bytes \<Rightarrow> bytes res" where
  "GetUUIDOfModule raw =
     rbind (rd32 raw 16) (\<lambda>n. uuid_loop (unat n) raw sizeof_mach_header_64)"

fun GetTextSegment :: "SegmentInfo list \<Rightarrow> SegmentInfo option" where
  "GetTextSegment [] = None"
| "GetTextSegment (seg # segs) =
     (if name_is (segmentName seg) ''__TEXT'' then Some seg else GetTextSegment segs)"

definition GetTextSegmentOfModule :: "ModuleInfo \<Rightarrow> SegmentInfo option" where
  "GetTextSegmentOfModule mi = GetTextSegment (segments mi)"

subsection \<open>Creating the entry of one image\<close>

fun find_slide :: "u64 \<Rightarrow> SegmentInfo list \<Rightarrow> u64" where
  "find_slide load [] = 0"
| "find_slide load (si # sis) =
     (if name_is (segmentName si) ''__TEXT'' then load - address si else find_slide load sis)"

definition slide_segment :: "u64 \<Rightarrow> SegmentInfo \<Rightarrow> SegmentInfo" where
  "slide_segment slide si =
     (if name_is (segmentName si) ''__PAGEZERO'' then si
      else si\<lparr>address := address si + slide\<rparr>)"

definition new_ModuleInfo :: "u64 \<Rightarrow> bytes \<Rightarrow> bytes \<Rightarrow> SegmentInfo list \<Rightarrow> bool \<Rightarrow> bytes \<Rightarrow> ModuleInfo" where
  [simp]: "new_ModuleInfo load pUUID path segs exec headerBytes =
     \<lparr>loadAddress = load, uuid = pUUID, filePath = path, segments = segs, executing = exec,
      headerAndLoadCommandBytes = headerBytes\<rparr>"

definition CreateModuleInfo ::
  "'z mem_kernel_scheme \<Rightarrow> u64 \<Rightarrow> bytes \<Rightarrow> ModuleInfo option res" where
  "CreateModuleInfo K load path =
     (case ReadProcessMemoryInto K load (of_nat sizeof_mach_header_64) of
        None \<Rightarrow> Inr None
      | Some header \<Rightarrow>
          rbind (rd32 header 20) (\<lambda>size_of_cmds.
          rbind (ReadProcessMemory K load (of_nat sizeof_mach_header_64 + ucast size_of_cmds))
            (\<lambda>raw. case raw of
               None \<Rightarrow> Inr None
             | Some pRawBytes \<Rightarrow>
                 rbind (GetSegmentsOfModule pRawBytes) (\<lambda>segs.
                 rbind (GetUUIDOfModule pRawBytes) (\<lambda>rawUUID.
                   Inr (Some (new_ModuleInfo load rawUUID path
                     (map (slide_segment (find_slide load segs)) segs) False pRawBytes)))))))"

definition CreateModuleInfoAt ::
  "'z mem_kernel_scheme \<Rightarrow> u64 \<Rightarrow> u64 \<Rightarrow> ModuleInfo option res" where
  "CreateModuleInfoAt K load pathAddress =
     rbind (ReadProcessMemoryString K pathAddress 4096) (\<lambda>path.
       case path of
         None \<Rightarrow> Inr None
       | Some imagePath \<Rightarrow> CreateModuleInfo K load imagePath)"

subsection \<open>The constructor\<close>

text \<open>
  The entries of the image array are added one by one; the first image that cannot be read
  invalidates the whole list. The empty list is the invalid one.
\<close>

definition Invalidate :: "ModuleInfos \<Rightarrow> ModuleInfos" where
  "Invalidate m = []"

fun images_loop ::
  "'z mem_kernel_scheme \<Rightarrow> dyld_abi \<Rightarrow> bytes \<Rightarrow> nat \<Rightarrow> nat \<Rightarrow> ModuleInfos \<Rightarrow> ModuleInfos res"
where
  "images_loop K D infos i 0 m = Inr m"
| "images_loop K D infos i (Suc n) m =
     rbind (read_at infos (i * unat (sizeof_image_info D)) (unat (sizeof_image_info D))) (\<lambda>b.
     let info = dec_image_info D b in
     rbind (CreateModuleInfoAt K (imageLoadAddress info) (imageFilePath info)) (\<lambda>mi.
       case mi of
         None \<Rightarrow> Inr (Invalidate m)
       | Some moduleInfo \<Rightarrow>
           images_loop K D infos (Suc i) n (map_emplace (loadAddress moduleInfo) moduleInfo m)))"

definition default_dyld_path :: bytes where
  "default_dyld_path = map of_char ''/usr/lib/dyld''"

definition read_dyld_path :: "'z mem_kernel_scheme \<Rightarrow> all_image_infos \<Rightarrow> bytes res" where
  "read_dyld_path K info =
     (if version info \<ge> 15 then
        rbind (ReadProcessMemoryString K (dyldPath info) 4096) (\<lambda>s.
          Inr (case s of None \<Rightarrow> default_dyld_path | Some path \<Rightarrow> path))
      else Inr default_dyld_path)"

definition new_ModuleList :: "config \<Rightarrow> 'z dyld_kernel_scheme \<Rightarrow> dyld_abi \<Rightarrow> ModuleInfos res" where
  "new_ModuleList cfg K D =
     (case task_dyld_info K of
        None \<Rightarrow> Inr []
      | Some dyldInfoAddress \<Rightarrow>
          (case ReadProcessMemoryInto K dyldInfoAddress (sizeof_all_image_infos D) of
             None \<Rightarrow> Inr []
           | Some b \<Rightarrow>
               let imageInfo = dec_all_image_infos D b in
               rbind (ReadProcessMemory K (infoArray imageInfo)
                        (ucast (infoArrayCount imageInfo) * sizeof_image_info D)) (\<lambda>infosBytes.
               case infosBytes of
                 None \<Rightarrow> Inr []
               | Some infos \<Rightarrow>
                   rbind (read_dyld_path K imageInfo) (\<lambda>dyldImagePath.
                   rbind (cpp_assert cfg (version imageInfo \<ge> 9)) (\<lambda>_.
                   rbind (CreateModuleInfo K (dyldImageLoadAddress imageInfo) dyldImagePath) (\<lambda>dyld.
                     case dyld of
                       None \<Rightarrow> Inr (Invalidate [])
                     | Some dyldModuleInfo \<Rightarrow>
                         images_loop K D infos 0 (unat (infoArrayCount imageInfo))
                           (map_emplace (loadAddress dyldModuleInfo) dyldModuleInfo [])))))))"

subsection \<open>Queries and marking\<close>

definition IsValid :: "ModuleInfos \<Rightarrow> bool" where
  "IsValid m \<longleftrightarrow> m \<noteq> []"

definition GetSize :: "ModuleInfos \<Rightarrow> nat" where
  "GetSize m = length m"

definition isCodeInModule :: "u64 \<Rightarrow> ModuleInfo \<Rightarrow> bool" where
  "isCodeInModule addr mi =
     (case GetTextSegmentOfModule mi of
        None \<Rightarrow> False
      | Some si \<Rightarrow> addr \<ge> address si \<and> addr \<le> address si + seg_size si)"

text \<open>The entry the search ends at, as its position; the pointer the code hands out.\<close>

definition GetModuleInfoForAddressImpl :: "ModuleInfos \<Rightarrow> u64 \<Rightarrow> nat option" where
  "GetModuleInfoForAddressImpl m addr =
     (if m = [] then None
      else
        let it = lower_bound m addr in
        if it = length m then
          (if isCodeInModule addr (snd (m ! (length m - 1))) then Some (length m - 1) else None)
        else
          let it = (if it \<noteq> 0 \<and> addr \<noteq> fst (m ! it) then it - 1 else it) in
          if isCodeInModule addr (snd (m ! it)) then Some it else None)"

definition GetModuleInfoForAddress :: "ModuleInfos \<Rightarrow> u64 \<Rightarrow> ModuleInfo option" where
  "GetModuleInfoForAddress m addr =
     map_option (\<lambda>i. snd (m ! i)) (GetModuleInfoForAddressImpl m addr)"

definition MarkAsExecuting :: "u64 \<Rightarrow> ModuleInfos \<Rightarrow> bool \<times> ModuleInfos" where
  "MarkAsExecuting codeAddress m =
     (case GetModuleInfoForAddressImpl m codeAddress of
        None \<Rightarrow> (False, m)
      | Some i \<Rightarrow> (True, m[i := (fst (m ! i), (snd (m ! i))\<lparr>executing := True\<rparr>)]))"

lemma Impl_candidate:
  "m \<noteq> [] \<Longrightarrow> GetModuleInfoForAddressImpl m a =
     (if isCodeInModule a (snd (m ! candidate m a)) then Some (candidate m a) else None)"
  by (simp add: GetModuleInfoForAddressImpl_def candidate_def Let_def)

interpretation modules: address_lookup isCodeInModule GetModuleInfoForAddress
  by unfold_locales
    (simp_all add: GetModuleInfoForAddress_def Impl_candidate Let_def GetModuleInfoForAddressImpl_def [of "[]"])

subsection \<open>The walks over well-formed load commands\<close>

definition seg_info_of :: "bytes \<Rightarrow> SegmentInfo" where
  "seg_info_of c =
     \<lparr>segmentName = strncpy 16 (chunk 8 16 c), address = le_word (chunk 24 8 c),
      seg_size = le_word (chunk 32 8 c)\<rparr>"

definition is_segment :: "bytes \<Rightarrow> bool" where
  "is_segment c \<longleftrightarrow> cmd_of c = LC_SEGMENT_64"

definition is_uuid :: "bytes \<Rightarrow> bool" where
  "is_uuid c \<longleftrightarrow> cmd_of c = LC_UUID"

interpretation segs: command_walk segments_loop "\<lambda>c. True"
  "\<lambda>c acc. if is_segment c then acc @ [seg_info_of c] else acc"
proof
  fix c buf p n and acc :: "SegmentInfo list"
  assume c: "load_command c" and at: "at_offset buf p c"
  have "read_segment_info buf p = Inr (seg_info_of c)" if "is_segment c"
    using c that at_offset_read [OF at, of 8 16] at_offset_rd64 [OF at, of 24]
      at_offset_rd64 [OF at, of 32]
    by (simp add: read_segment_info_def seg_info_of_def load_command_def is_segment_def)
  with c at show "segments_loop (Suc n) buf p acc =
      segments_loop n buf (p + length c) (if is_segment c then acc @ [seg_info_of c] else acc)"
    by (auto simp: at_offset_cmd is_segment_def load_command_def)
qed simp

interpretation uuids: command_search uuid_loop is_uuid "chunk 8 16" "replicate 16 0"
proof
  fix c buf p n
  assume c: "load_command c" and at: "at_offset buf p c"
  note reads = at_offset_cmd [OF c at]
  show "is_uuid c \<Longrightarrow> uuid_loop (Suc n) buf p = Inr (chunk 8 16 c)"
    using c at_offset_read [OF at, of 8 16] by (simp add: reads is_uuid_def load_command_def)
  show "\<not> is_uuid c \<Longrightarrow> uuid_loop (Suc n) buf p = uuid_loop n buf (p + length c)"
    using c by (simp add: reads is_uuid_def load_command_def)
qed simp

subsection \<open>Images\<close>

definition image_bytes :: "mach_header_64 \<Rightarrow> bytes list \<Rightarrow> bytes" where
  "image_bytes h cs = enc_header h @ concat cs"

definition wf_image :: "mach_header_64 \<Rightarrow> bytes list \<Rightarrow> bool" where
  "wf_image h cs \<longleftrightarrow> (\<forall>c \<in> set cs. load_command c) \<and> unat (ncmds h) = length cs \<and>
     unat (sizeofcmds h) = length (concat cs)"

lemma header_fields:
  "rd32 (enc_header h @ rest) 12 = Inr (filetype h)"
  "rd32 (enc_header h @ rest) 16 = Inr (ncmds h)"
  "rd32 (enc_header h @ rest) 20 = Inr (sizeofcmds h)"
  by (simp_all add: enc_header_def rd_skips)

lemma fold_collect:
  "fold (\<lambda>c acc. if P c then acc @ [f c] else acc) cs acc = acc @ map f (filter P cs)"
  by (induction cs arbitrary: acc) simp_all

lemma GetSegmentsOfModule_image:
  assumes "wf_image h cs"
  shows "GetSegmentsOfModule (image_bytes h cs @ rest) = Inr (map seg_info_of (filter is_segment cs))"
  using assms segs.walk_all [of cs sizeof_mach_header_64 "enc_header h" rest "[]"]
  by (simp add: wf_image_def GetSegmentsOfModule_def image_bytes_def header_fields sizeofs fold_collect)

lemma GetUUIDOfModule_image:
  assumes "wf_image h cs"
  shows "GetUUIDOfModule (image_bytes h cs @ rest) =
    Inr (case find is_uuid cs of None \<Rightarrow> replicate 16 0 | Some c \<Rightarrow> chunk 8 16 c)"
  using assms uuids.search_first [of cs sizeof_mach_header_64 "enc_header h" rest]
  by (simp add: wf_image_def GetUUIDOfModule_def image_bytes_def header_fields sizeofs)

subsection \<open>Sliding\<close>

lemma text_not_pagezero:
  assumes "name_is n ''__TEXT''"
  shows "\<not> name_is n ''__PAGEZERO''"
proof
  assume "name_is n ''__PAGEZERO''"
  with assms have "strcmp_eq (cstr ''__TEXT'') (cstr ''__PAGEZERO'') = Some True"
    unfolding name_is_def by (rule strcmp_eq_common)
  then show False by (simp add: cstr_def)
qed

lemma find_slide_text:
  "find_slide load segs = (case GetTextSegment segs of None \<Rightarrow> 0 | Some t \<Rightarrow> load - address t)"
  by (induction segs) auto

lemma slide_segment_simps [simp]:
  "segmentName (slide_segment d si) = segmentName si"
  "seg_size (slide_segment d si) = seg_size si"
  by (simp_all add: slide_segment_def)

lemma GetTextSegment_slide:
  "GetTextSegment (map (slide_segment d) segs) = map_option (slide_segment d) (GetTextSegment segs)"
  by (induction segs) auto

lemma GetTextSegment_name: "GetTextSegment segs = Some t \<Longrightarrow> name_is (segmentName t) ''__TEXT''"
  by (induction segs) (auto split: if_splits)

lemma slid_text_at_load:
  assumes "GetTextSegment (map (slide_segment (find_slide load segs)) segs) = Some t"
  shows "address t = load"
proof -
  obtain t0 where t0: "GetTextSegment segs = Some t0" "t = slide_segment (load - address t0) t0"
    using assms by (auto simp: GetTextSegment_slide find_slide_text)
  then show ?thesis
    using text_not_pagezero [OF GetTextSegment_name [OF t0(1)]] by (simp add: slide_segment_def)
qed

subsection \<open>What creating an entry gives\<close>

lemma CreateModuleInfo_fields:
  assumes "CreateModuleInfo K load path = Inr (Some mi)"
  shows "loadAddress mi = load" and "filePath mi = path" and "\<not> executing mi"
    and "GetTextSegmentOfModule mi = Some t \<Longrightarrow> address t = load"
    and "GetSegmentsOfModule (headerAndLoadCommandBytes mi) = Inr segs \<Longrightarrow>
      segments mi = map (slide_segment (find_slide load segs)) segs"
  using assms slid_text_at_load
  by (auto simp: CreateModuleInfo_def GetTextSegmentOfModule_def res_simps split: option.splits)

lemma CreateModuleInfo_image:
  assumes img: "wf_image h cs"
    and hd: "vm_read_overwrite K load 32 = Some (enc_header h)"
    and all: "vm_read_overwrite K load (32 + ucast (sizeofcmds h)) = Some (image_bytes h cs)"
    and mem: "malloc_ok K (32 + ucast (sizeofcmds h))"
  shows "CreateModuleInfo K load path = Inr (Some
    \<lparr>loadAddress = load,
     uuid = (case find is_uuid cs of None \<Rightarrow> replicate 16 0 | Some c \<Rightarrow> chunk 8 16 c),
     filePath = path,
     segments = (let segs = map seg_info_of (filter is_segment cs) in
       map (slide_segment (find_slide load segs)) segs),
     executing = False, headerAndLoadCommandBytes = image_bytes h cs\<rparr>)"
  using assms GetSegmentsOfModule_image [OF img, of "[]"] GetUUIDOfModule_image [OF img, of "[]"]
    header_fields(3) [of h "[]"]
  by (simp add: CreateModuleInfo_def ReadProcessMemoryInto_def ReadProcessMemory_def sizeofs
      MakeUniqueArray_def Let_def)

text \<open>A task whose memory cannot be read gives no entry, and nothing worse.\<close>

lemma CreateModuleInfo_unreadable:
  "vm_read_overwrite K load 32 = None \<Longrightarrow> CreateModuleInfo K load path = Inr None"
  by (simp add: CreateModuleInfo_def ReadProcessMemoryInto_def sizeofs)

subsection \<open>The list that is built\<close>

definition modules_ok :: "ModuleInfos \<Rightarrow> bool" where
  "modules_ok m \<longleftrightarrow> sorted_keys m \<and>
     (\<forall>(k, mi) \<in> set m. loadAddress mi = k \<and>
        (\<forall>t. GetTextSegmentOfModule mi = Some t \<longrightarrow> address t = k))"

lemma emplace_set: "p \<in> set (map_emplace k v m) \<Longrightarrow> p = (k, v) \<or> p \<in> set m"
  by (induction k v m rule: map_emplace.induct) (auto split: if_splits)

definition text_at_load :: "ModuleInfo \<Rightarrow> bool" where
  "text_at_load mi \<longleftrightarrow> (\<forall>t. GetTextSegmentOfModule mi = Some t \<longrightarrow> address t = loadAddress mi)"

lemma modules_ok_Nil [simp]: "modules_ok []"
  by (simp add: modules_ok_def)

lemma modules_ok_emplace:
  assumes "modules_ok m" and "text_at_load mi"
  shows "modules_ok (map_emplace (loadAddress mi) mi m)"
  unfolding modules_ok_def
proof (intro conjI ballI)
  show "sorted_keys (map_emplace (loadAddress mi) mi m)"
    using assms(1) by (simp add: modules_ok_def map_emplace_sorted)
  fix p assume "p \<in> set (map_emplace (loadAddress mi) mi m)"
  then show "case p of (k, mi) \<Rightarrow>
      loadAddress mi = k \<and> (\<forall>t. GetTextSegmentOfModule mi = Some t \<longrightarrow> address t = k)"
    using emplace_set [of p "loadAddress mi" mi m] assms
    by (auto simp: modules_ok_def text_at_load_def)
qed

lemma CreateModuleInfo_text:
  "CreateModuleInfo K load path = Inr (Some mi) \<Longrightarrow> text_at_load mi"
  using CreateModuleInfo_fields(1,4) unfolding text_at_load_def by blast

lemma CreateModuleInfoAt_text:
  "CreateModuleInfoAt K load path = Inr (Some mi) \<Longrightarrow> text_at_load mi"
  by (auto simp: CreateModuleInfoAt_def res_simps CreateModuleInfo_text split: option.splits)

lemma images_loop_Suc:
  assumes "images_loop K D infos i (Suc n) m = Inr m'"
  obtains (failed) "m' = []"
  | (added) mi where "text_at_load mi"
      and "images_loop K D infos (Suc i) n (map_emplace (loadAddress mi) mi m) = Inr m'"
proof -
  from assms obtain load path mi where mi: "CreateModuleInfoAt K load path = Inr mi"
    and rest: "(case mi of None \<Rightarrow> Inr (Invalidate m)
      | Some mi \<Rightarrow> images_loop K D infos (Suc i) n (map_emplace (loadAddress mi) mi m)) = Inr m'"
    unfolding images_loop.simps Let_def rbind_eq_Inr by blast
  show thesis
  proof (cases mi)
    case None
    with rest show thesis by (intro failed) (simp add: Invalidate_def)
  next
    case (Some x)
    with mi rest show thesis by (intro added [of x]) (simp_all add: CreateModuleInfoAt_text)
  qed
qed

lemma images_loop_ok:
  assumes "images_loop K D infos i n m = Inr m'" and "modules_ok m"
  shows "modules_ok m'"
  using assms
proof (induction n arbitrary: i m)
  case (Suc n)
  from Suc.prems(1) show ?case
  proof (cases rule: images_loop_Suc)
    case (added mi)
    with Suc.IH Suc.prems(2) modules_ok_emplace show ?thesis by blast
  qed simp
qed simp

lemma new_ModuleList_cases:
  assumes "new_ModuleList cfg K D = Inr m"
  obtains (invalid) "m = []"
  | (built) b infos info path dyld where
      "vm_read_overwrite K (the (task_dyld_info K)) (sizeof_all_image_infos D) = Some b"
      "info = dec_all_image_infos D b" "ndebug cfg \<or> version info \<ge> 9"
      "CreateModuleInfo K (dyldImageLoadAddress info) path = Inr (Some dyld)"
      "images_loop K D infos 0 (unat (infoArrayCount info))
         (map_emplace (loadAddress dyld) dyld []) = Inr m"
proof (cases "task_dyld_info K")
  case None
  with assms show thesis by (intro invalid) (simp add: new_ModuleList_def)
next
  case (Some a)
  show thesis
  proof (cases "vm_read_overwrite K a (sizeof_all_image_infos D)")
    case None
    with assms Some show thesis
      by (intro invalid) (simp add: new_ModuleList_def ReadProcessMemoryInto_def)
  next
    case b: (Some b)
    define info where "info = dec_all_image_infos D b"
    obtain infos where r: "ReadProcessMemory K (infoArray info)
          (ucast (infoArrayCount info) * sizeof_image_info D) = Inr infos"
      using assms Some b
      by (auto simp: new_ModuleList_def ReadProcessMemoryInto_def Let_def info_def rbind_eq_Inr)
    show thesis
    proof (cases infos)
      case None
      with assms Some b r show thesis
        by (intro invalid) (simp add: new_ModuleList_def ReadProcessMemoryInto_def Let_def info_def)
    next
      case i: (Some infos')
      from assms Some b r i obtain path dyld where "ndebug cfg \<or> version info \<ge> 9"
        and dyld: "CreateModuleInfo K (dyldImageLoadAddress info) path = Inr dyld"
        and rest: "(case dyld of None \<Rightarrow> Inr (Invalidate [])
          | Some x \<Rightarrow> images_loop K D infos' 0 (unat (infoArrayCount info))
              (map_emplace (loadAddress x) x [])) = Inr m"
        by (simp add: new_ModuleList_def ReadProcessMemoryInto_def Let_def info_def [symmetric]
            rbind_eq_Inr cpp_assert_eq_Inr del: map_emplace.simps) blast
      then show thesis
        using invalid built [OF _ info_def] Some b by (cases dyld) (auto simp: Invalidate_def)
    qed
  qed
qed

lemma new_ModuleList_ok:
  assumes "new_ModuleList cfg K D = Inr m"
  shows "modules_ok m"
  using assms
proof (rule new_ModuleList_cases)
  fix load path dyld infos n
  assume dyld: "CreateModuleInfo K load path = Inr (Some dyld)"
    and loop: "images_loop K D infos 0 n (map_emplace (loadAddress dyld) dyld []) = Inr m"
  have "modules_ok (map_emplace (loadAddress dyld) dyld [])"
    by (rule modules_ok_emplace [OF modules_ok_Nil CreateModuleInfo_text [OF dyld]])
  with loop show "modules_ok m" by (rule images_loop_ok)
qed simp

subsection \<open>Lookup and marking\<close>

text \<open>
  Two images of a task do not overlap: the text of one ends at or before the load address of
  the next.
\<close>

definition text_disjoint :: "ModuleInfos \<Rightarrow> bool" where
  "text_disjoint m \<longleftrightarrow>
     (\<forall>(k, mi) \<in> set m. \<forall>(k', mi') \<in> set m. k < k' \<longrightarrow>
        (case GetTextSegmentOfModule mi of None \<Rightarrow> True | Some t \<Rightarrow> k + seg_size t \<le> k'))"

lemma lookup_text:
  assumes "modules_ok m" and "text_disjoint m" and "(k, mi) \<in> set m"
    and "GetTextSegmentOfModule mi = Some t" and "k \<le> a" and "a < k + seg_size t"
  shows "GetModuleInfoForAddress m a = Some mi"
proof (rule modules.lookup_complete [of m k])
  show "sorted_keys m" using assms(1) by (simp add: modules_ok_def)
  show "(k, mi) \<in> set m" "k \<le> a" by (fact assms)+
  have "address t = k" using assms(1,3,4) by (auto simp: modules_ok_def)
  with assms(4,5,6) show "isCodeInModule a mi"
    by (simp add: isCodeInModule_def less_imp_le)
  have "k + seg_size t \<le> k'" if "(k', mi') \<in> set m" "k < k'" for k' mi'
    using assms(2,3,4) that unfolding text_disjoint_def by fastforce
  with assms(6) show "\<forall>(k', mi') \<in> set m. \<not> (k < k' \<and> k' \<le> a)"
    by (metis (no_types, lifting) case_prodI2 leD order_le_less_trans)
qed

lemma GetTextSegmentOfModule_executing [simp]:
  "GetTextSegmentOfModule (mi\<lparr>executing := b\<rparr>) = GetTextSegmentOfModule mi"
  by (simp add: GetTextSegmentOfModule_def)

lemma isCodeInModule_executing [simp]: "isCodeInModule a (mi\<lparr>executing := b\<rparr>) = isCodeInModule a mi"
  by (simp add: isCodeInModule_def)

lemma Impl_less: "GetModuleInfoForAddressImpl m a = Some i \<Longrightarrow> i < length m"
  using candidate_less [of m a]
  by (cases "m = []") (auto simp: Impl_candidate GetModuleInfoForAddressImpl_def [of "[]"] split: if_splits)

lemma Impl_mark:
  assumes "i < length m"
  shows "GetModuleInfoForAddressImpl (m[i := (fst (m ! i), (snd (m ! i))\<lparr>executing := b\<rparr>)]) a =
    GetModuleInfoForAddressImpl m a"
proof -
  let ?m = "m[i := (fst (m ! i), (snd (m ! i))\<lparr>executing := b\<rparr>)]"
  have "map fst ?m = map fst m"
    using assms by (simp add: map_update list_update_id [of "map fst m", symmetric]) (metis list_update_id nth_map)
  then have "candidate ?m a = candidate m a" by (simp only: candidate_by_keys)
  moreover have "isCodeInModule a (snd (?m ! j)) = isCodeInModule a (snd (m ! j))" for j
    using assms by (cases "j = i") simp_all
  ultimately show ?thesis
    using assms by (subst (1 2) Impl_candidate) auto
qed

subsection \<open>All images or none\<close>

definition image_at :: "dyld_abi \<Rightarrow> bytes \<Rightarrow> nat \<Rightarrow> image_info" where
  "image_at D infos i =
     dec_image_info D (chunk (i * unat (sizeof_image_info D)) (unat (sizeof_image_info D)) infos)"

lemma CreateModuleInfoAt_load:
  "CreateModuleInfoAt K load path = Inr (Some mi) \<Longrightarrow> loadAddress mi = load"
  by (auto simp: CreateModuleInfoAt_def res_simps CreateModuleInfo_fields(1) split: option.splits)

lemma images_loop_all_or_nothing:
  assumes "images_loop K D infos i n m = Inr m'"
  shows "m' = [] \<or> fst ` set m' = fst ` set m \<union> (\<lambda>j. imageLoadAddress (image_at D infos j)) ` {i..<i + n}"
  using assms
proof (induction n arbitrary: i m)
  case (Suc n)
  from Suc.prems obtain mi where
    mi: "CreateModuleInfoAt K (imageLoadAddress (image_at D infos i))
           (imageFilePath (image_at D infos i)) = Inr mi"
    and rest: "(case mi of None \<Rightarrow> Inr (Invalidate m)
      | Some mi \<Rightarrow> images_loop K D infos (Suc i) n (map_emplace (loadAddress mi) mi m)) = Inr m'"
    by (auto simp: Let_def rbind_eq_Inr read_at_eq_Inr image_at_def)
  show ?case
  proof (cases mi)
    case None
    with rest show ?thesis by (simp add: Invalidate_def)
  next
    case (Some x)
    with rest have "images_loop K D infos (Suc i) n (map_emplace (loadAddress x) x m) = Inr m'"
      by simp
    from Suc.IH [OF this] show ?thesis
    proof
      assume "fst ` set m' = fst ` set (map_emplace (loadAddress x) x m) \<union>
          (\<lambda>j. imageLoadAddress (image_at D infos j)) ` {Suc i..<Suc i + n}"
      moreover have "{i..<i + Suc n} = insert i {Suc i..<Suc i + n}" by auto
      moreover have "loadAddress x = imageLoadAddress (image_at D infos i)"
        using mi Some CreateModuleInfoAt_load by blast
      ultimately show ?thesis by (simp add: map_emplace_keys)
    qed simp
  qed
qed simp

subsection \<open>A concrete task\<close>

text \<open>
  A layout of the two structures of the dynamic linker, and a task of one region with two
  images, for the theorems that show the hypotheses can hold.
\<close>

definition demo_abi :: dyld_abi where
  "demo_abi =
     \<lparr>sizeof_all_image_infos = 32,
      dec_all_image_infos = (\<lambda>b. \<lparr>version = le_word (chunk 0 4 b), infoArrayCount = le_word (chunk 4 4 b),
        infoArray = le_word (chunk 8 8 b), dyldImageLoadAddress = le_word (chunk 16 8 b),
        dyldPath = le_word (chunk 24 8 b)\<rparr>),
      sizeof_image_info = 16,
      dec_image_info = (\<lambda>b. \<lparr>imageLoadAddress = le_word (chunk 0 8 b), imageFilePath = le_word (chunk 8 8 b)\<rparr>)\<rparr>"

definition demo_header :: "u32 \<Rightarrow> u32 \<Rightarrow> u32 \<Rightarrow> mach_header_64" where
  "demo_header ft n sz =
     \<lparr>magic = MH_MAGIC_64, cputype = CPU_TYPE_ARM64, cpusubtype = 0, filetype = ft, ncmds = n,
      sizeofcmds = sz, hdr_flags = 0, hdr_reserved = 0\<rparr>"

definition demo_text :: "u64 \<Rightarrow> u64 \<Rightarrow> bytes" where
  "demo_text va vs = enc_segment
     \<lparr>sc_cmd = LC_SEGMENT_64, sc_cmdsize = 72, sc_segname = strncpy 16 (cstr ''__TEXT''),
      sc_vmaddr = va, sc_vmsize = vs, sc_fileoff = 0, sc_filesize = 0, sc_maxprot = 5,
      sc_initprot = 5, sc_nsects = 0, sc_flags = 0\<rparr>"

definition demo_uuid :: bytes where
  "demo_uuid = le32 LC_UUID @ le32 24 @ replicate 16 7"

definition demo_dyld_bytes :: bytes where
  "demo_dyld_bytes =
     [207, 250, 237, 254, 12, 0, 0, 1, 0, 0, 0, 0, 7, 0, 0, 0, 1, 0, 0, 0, 72, 0, 0, 0, 0,
      0, 0, 0, 0, 0, 0, 0, 25, 0, 0, 0, 72, 0, 0, 0, 95, 95, 84, 69, 88, 84, 0, 0, 0,
      0, 0, 0, 0, 0, 0, 0, 0, 0, 0, 0, 0, 0, 0, 0, 96, 0, 0, 0, 0, 0, 0, 0, 0, 0, 0,
      0, 0, 0, 0, 0, 0, 0, 0, 0, 0, 0, 0, 0, 5, 0, 0, 0, 5, 0, 0, 0, 0, 0, 0, 0, 0, 0,
      0, 0]"

definition demo_image_bytes :: bytes where
  "demo_image_bytes =
     [207, 250, 237, 254, 12, 0, 0, 1, 0, 0, 0, 0, 2, 0, 0, 0, 2, 0, 0, 0, 96, 0, 0, 0, 0,
      0, 0, 0, 0, 0, 0, 0, 25, 0, 0, 0, 72, 0, 0, 0, 95, 95, 84, 69, 88, 84, 0, 0, 0,
      0, 0, 0, 0, 0, 0, 0, 0, 0, 0, 0, 1, 0, 0, 0, 128, 0, 0, 0, 0, 0, 0, 0, 0, 0, 0,
      0, 0, 0, 0, 0, 0, 0, 0, 0, 0, 0, 0, 0, 5, 0, 0, 0, 5, 0, 0, 0, 0, 0, 0, 0, 0, 0,
      0, 0, 27, 0, 0, 0, 24, 0, 0, 0, 7, 7, 7, 7, 7, 7, 7, 7, 7, 7, 7, 7, 7, 7, 7, 7]"

text \<open>The dynamic linker at 0x1000, its two structures, a path, and one image at 0x10A0.\<close>

definition demo_memory :: bytes where
  "demo_memory = demo_dyld_bytes @
     [15, 0, 0, 0, 1, 0, 0, 0, 136, 16, 0, 0, 0, 0, 0, 0, 0, 16, 0, 0, 0, 0, 0, 0, 152, 16,
      0, 0, 0, 0, 0, 0, 160, 16, 0, 0, 0, 0, 0, 0, 152, 16, 0, 0, 0, 0, 0, 0, 47, 97,
      0, 0, 0, 0, 0, 0] @
     demo_image_bytes"

definition demo_kernel :: "unit dyld_kernel_ext mem_kernel_ext" where
  "demo_kernel = mem_kernel.extend (flat_kernel 0x1000 demo_memory) \<lparr>task_dyld_info = Some 0x1068\<rparr>"

definition demo_config :: config where
  "demo_config = \<lparr>target = Arm64, ndebug = False, debug_checks = True\<rparr>"

definition demo_entry :: "u64 \<Rightarrow> u8 \<Rightarrow> u64 \<Rightarrow> bytes \<Rightarrow> ModuleInfo" where
  "demo_entry load b vs raw =
     \<lparr>loadAddress = load, uuid = replicate 16 b, filePath = [0x2F, 0x61],
      segments = [\<lparr>segmentName = strncpy 16 (cstr ''__TEXT''), address = load, seg_size = vs\<rparr>],
      executing = False, headerAndLoadCommandBytes = raw\<rparr>"

definition demo_modules :: ModuleInfos where
  "demo_modules =
     [(0x1000, demo_entry 0x1000 0 0x60 demo_dyld_bytes),
      (0x10A0, demo_entry 0x10A0 7 0x80 demo_image_bytes)]"

lemma demo_new_ModuleList: "new_ModuleList demo_config demo_kernel demo_abi = Inr demo_modules"
  by code_simp

lemma demo_image:
  "wf_image (demo_header MH_EXECUTE 2 96) [demo_text 0x100000000 0x80, demo_uuid]"
  "image_bytes (demo_header MH_EXECUTE 2 96) [demo_text 0x100000000 0x80, demo_uuid] = demo_image_bytes"
  by code_simp+

subsection \<open>Properties\<close>

text \<open>
  Where the segment of a load command belongs in memory, read off the bytes of the commands: as
  far from the load address as it is from \<open>__TEXT\<close> in the file, except for \<open>__PAGEZERO\<close>, which
  is not moved; and where the file puts it when there is no \<open>__TEXT\<close>.
\<close>

definition segment_named :: "string \<Rightarrow> bytes \<Rightarrow> bool" where
  "segment_named lit c \<longleftrightarrow> is_segment c \<and> chunk 8 (Suc (length lit)) c = cstr lit"

definition placed_segment :: "u64 \<Rightarrow> bytes list \<Rightarrow> bytes \<Rightarrow> SegmentInfo" where
  "placed_segment load cs c =
     (let vmaddr = (\<lambda>c. le_word (chunk 24 8 c)) in
      \<lparr>segmentName = strncpy 16 (chunk 8 16 c),
       address = (if segment_named ''__PAGEZERO'' c then vmaddr c
         else case find (segment_named ''__TEXT'') cs of
           None \<Rightarrow> vmaddr c
         | Some t \<Rightarrow> load + (vmaddr c - vmaddr t)),
       seg_size = le_word (chunk 32 8 c)\<rparr>)"

lemma segment_named_iff:
  assumes "load_command c" and "is_segment c" and "lit \<in> {''__TEXT'', ''__PAGEZERO''}"
  shows "name_is (segmentName (seg_info_of c)) lit \<longleftrightarrow> segment_named lit c"
proof -
  have "72 \<le> length c" using assms(1,2) by (simp add: load_command_def is_segment_def)
  then have "length (chunk 8 16 c) = 16" by simp
  moreover have "0 \<notin> set (map of_char lit :: bytes)" using assms(3) by auto
  moreover have "length lit < 16" using assms(3) by auto
  ultimately show ?thesis
    using name_is_strncpy [of lit 16 "chunk 8 16 c"] assms(2)
    by (simp add: seg_info_of_def segment_named_def chunk_def min_def)
qed

lemma find_slide_commands:
  assumes "\<forall>c \<in> set cs. load_command c"
  shows "find_slide load (map seg_info_of (filter is_segment cs)) =
    (case find (segment_named ''__TEXT'') cs of None \<Rightarrow> 0 | Some t \<Rightarrow> load - le_word (chunk 24 8 t))"
  using assms
proof (induction cs)
  case (Cons c cs)
  then show ?case
    using segment_named_iff [of c "''__TEXT''"] by (auto simp: seg_info_of_def segment_named_def)
qed simp

lemma segments_of_commands:
  assumes "\<forall>c \<in> set cs. load_command c"
  shows "(let segs = map seg_info_of (filter is_segment cs) in
      map (slide_segment (find_slide load segs)) segs) =
    map (placed_segment load cs) (filter is_segment cs)"
proof -
  have "slide_segment (case find (segment_named ''__TEXT'') cs of None \<Rightarrow> 0 | Some t \<Rightarrow> load - le_word (chunk 24 8 t))
      (seg_info_of c) = placed_segment load cs c" if "c \<in> set cs" "is_segment c" for c
    using segment_named_iff [of c "''__PAGEZERO''"] that assms
    by (auto simp: slide_segment_def placed_segment_def seg_info_of_def Let_def split: option.split)
  then show ?thesis by (simp add: find_slide_commands [OF assms])
qed

text \<open>C20. The entry made of an image whose header and load commands are well formed: the first UUID
  command (zeroes without one), the segments in the order of their commands, each as far from
  the load address as it is from \<open>__TEXT\<close> in the file and \<open>__PAGEZERO\<close> where the file has it, and
  the bytes themselves.\<close>

theorem module_entry_of_image:
  assumes "wf_image h cs"
    and "vm_read_overwrite K load 32 = Some (enc_header h)"
    and "vm_read_overwrite K load (32 + ucast (sizeofcmds h)) = Some (image_bytes h cs)"
    and "malloc_ok K (32 + ucast (sizeofcmds h))"
  shows "CreateModuleInfo K load path = Inr (Some
    \<lparr>loadAddress = load,
     uuid = (case find is_uuid cs of None \<Rightarrow> replicate 16 0 | Some c \<Rightarrow> chunk 8 16 c),
     filePath = path,
     segments = map (placed_segment load cs) (filter is_segment cs),
     executing = False, headerAndLoadCommandBytes = image_bytes h cs\<rparr>)"
proof -
  have "\<forall>c \<in> set cs. load_command c" using assms(1) by (simp add: wf_image_def)
  from segments_of_commands [OF this] CreateModuleInfo_image [OF assms] show ?thesis by simp
qed

text \<open>An executable with \<open>__PAGEZERO\<close> and a second segment behind \<open>__TEXT\<close>, loaded elsewhere.\<close>

definition demo_segment :: "string \<Rightarrow> u64 \<Rightarrow> u64 \<Rightarrow> bytes" where
  "demo_segment name va vs = enc_segment
     \<lparr>sc_cmd = LC_SEGMENT_64, sc_cmdsize = 72, sc_segname = strncpy 16 (cstr name),
      sc_vmaddr = va, sc_vmsize = vs, sc_fileoff = 0, sc_filesize = 0, sc_maxprot = 5,
      sc_initprot = 5, sc_nsects = 0, sc_flags = 0\<rparr>"

definition demo_commands :: "bytes list" where
  "demo_commands = [demo_segment ''__PAGEZERO'' 0 0x100000000, demo_segment ''__TEXT'' 0x100000000 0x80,
     demo_segment ''__DATA'' 0x100000080 0x40, demo_uuid]"

definition demo_slid_image :: bytes where
  "demo_slid_image = enc_header (demo_header MH_EXECUTE 4 240) @ concat demo_commands"

lemma module_entry_of_image_witness:
  "\<exists>mi. CreateModuleInfo (flat_kernel 0x7000 demo_slid_image) 0x7000 [0x2F, 0x61] = Inr (Some mi) \<and>
     uuid mi = replicate 16 7 \<and> map address (segments mi) = [0, 0x7000, 0x7080]"
proof -
  let ?h = "demo_header MH_EXECUTE 4 240" and ?K = "flat_kernel 0x7000 demo_slid_image"
  have "wf_image ?h demo_commands" and "vm_read_overwrite ?K 0x7000 32 = Some (enc_header ?h)"
    and "vm_read_overwrite ?K 0x7000 (32 + ucast (sizeofcmds ?h)) = Some (image_bytes ?h demo_commands)"
    and "malloc_ok ?K (32 + ucast (sizeofcmds ?h))" by code_simp+
  note entry = module_entry_of_image [OF this, of "[0x2F, 0x61]"]
  have "(case find is_uuid demo_commands of None \<Rightarrow> replicate 16 0 | Some c \<Rightarrow> chunk 8 16 c) = replicate 16 7"
    and "map address (map (placed_segment 0x7000 demo_commands) (filter is_segment demo_commands)) =
      [0, 0x7000, 0x7080]" by code_simp+
  with entry show ?thesis by simp
qed

text \<open>C21. In a list that the constructor returns every module is filed under its load address, which
  is where its \<open>__TEXT\<close> segment was slid to; and when the images do not overlap, the lookup of an
  address inside that segment gives the module.\<close>

theorem constructed_modules_found_by_code_address:
  assumes "new_ModuleList cfg K D = Inr m" and "text_disjoint m"
    and "(k, mi) \<in> set m" and "GetTextSegmentOfModule mi = Some t"
    and "k \<le> a" and "a < k + seg_size t"
  shows "loadAddress mi = k \<and> address t = k \<and> GetModuleInfoForAddress m a = Some mi"
proof -
  have ok: "modules_ok m" by (rule new_ModuleList_ok [OF assms(1)])
  have "loadAddress mi = k \<and> address t = k"
    using ok assms(3,4) by (auto simp: modules_ok_def)
  with lookup_text [OF ok assms(2-6)] show ?thesis by blast
qed

lemma constructed_modules_found_by_code_address_witness:
  "GetModuleInfoForAddress demo_modules 0x10FF = Some (demo_entry 0x10A0 7 0x80 demo_image_bytes)"
proof -
  let ?t = "\<lparr>segmentName = strncpy 16 (cstr ''__TEXT''), address = 0x10A0, seg_size = 0x80\<rparr>"
  have "text_disjoint demo_modules" by code_simp
  moreover have "(0x10A0, demo_entry 0x10A0 7 0x80 demo_image_bytes) \<in> set demo_modules"
    by (simp add: demo_modules_def)
  moreover have "GetTextSegmentOfModule (demo_entry 0x10A0 7 0x80 demo_image_bytes) = Some ?t"
    by code_simp
  ultimately show ?thesis
    using constructed_modules_found_by_code_address [OF demo_new_ModuleList, of "0x10A0" _ ?t "0x10FF"]
    by simp
qed

text \<open>C22. The constructor lists the dynamic linker and every image of the image array, or, when
  anything about them cannot be read, leaves the empty list, which is the invalid one.\<close>

theorem module_list_all_or_nothing:
  assumes "new_ModuleList cfg K D = Inr m" and "task_dyld_info K = Some a"
    and "vm_read_overwrite K a (sizeof_all_image_infos D) = Some b" and "info = dec_all_image_infos D b"
    and "vm_read_overwrite K (infoArray info) (ucast (infoArrayCount info) * sizeof_image_info D) = Some infos"
    and "IsValid m"
  shows "fst ` set m = insert (dyldImageLoadAddress info)
      ((\<lambda>j. imageLoadAddress (image_at D infos j)) ` {..<unat (infoArrayCount info)})"
proof -
  have start: "new_ModuleList cfg K D =
      rbind (ReadProcessMemory K (infoArray info) (ucast (infoArrayCount info) * sizeof_image_info D))
        (\<lambda>infosBytes. case infosBytes of None \<Rightarrow> Inr [] | Some infos \<Rightarrow>
          rbind (read_dyld_path K info) (\<lambda>path. rbind (cpp_assert cfg (version info \<ge> 9)) (\<lambda>_.
          rbind (CreateModuleInfo K (dyldImageLoadAddress info) path) (\<lambda>dyld. case dyld of
            None \<Rightarrow> Inr (Invalidate [])
          | Some x \<Rightarrow> images_loop K D infos 0 (unat (infoArrayCount info))
              (map_emplace (loadAddress x) x [])))))"
    unfolding new_ModuleList_def ReadProcessMemoryInto_def assms(2-4) Let_def option.case by (rule refl)
  have "ReadProcessMemory K (infoArray info) (ucast (infoArrayCount info) * sizeof_image_info D) = Inr (Some infos)"
    using assms(1) unfolding start rbind_eq_Inr
    by (auto simp: ReadProcessMemory_def ReadProcessMemoryInto_def rbind_eq_Inr assms(5))
  with assms(1) obtain path dyld where
    dyld: "CreateModuleInfo K (dyldImageLoadAddress info) path = Inr dyld"
    and rest: "(case dyld of None \<Rightarrow> Inr (Invalidate [])
      | Some x \<Rightarrow> images_loop K D infos 0 (unat (infoArrayCount info))
          (map_emplace (loadAddress x) x [])) = Inr m"
    unfolding start by (auto simp: rbind_eq_Inr simp del: map_emplace.simps)
  show ?thesis
  proof (cases dyld)
    case None
    with rest assms(6) show ?thesis by (simp add: Invalidate_def IsValid_def)
  next
    case (Some x)
    have "loadAddress x = dyldImageLoadAddress info"
      using dyld Some CreateModuleInfo_fields(1) by blast
    have "images_loop K D infos 0 (unat (infoArrayCount info))
        (map_emplace (loadAddress x) x []) = Inr m"
      using rest Some by simp
    note images_loop_all_or_nothing [OF this]
    moreover have "fst ` set (map_emplace (loadAddress x) x []) = {dyldImageLoadAddress info}"
      using \<open>loadAddress x = dyldImageLoadAddress info\<close> by simp
    ultimately show ?thesis using assms(6) by (simp add: IsValid_def lessThan_atLeast0)
  qed
qed

lemma module_list_all_or_nothing_witness:
  "fst ` set demo_modules =
     insert 0x1000 ((\<lambda>j. imageLoadAddress (image_at demo_abi (chunk 136 16 demo_memory) j)) ` {..<1})"
proof -
  let ?b = "chunk 104 32 demo_memory" and ?info = "\<lparr>version = 15, infoArrayCount = 1,
    infoArray = 0x1088, dyldImageLoadAddress = 0x1000, dyldPath = 0x1098\<rparr>"
  have "task_dyld_info demo_kernel = Some 0x1068"
    and "vm_read_overwrite demo_kernel 0x1068 (sizeof_all_image_infos demo_abi) = Some ?b"
    and "?info = dec_all_image_infos demo_abi ?b"
    and "vm_read_overwrite demo_kernel (infoArray ?info)
      (ucast (infoArrayCount ?info) * sizeof_image_info demo_abi) = Some (chunk 136 16 demo_memory)"
    by code_simp+
  moreover have "IsValid demo_modules" by code_simp
  ultimately have "fst ` set demo_modules = insert (dyldImageLoadAddress ?info)
      ((\<lambda>j. imageLoadAddress (image_at demo_abi (chunk 136 16 demo_memory) j)) `
        {..<unat (infoArrayCount ?info)})"
    by (rule module_list_all_or_nothing [OF demo_new_ModuleList])
  then show ?thesis by simp
qed

text \<open>Marking the module of a code address sets one flag: the call answers whether the address
  has a module, and afterwards every lookup finds what it found before, with that module, and
  no other, marked.\<close>

theorem MarkAsExecuting_marks_one:
  assumes "MarkAsExecuting a m = (found, m')"
  shows "(found \<longleftrightarrow> GetModuleInfoForAddress m a \<noteq> None) \<and>
    GetModuleInfoForAddress m' a' =
      (if found \<and> GetModuleInfoForAddressImpl m a' = GetModuleInfoForAddressImpl m a
       then map_option (\<lambda>mi. mi\<lparr>executing := True\<rparr>) (GetModuleInfoForAddress m a')
       else GetModuleInfoForAddress m a')"
proof (cases "GetModuleInfoForAddressImpl m a")
  case None
  with assms show ?thesis by (simp add: MarkAsExecuting_def GetModuleInfoForAddress_def)
next
  case (Some i)
  note i = Impl_less [OF Some]
  from assms Some have m': "m' = m[i := (fst (m ! i), (snd (m ! i))\<lparr>executing := True\<rparr>)]" "found"
    by (simp_all add: MarkAsExecuting_def)
  show ?thesis
    using Some i Impl_mark [OF i, of True a'] m'
    by (cases "GetModuleInfoForAddressImpl m a'") (auto simp: GetModuleInfoForAddress_def)
qed

lemma MarkAsExecuting_marks_one_witness:
  "map_option executing (GetModuleInfoForAddress (snd (MarkAsExecuting 0x10FF demo_modules)) 0x10B0) = Some True \<and>
   map_option executing (GetModuleInfoForAddress (snd (MarkAsExecuting 0x10FF demo_modules)) 0x1010) = Some False"
proof -
  have e: "MarkAsExecuting 0x10FF demo_modules = (True, snd (MarkAsExecuting 0x10FF demo_modules))"
    by code_simp
  have "GetModuleInfoForAddressImpl demo_modules 0x10FF = Some 1"
    "GetModuleInfoForAddressImpl demo_modules 0x10B0 = Some 1"
    "GetModuleInfoForAddressImpl demo_modules 0x1010 = Some 0"
    "map_option executing (GetModuleInfoForAddress demo_modules 0x1010) = Some False"
    "GetModuleInfoForAddress demo_modules 0x10B0 = Some (demo_entry 0x10A0 7 0x80 demo_image_bytes)"
    by code_simp+
  with MarkAsExecuting_marks_one [OF e, of "0x10B0"] MarkAsExecuting_marks_one [OF e, of "0x1010"]
  show ?thesis by simp
qed

end
