(* ===== verification/StackFrame.thy ===== *)
theory StackFrame
  imports ModuleList
begin

text \<open>
  \<open>StackFrame.cpp\<close>: whether the function at a code address has a stack frame, from the
  compact unwind information of its module. The structures and macros of
  \<open>mach-o/compact_unwind_encoding.h\<close> and \<open>section_64\<close> of \<open>mach-o/loader.h\<close> are not in the
  repository; they are the fields of \<open>unwind_abi\<close>.
\<close>

datatype StackFrameLookupResult = HasFrame | Frameless | Unknown

subsection \<open>The unwind structures\<close>

record section_64 =
  sectname :: bytes \<comment> \<open>\<open>char[16]\<close>\<close>
  section_addr :: u64

record unwind_header =
  commonEncodingsArraySectionOffset :: u32
  commonEncodingsArrayCount :: u32
  indexSectionOffset :: u32
  indexCount :: u32

record index_entry =
  functionOffset :: u32
  secondLevelPagesSectionOffset :: u32

record regular_entry =
  regular_functionOffset :: u32
  regular_encoding :: u32

record compressed_header =
  compressed_entryCount :: u16
  encodingsPageOffset :: u16

record unwind_abi =
  sizeof_section_64 :: nat
  dec_section_64 :: "bytes \<Rightarrow> section_64"
  sizeof_unwind_header :: u64
  dec_unwind_header :: "bytes \<Rightarrow> unwind_header"
  sizeof_index_entry :: u64
  dec_index_entry :: "bytes \<Rightarrow> index_entry"
  SECOND_LEVEL_REGULAR :: u32
  SECOND_LEVEL_COMPRESSED :: u32
  sizeof_regular_header :: u64
  dec_regular_entryCount :: "bytes \<Rightarrow> u16"
  sizeof_regular_entry :: u64
  dec_regular_entry :: "bytes \<Rightarrow> regular_entry"
  sizeof_compressed_header :: u64
  dec_compressed_header :: "bytes \<Rightarrow> compressed_header"
  ENTRY_FUNC_OFFSET :: "u32 \<Rightarrow> u32"
  ENTRY_ENCODING_INDEX :: "u32 \<Rightarrow> u32"
  ARM64_MODE_MASK :: u32
  ARM64_MODE_FRAME :: u32
  ARM64_MODE_FRAMELESS :: u32

subsection \<open>Finding the unwind section\<close>

record scan_state =
  unwindInfoAddr :: u64
  textVmAddr :: u64
  foundText :: bool

text \<open>The loop over the sections behind a segment command at \<open>p\<close>, then over the commands.\<close>

fun sections_loop :: "unwind_abi \<Rightarrow> bytes \<Rightarrow> nat \<Rightarrow> nat \<Rightarrow> nat \<Rightarrow> scan_state \<Rightarrow> scan_state res" where
  "sections_loop U buf sect j 0 st = Inr st"
| "sections_loop U buf sect j (Suc n) st =
     rbind (read_at buf (sect + j * sizeof_section_64 U) (sizeof_section_64 U)) (\<lambda>b.
     let s = dec_section_64 U b;
         st = (if name_is_n 16 (sectname s) ''__unwind_info'' then st\<lparr>unwindInfoAddr := section_addr s\<rparr> else st)
     in sections_loop U buf sect (Suc j) n st)"

definition scan_segment :: "unwind_abi \<Rightarrow> bytes \<Rightarrow> nat \<Rightarrow> scan_state \<Rightarrow> scan_state res" where
  "scan_segment U buf p st =
     rbind (read_at buf (p + 8) 16) (\<lambda>segname.
     rbind (rd64 buf (p + 24)) (\<lambda>va.
     rbind (rd32 buf (p + 64)) (\<lambda>nsects.
     let st = (if name_is_n 16 segname ''__TEXT'' then st\<lparr>textVmAddr := va, foundText := True\<rparr> else st)
     in sections_loop U buf (p + sizeof_segment_command_64) 0 (unat nsects) st)))"

fun scan_loop :: "unwind_abi \<Rightarrow> nat \<Rightarrow> bytes \<Rightarrow> nat \<Rightarrow> scan_state \<Rightarrow> scan_state res" where
  "scan_loop U 0 buf p st = Inr st"
| "scan_loop U (Suc n) buf p st =
     rbind (rd32 buf p) (\<lambda>cmd.
     rbind (if cmd = LC_SEGMENT_64 then scan_segment U buf p st else Inr st) (\<lambda>st.
     rbind (rd32 buf (p + 4)) (\<lambda>cmdsize.
       scan_loop U n buf (p + unat cmdsize) st)))"

subsection \<open>The binary search\<close>

text \<open>The middle of a range is inside it, without overflow.\<close>

lemma bisect_mid:
  fixes low high :: u32
  assumes "low < high"
  shows "unat (low + (high - low) div 2) = unat low + (unat high - unat low) div 2"
    and "unat (low + (high - low) div 2 + 1) = unat low + (unat high - unat low) div 2 + 1"
proof -
  have lt: "unat low < unat high" using assms by (simp add: word_less_nat_alt)
  have sub: "unat (high - low) = unat high - unat low"
    using assms by (simp add: unat_sub less_imp_le)
  have high: "unat high < 2 ^ 32" using unsigned_less [where 'a = nat, of high] by simp
  have half: "unat ((high - low) div 2) = (unat high - unat low) div 2"
    by (simp add: unat_div sub)
  have mid: "unat low + (unat high - unat low) div 2 < unat high" using lt by linarith
  show first: "unat (low + (high - low) div 2) = unat low + (unat high - unat low) div 2"
    using mid high by (simp only: unat_word_ariths(1) half) simp
  show "unat (low + (high - low) div 2 + 1) = unat low + (unat high - unat low) div 2 + 1"
    using mid high by (simp only: unat_word_ariths(1) [of _ 1] first) simp
qed

text \<open>
  The three searches differ in how the key of entry \<open>mid\<close> is read; a read that fails
  (\<open>None\<close>) ends the lookup.
\<close>

function bisect :: "(u32 \<Rightarrow> u32 option) \<Rightarrow> u32 \<Rightarrow> u32 \<Rightarrow> u32 \<Rightarrow> u32 option" where
  "bisect key x low high =
     (if low < high then
        let mid = low + (high - low) div 2 in
        case key mid of
          None \<Rightarrow> None
        | Some k \<Rightarrow> if k \<le> x then bisect key x (mid + 1) high else bisect key x low mid
      else Some low)"
  by pat_completeness auto

termination
proof (relation "measure (\<lambda>(key, x, low, high). unat high - unat low)", goal_cases)
  case (2 key x low high mid k)
  have "unat low < unat high" using 2(1) by (simp add: word_less_nat_alt)
  then show ?case using bisect_mid(2) [OF 2(1)] 2(2) by simp
next
  case (3 key x low high mid k)
  have "unat low < unat high" using 3(1) by (simp add: word_less_nat_alt)
  then show ?case using bisect_mid(1) [OF 3(1)] 3(2) by simp
qed simp

declare bisect.simps [simp del]

text \<open>The entry before the position that the search ends at, read once more.\<close>

definition last_before :: "(u32 \<Rightarrow> 'e option) \<Rightarrow> ('e \<Rightarrow> u32) \<Rightarrow> u32 \<Rightarrow> u32 \<Rightarrow> 'e option" where
  "last_before entry key_of x n =
     (case bisect (\<lambda>i. map_option key_of (entry i)) x 0 n of
        None \<Rightarrow> None
      | Some low \<Rightarrow> if low = 0 then None else entry (low - 1))"

subsection \<open>The lookup\<close>

definition read_struct :: "'z mem_kernel_scheme \<Rightarrow> u64 \<Rightarrow> u64 \<Rightarrow> (bytes \<Rightarrow> 'a) \<Rightarrow> 'a option" where
  "read_struct K a n dec = map_option dec (ReadProcessMemoryInto K a n)"

definition regular_page :: "'z mem_kernel_scheme \<Rightarrow> unwind_abi \<Rightarrow> u64 \<Rightarrow> u32 \<Rightarrow> u32 option" where
  "regular_page K U secondLevelAddr pcOffset =
     (case read_struct K secondLevelAddr (sizeof_regular_header U) (dec_regular_entryCount U) of
        None \<Rightarrow> None
      | Some entryCount \<Rightarrow>
          let entriesAddr = secondLevelAddr + sizeof_regular_header U;
              entry = (\<lambda>i. read_struct K (entriesAddr + ucast i * sizeof_regular_entry U)
                         (sizeof_regular_entry U) (dec_regular_entry U))
          in map_option regular_encoding
               (last_before entry regular_functionOffset pcOffset (ucast entryCount)))"

definition compressed_encoding ::
  "'z mem_kernel_scheme \<Rightarrow> unwind_abi \<Rightarrow> u64 \<Rightarrow> unwind_header \<Rightarrow> u64 \<Rightarrow> compressed_header \<Rightarrow> u32 \<Rightarrow> u32 option"
where
  "compressed_encoding K U unwindInfoLoadAddr h secondLevelAddr pageHeader pEntryVal =
     (let encodingIndex = ucast (ENTRY_ENCODING_INDEX U pEntryVal) :: u16 in
      if ucast encodingIndex < commonEncodingsArrayCount h then
        read_u32 K (unwindInfoLoadAddr + ucast (commonEncodingsArraySectionOffset h) + ucast encodingIndex * 4)
      else
        let pageEncodingIndex = ucast (ucast encodingIndex - commonEncodingsArrayCount h) :: u16 in
        read_u32 K (secondLevelAddr + ucast (encodingsPageOffset pageHeader) + ucast pageEncodingIndex * 4))"

definition compressed_page ::
  "'z mem_kernel_scheme \<Rightarrow> unwind_abi \<Rightarrow> u64 \<Rightarrow> unwind_header \<Rightarrow> u64 \<Rightarrow> u32 \<Rightarrow> u32 \<Rightarrow> u32 option"
where
  "compressed_page K U unwindInfoLoadAddr h secondLevelAddr baseFunctionOffset pcOffset =
     (case read_struct K secondLevelAddr (sizeof_compressed_header U) (dec_compressed_header U) of
        None \<Rightarrow> None
      | Some pageHeader \<Rightarrow>
          let entriesAddr = secondLevelAddr + sizeof_compressed_header U;
              entry = (\<lambda>i. read_u32 K (entriesAddr + ucast i * 4))
          in case last_before entry (ENTRY_FUNC_OFFSET U) (pcOffset - baseFunctionOffset)
                    (ucast (compressed_entryCount pageHeader)) of
               None \<Rightarrow> None
             | Some pEntryVal \<Rightarrow>
                 compressed_encoding K U unwindInfoLoadAddr h secondLevelAddr pageHeader pEntryVal)"

definition find_encoding ::
  "'z mem_kernel_scheme \<Rightarrow> unwind_abi \<Rightarrow> u64 \<Rightarrow> u32 \<Rightarrow> u32 option" where
  "find_encoding K U unwindInfoLoadAddr pcOffset =
     (case read_struct K unwindInfoLoadAddr (sizeof_unwind_header U) (dec_unwind_header U) of
        None \<Rightarrow> None
      | Some h \<Rightarrow>
          let indexSectionAddr = unwindInfoLoadAddr + ucast (indexSectionOffset h);
              entry = (\<lambda>i. read_struct K (indexSectionAddr + ucast i * sizeof_index_entry U)
                         (sizeof_index_entry U) (dec_index_entry U))
          in case last_before entry functionOffset pcOffset (indexCount h) of
               None \<Rightarrow> None
             | Some e \<Rightarrow>
                 if secondLevelPagesSectionOffset e = 0 then None
                 else
                   let secondLevelAddr = unwindInfoLoadAddr + ucast (secondLevelPagesSectionOffset e) in
                   case read_u32 K secondLevelAddr of
                     None \<Rightarrow> None
                   | Some kind \<Rightarrow>
                       if kind = SECOND_LEVEL_REGULAR U then regular_page K U secondLevelAddr pcOffset
                       else if kind = SECOND_LEVEL_COMPRESSED U then
                         compressed_page K U unwindInfoLoadAddr h secondLevelAddr (functionOffset e) pcOffset
                       else None)"

definition classify :: "unwind_abi \<Rightarrow> u32 \<Rightarrow> StackFrameLookupResult" where
  "classify U encoding =
     (let mode = encoding AND ARM64_MODE_MASK U in
      if mode = ARM64_MODE_FRAME U then HasFrame
      else if mode = ARM64_MODE_FRAMELESS U then Frameless
      else Unknown)"

definition LookupStackFrameForPCImplArm64 ::
  "'z mem_kernel_scheme \<Rightarrow> unwind_abi \<Rightarrow> ModuleInfos \<Rightarrow> u64 \<Rightarrow> StackFrameLookupResult res" where
  "LookupStackFrameForPCImplArm64 K U moduleList pc =
     (case GetModuleInfoForAddress moduleList pc of
        None \<Rightarrow> Inr Unknown
      | Some mi \<Rightarrow>
          let header = headerAndLoadCommandBytes mi in
          rbind (rd32 header 16) (\<lambda>n.
          rbind (scan_loop U (unat n) header sizeof_mach_header_64
                  \<lparr>unwindInfoAddr = 0, textVmAddr = 0, foundText = False\<rparr>) (\<lambda>st.
            if unwindInfoAddr st = 0 \<or> \<not> foundText st then Inr Unknown
            else
              let slide = loadAddress mi - textVmAddr st;
                  unwindInfoLoadAddr = unwindInfoAddr st + slide;
                  pcOffset = ucast (pc - loadAddress mi)
              in Inr (case find_encoding K U unwindInfoLoadAddr pcOffset of
                   None \<Rightarrow> Unknown
                 | Some encoding \<Rightarrow> classify U encoding))))"

definition LookupStackFrameForPCImplIntel :: "ModuleInfos \<Rightarrow> u64 \<Rightarrow> StackFrameLookupResult res" where
  "LookupStackFrameForPCImplIntel moduleList pc = Inr Unknown"

definition LookupStackFrameForPC ::
  "config \<Rightarrow> 'z mem_kernel_scheme \<Rightarrow> unwind_abi \<Rightarrow> ModuleInfos \<Rightarrow> u64 \<Rightarrow> StackFrameLookupResult res" where
  "LookupStackFrameForPC cfg K U moduleList pc =
     (case target cfg of
        X86_64 \<Rightarrow> LookupStackFrameForPCImplIntel moduleList pc
      | Arm64 \<Rightarrow> LookupStackFrameForPCImplArm64 K U moduleList pc)"

subsection \<open>What the search finds\<close>

text \<open>
  Over entries that can be read and whose keys do not decrease, the search ends at the number
  of entries whose key is at most \<open>x\<close>.
\<close>

definition sorted_table :: "(u32 \<Rightarrow> u32 option) \<Rightarrow> u32 \<Rightarrow> (u32 \<Rightarrow> u32) \<Rightarrow> bool" where
  "sorted_table key n f \<longleftrightarrow> (\<forall>i < n. key i = Some (f i)) \<and> (\<forall>i j. i \<le> j \<longrightarrow> j < n \<longrightarrow> f i \<le> f j)"

lemma bisect_correct:
  assumes "sorted_table key n f" and "low \<le> high" and "high \<le> n"
    and "\<forall>i < low. f i \<le> x" and "\<forall>i. high \<le> i \<longrightarrow> i < n \<longrightarrow> x < f i"
  shows "\<exists>r \<le> n. bisect key x low high = Some r \<and> (\<forall>i < r. f i \<le> x) \<and> (\<forall>i. r \<le> i \<longrightarrow> i < n \<longrightarrow> x < f i)"
  using assms
proof (induction key x low high rule: bisect.induct)
  case (1 key x low high)
  show ?case
  proof (cases "low < high")
    case False
    then have "low = high" using "1.prems"(2) by simp
    then show ?thesis using "1.prems" by (auto simp: bisect.simps [of key x high high])
  next
    case True
    define mid where "mid = low + (high - low) div 2"
    have lt: "unat low < unat high" using True by (simp add: word_less_nat_alt)
    have mid: "mid < high" "mid + 1 \<le> high" "low \<le> mid" "low \<le> mid + 1"
      using bisect_mid [OF True, folded mid_def] lt
      by (simp_all add: word_less_nat_alt word_le_nat_alt)
    have below: "i \<le> mid" if "i < mid + 1" for i
      using bisect_mid [OF True, folded mid_def] that
      by (simp add: word_less_nat_alt word_le_nat_alt)
    have mid_n: "mid < n" using mid(1) "1.prems"(3) by (rule less_le_trans)
    then have read: "key mid = Some (f mid)" using "1.prems"(1) by (simp add: sorted_table_def)
    have step: "bisect key x low high
        = (if f mid \<le> x then bisect key x (mid + 1) high else bisect key x low mid)"
      using True read by (simp add: bisect.simps [of key x low high] mid_def Let_def)
    show ?thesis
    proof (cases "f mid \<le> x")
      case True
      have "\<forall>i < mid + 1. f i \<le> x"
        using True "1.prems"(1) mid_n below unfolding sorted_table_def by (meson order_trans)
      then show ?thesis
        using "1.IH"(1) [OF \<open>low < high\<close> mid_def read True "1.prems"(1) mid(2) "1.prems"(3)]
          "1.prems"(5) step True by simp
    next
      case False
      have "\<forall>i. mid \<le> i \<longrightarrow> i < n \<longrightarrow> x < f i"
        using False "1.prems"(1) unfolding sorted_table_def by (meson leI order_trans)
      then show ?thesis
        using "1.IH"(2) [OF \<open>low < high\<close> mid_def read False "1.prems"(1) mid(3) less_imp_le [OF mid_n]]
          "1.prems"(4) step False by simp
    qed
  qed
qed

lemma bisect_whole:
  assumes "sorted_table key n f"
  obtains r where "r \<le> n" and "bisect key x 0 n = Some r" and "\<And>i. i < r \<Longrightarrow> f i \<le> x"
    and "\<And>i. r \<le> i \<Longrightarrow> i < n \<Longrightarrow> x < f i"
proof -
  have "\<forall>i < (0 :: u32). f i \<le> x" and "\<forall>i. n \<le> i \<longrightarrow> i < n \<longrightarrow> x < f i"
    by (auto dest: leD)
  then obtain r where "r \<le> n \<and> bisect key x 0 n = Some r \<and> (\<forall>i < r. f i \<le> x)
      \<and> (\<forall>i. r \<le> i \<longrightarrow> i < n \<longrightarrow> x < f i)"
    using bisect_correct [OF assms, of 0 n x] by fastforce
  then show ?thesis using that by blast
qed

text \<open>So the entry before it is the last one whose key is at most \<open>x\<close>.\<close>

lemma last_before_correct:
  assumes "sorted_table (\<lambda>i. map_option key_of (entry i)) n f"
    and "i < n" and "f i \<le> x" and "\<forall>j. i < j \<longrightarrow> j < n \<longrightarrow> x < f j"
  shows "last_before entry key_of x n = entry i"
proof -
  obtain r where r: "r \<le> n" "bisect (\<lambda>i. map_option key_of (entry i)) x 0 n = Some r"
      "\<And>i. i < r \<Longrightarrow> f i \<le> x" "\<And>i. r \<le> i \<Longrightarrow> i < n \<Longrightarrow> x < f i"
    using bisect_whole [OF assms(1)] by blast
  have "i < r" using r(4) [of i] assms(2,3) by (meson leD leI)
  then have r0: "r \<noteq> 0" by auto
  then have minus: "unat (r - 1) = unat r - 1" by (rule unat_minus_one)
  have below: "r - 1 < r" using \<open>i < r\<close> by (simp add: word_less_nat_alt minus)
  have "\<not> i < r - 1"
    using assms(4) r(3) [OF below] less_le_trans [OF below r(1)] by (meson leD)
  then have "unat i = unat (r - 1)" using \<open>i < r\<close> by (simp add: word_less_nat_alt minus)
  then have "i = r - 1" by (simp only: word_unat_eq_iff)
  then show ?thesis using r0 by (simp add: last_before_def r(2))
qed

lemma last_before_none:
  assumes "sorted_table (\<lambda>i. map_option key_of (entry i)) n f" and "\<forall>i < n. x < f i"
  shows "last_before entry key_of x n = None"
proof -
  obtain r where r: "r \<le> n" "bisect (\<lambda>i. map_option key_of (entry i)) x 0 n = Some r"
      "\<And>i. i < r \<Longrightarrow> f i \<le> x"
    using bisect_whole [OF assms(1)] by blast
  have "r = 0"
  proof (rule ccontr)
    assume "r \<noteq> 0"
    then have "0 < r" by (simp add: word_gt_0)
    then have "f 0 \<le> x" and "x < f 0" using r(1,3) assms(2) by (auto intro: less_le_trans)
    then show False by (simp add: not_less [symmetric])
  qed
  then show ?thesis by (simp add: last_before_def r(2))
qed

subsection \<open>A reference for the lookup\<close>

text \<open>
  The unwind information as a table: the index with one page per entry, and the encodings
  the pages share. The reference lookup takes, at both levels, the last entry at or before
  the offset, by a scan.
\<close>

datatype page =
    Regular "regular_entry list"
  | Compressed compressed_header "u32 list" "u32 list" \<comment> \<open>entries, encodings of the page\<close>
  | OtherPage u32
  | NoPage

record unwind_table =
  unwind_hdr :: unwind_header
  commons :: "u32 list"
  index :: "(index_entry \<times> page) list"

definition last_le :: "('e \<Rightarrow> u32) \<Rightarrow> u32 \<Rightarrow> 'e list \<Rightarrow> 'e option" where
  "last_le key_of x es = (case filter (\<lambda>e. key_of e \<le> x) es of [] \<Rightarrow> None | qs \<Rightarrow> Some (last qs))"

definition page_encoding :: "unwind_abi \<Rightarrow> u32 list \<Rightarrow> u32 \<Rightarrow> u32 \<Rightarrow> page \<Rightarrow> u32 option" where
  "page_encoding U shared base off pg =
     (case pg of
        Regular es \<Rightarrow> map_option regular_encoding (last_le regular_functionOffset off es)
      | Compressed _ es own \<Rightarrow>
          map_option (\<lambda>e. (shared @ own) ! unat (ENTRY_ENCODING_INDEX U e))
            (last_le (ENTRY_FUNC_OFFSET U) (off - base) es)
      | _ \<Rightarrow> None)"

definition table_encoding :: "unwind_abi \<Rightarrow> unwind_table \<Rightarrow> u32 \<Rightarrow> u32 option" where
  "table_encoding U T off =
     (case last_le (functionOffset \<circ> fst) off (index T) of
        None \<Rightarrow> None
      | Some (e, pg) \<Rightarrow> page_encoding U (commons T) (functionOffset e) off pg)"

text \<open>The memory of the task holds a table at an address.\<close>

definition table_at :: "(u32 \<Rightarrow> 'e option) \<Rightarrow> 'e list \<Rightarrow> bool" where
  "table_at entry es \<longleftrightarrow> map (\<lambda>i. entry (of_nat i)) [0..<length es] = map Some es"

definition u32s_at :: "'z mem_kernel_scheme \<Rightarrow> u64 \<Rightarrow> u32 list \<Rightarrow> bool" where
  "u32s_at K a ws \<longleftrightarrow> map (\<lambda>i. read_u32 K (a + of_nat i * 4)) [0..<length ws] = map Some ws"

definition page_at ::
  "'z mem_kernel_scheme \<Rightarrow> unwind_abi \<Rightarrow> u64 \<Rightarrow> nat \<Rightarrow> index_entry \<Rightarrow> page \<Rightarrow> bool" where
  "page_at K U A shared e pg =
     (let P = A + ucast (secondLevelPagesSectionOffset e) in
      (secondLevelPagesSectionOffset e = 0) = (pg = NoPage) \<and>
      (case pg of
         Regular es \<Rightarrow>
           read_u32 K P = Some (SECOND_LEVEL_REGULAR U) \<and>
           read_struct K P (sizeof_regular_header U) (dec_regular_entryCount U) = Some (of_nat (length es)) \<and>
           int (length es) < 65536 \<and> sorted (map regular_functionOffset es) \<and>
           table_at (\<lambda>i. read_struct K (P + sizeof_regular_header U + ucast i * sizeof_regular_entry U)
             (sizeof_regular_entry U) (dec_regular_entry U)) es
       | Compressed ph es own \<Rightarrow>
           SECOND_LEVEL_COMPRESSED U \<noteq> SECOND_LEVEL_REGULAR U \<and>
           read_u32 K P = Some (SECOND_LEVEL_COMPRESSED U) \<and>
           read_struct K P (sizeof_compressed_header U) (dec_compressed_header U) = Some ph \<and>
           compressed_entryCount ph = of_nat (length es) \<and>
           int (length es) < 65536 \<and> sorted (map (ENTRY_FUNC_OFFSET U) es) \<and>
           table_at (\<lambda>i. read_u32 K (P + sizeof_compressed_header U + ucast i * 4)) es \<and>
           u32s_at K (P + ucast (encodingsPageOffset ph)) own \<and>
           list_all (\<lambda>e. unat (ENTRY_ENCODING_INDEX U e) < shared + length own) es \<and>
           int (shared + length own) < 65536
       | OtherPage k \<Rightarrow>
           read_u32 K P = Some k \<and> k \<noteq> SECOND_LEVEL_REGULAR U \<and> k \<noteq> SECOND_LEVEL_COMPRESSED U
       | NoPage \<Rightarrow> True))"

definition holds_table :: "'z mem_kernel_scheme \<Rightarrow> unwind_abi \<Rightarrow> u64 \<Rightarrow> unwind_table \<Rightarrow> bool" where
  "holds_table K U A T =
     (let h = unwind_hdr T in
      read_struct K A (sizeof_unwind_header U) (dec_unwind_header U) = Some h \<and>
      unat (commonEncodingsArrayCount h) = length (commons T) \<and>
      u32s_at K (A + ucast (commonEncodingsArraySectionOffset h)) (commons T) \<and>
      unat (indexCount h) = length (index T) \<and>
      sorted (map (functionOffset \<circ> fst) (index T)) \<and>
      table_at (\<lambda>i. read_struct K (A + ucast (indexSectionOffset h) + ucast i * sizeof_index_entry U)
        (sizeof_index_entry U) (dec_index_entry U)) (map fst (index T)) \<and>
      list_all (\<lambda>(e, pg). page_at K U A (length (commons T)) e pg) (index T))"

subsection \<open>The search is the scan\<close>

lemma last_le_none: "\<forall>e \<in> set es. x < key_of e \<Longrightarrow> last_le key_of x es = None"
proof -
  assume "\<forall>e \<in> set es. x < key_of e"
  then have "filter (\<lambda>e. key_of e \<le> x) es = []" by (auto simp: filter_empty_conv)
  then show ?thesis by (simp add: last_le_def)
qed

lemma last_le_some:
  assumes "es = us @ e # vs" and "key_of e \<le> x" and "\<forall>v \<in> set vs. x < key_of v"
  shows "last_le key_of x es = Some e"
proof -
  have "filter (\<lambda>e. key_of e \<le> x) vs = []" using assms(3) by (auto simp: filter_empty_conv)
  then have "filter (\<lambda>e. key_of e \<le> x) es = filter (\<lambda>e. key_of e \<le> x) us @ [e]"
    using assms(1,2) by simp
  then show ?thesis by (cases "filter (\<lambda>e. key_of e \<le> x) us") (simp_all add: last_le_def)
qed

lemma last_le_cases:
  fixes key_of :: "'e \<Rightarrow> u32"
  obtains (none) "\<forall>e \<in> set es. x < key_of e"
  | (some) us e vs where "es = us @ e # vs" "key_of e \<le> x" "\<forall>v \<in> set vs. x < key_of v"
proof (cases "\<exists>e \<in> set es. key_of e \<le> x")
  case True
  then obtain us e vs where "es = us @ e # vs" "key_of e \<le> x" "\<forall>v \<in> set vs. \<not> key_of v \<le> x"
    by (rule split_list_last_propE)
  then show ?thesis by (intro some) (auto simp: not_le)
next
  case False
  then show ?thesis by (intro none) (auto simp: not_le)
qed

lemma last_le_member: "last_le key_of x es = Some e \<Longrightarrow> e \<in> set es"
proof -
  assume "last_le key_of x es = Some e"
  then have "e = last (filter (\<lambda>e. key_of e \<le> x) es)" "filter (\<lambda>e. key_of e \<le> x) es \<noteq> []"
    by (auto simp: last_le_def split: list.splits)
  then show ?thesis using last_in_set [of "filter (\<lambda>e. key_of e \<le> x) es"] by simp
qed

lemma table_at_nth: "table_at entry es \<Longrightarrow> i < length es \<Longrightarrow> entry (of_nat i) = Some (es ! i)"
  unfolding table_at_def by (drule arg_cong [of _ _ "\<lambda>l. l ! i"]) simp

lemma table_at_unat: "table_at entry es \<Longrightarrow> unat i < length es \<Longrightarrow> entry i = Some (es ! unat i)"
  using table_at_nth [of entry es "unat i"] by simp

lemma table_sorted:
  assumes "table_at entry es" and "sorted (map key_of es)" and "unat n = length es"
  shows "sorted_table (\<lambda>i. map_option key_of (entry i)) n (\<lambda>i. key_of (es ! unat i))"
  using assms table_at_unat [OF assms(1)]
  by (auto simp: sorted_table_def word_less_nat_alt word_le_nat_alt sorted_iff_nth_mono)

text \<open>The optimised search is the scan.\<close>

lemma last_before_is_last_le:
  assumes "table_at entry es" and "sorted (map key_of es)" and n: "unat n = length es"
  shows "last_before entry key_of x n = last_le key_of x es"
proof (cases rule: last_le_cases [where es = es and key_of = key_of and x = x])
  case none
  then have "\<forall>i < n. x < key_of (es ! unat i)" by (simp add: word_less_nat_alt n)
  from last_before_none [OF table_sorted [OF assms] this] show ?thesis
    using none by (simp add: last_le_none)
next
  case (some us e vs)
  define i :: u32 where "i = of_nat (length us)"
  have "length us < 2 ^ 32"
    using n some(1) unsigned_less [where 'a = nat, of n] by simp
  then have i: "unat i = length us" by (simp add: i_def unsigned_of_nat take_bit_nat_eq_self)
  have at: "es ! unat i = e" and lt: "unat i < length es" using some(1) by (simp_all add: i)
  have after: "\<forall>j. i < j \<longrightarrow> j < n \<longrightarrow> x < key_of (es ! unat j)"
    using some(1,3) n by (auto simp: word_less_nat_alt i nth_append nth_Cons')
  have "last_before entry key_of x n = entry i"
    by (rule last_before_correct [OF table_sorted [OF assms] _ _ after])
      (simp_all add: word_less_nat_alt n lt at some(2))
  then show ?thesis using table_at_unat [OF assms(1) lt] at last_le_some [OF some] by simp
qed

lemma last_le_map: "last_le key_of x (map g es) = map_option g (last_le (key_of \<circ> g) x es)"
  by (simp add: last_le_def filter_map o_def last_map split: list.split)

lemma count_of_u16: "n < 65536 \<Longrightarrow> unat (ucast (of_nat n :: u16) :: u32) = n"
  by (simp add: unsigned_ucast_eq unsigned_of_nat take_bit_nat_eq_self)

lemma unat_eq_of_nat: "unat (w :: 'a :: len word) = n \<Longrightarrow> w = of_nat n"
  by auto

lemma unat_ucast_fits:
  "unat w < 2 ^ LENGTH('b) \<Longrightarrow> unat (ucast (w :: 'a :: len word) :: 'b :: len word) = unat w"
  by (simp add: unsigned_ucast_eq take_bit_word_def unsigned_of_nat take_bit_nat_eq_self)

subsection \<open>The lookup is the reference\<close>

lemma regular_page_encoding:
  assumes "page_at K U A shared e (Regular es)"
  shows "regular_page K U (A + ucast (secondLevelPagesSectionOffset e)) off =
    map_option regular_encoding (last_le regular_functionOffset off es)"
  using assms
  by (simp add: page_at_def regular_page_def Let_def last_before_is_last_le [OF _ _ count_of_u16])

lemma u32s_at_nth: "u32s_at K a ws \<Longrightarrow> i < length ws \<Longrightarrow> read_u32 K (a + of_nat i * 4) = Some (ws ! i)"
  unfolding u32s_at_def by (drule arg_cong [of _ _ "\<lambda>l. l ! i"]) simp

lemma compressed_encoding_reads:
  assumes count: "unat (commonEncodingsArrayCount h) = length shared"
    and shared: "u32s_at K (A + ucast (commonEncodingsArraySectionOffset h)) shared"
    and own: "u32s_at K (P + ucast (encodingsPageOffset ph)) own"
    and i: "unat (ENTRY_ENCODING_INDEX U v) = i"
    and lt: "i < length shared + length own" and small: "length shared + length own < 65536"
  shows "compressed_encoding K U A h P ph v = Some ((shared @ own) ! i)"
proof -
  define k :: u16 where "k = ucast (ENTRY_ENCODING_INDEX U v)"
  have k: "unat k = i"
    using i lt small by (simp add: k_def unsigned_ucast_eq take_bit_nat_eq_self)
  then have k32: "unat (ucast k :: u32) = i" and k64: "(ucast k :: u64) = of_nat i"
    using lt small by (simp_all add: unsigned_ucast_eq take_bit_nat_eq_self flip: k)
  show ?thesis
  proof (cases "i < length shared")
    case True
    then show ?thesis using u32s_at_nth [OF shared True]
      by (simp add: compressed_encoding_def Let_def flip: k_def)
        (simp add: word_less_nat_alt k32 k64 count nth_append)
  next
    case False
    let ?d = "ucast k - commonEncodingsArrayCount h :: u32"
    have "unat ?d = i - length shared"
      using False by (simp add: unat_sub word_le_nat_alt k32 count)
    then have "unat (ucast (ucast ?d :: u16) :: u64) = i - length shared"
      using lt small by (simp add: unat_ucast_fits)
    then have "(ucast (ucast ?d :: u16) :: u64) = of_nat (i - length shared)"
      by (rule unat_eq_of_nat)
    then show ?thesis using u32s_at_nth [OF own, of "i - length shared"] False lt
      by (simp add: compressed_encoding_def Let_def flip: k_def)
        (simp add: word_less_nat_alt k32 count nth_append)
  qed
qed

lemma compressed_page_encoding:
  assumes pg: "page_at K U A (length shared) e (Compressed ph es own)"
    and count: "unat (commonEncodingsArrayCount h) = length shared"
    and shared: "u32s_at K (A + ucast (commonEncodingsArraySectionOffset h)) shared"
  shows "compressed_page K U A h (A + ucast (secondLevelPagesSectionOffset e)) (functionOffset e) off =
    page_encoding U shared (functionOffset e) off (Compressed ph es own)"
proof -
  let ?P = "A + ucast (secondLevelPagesSectionOffset e)"
  have own: "u32s_at K (?P + ucast (encodingsPageOffset ph)) own"
    and bound: "list_all (\<lambda>e. unat (ENTRY_ENCODING_INDEX U e) < length shared + length own) es"
    and small: "length shared + length own < 65536"
    using pg by (simp_all add: page_at_def Let_def)
  have "compressed_encoding K U A h ?P ph v = Some ((shared @ own) ! unat (ENTRY_ENCODING_INDEX U v))"
    if "last_le (ENTRY_FUNC_OFFSET U) (off - functionOffset e) es = Some v" for v
    using compressed_encoding_reads [OF count shared own refl _ small, where v = v]
      last_le_member [OF that] bound by (simp add: list_all_iff)
  then show ?thesis
    using pg
    by (simp add: page_at_def compressed_page_def page_encoding_def Let_def
        last_before_is_last_le [OF _ _ count_of_u16] split: option.split)
qed

lemma page_lookup:
  fixes K :: "'z mem_kernel_scheme"
  assumes pg: "page_at K U A (length shared) e pg"
    and count: "unat (commonEncodingsArrayCount h) = length shared"
    and shared: "u32s_at K (A + ucast (commonEncodingsArraySectionOffset h)) shared"
  defines "P \<equiv> A + ucast (secondLevelPagesSectionOffset e)"
  shows "(if secondLevelPagesSectionOffset e = 0 then None
    else case read_u32 K P of
      None \<Rightarrow> None
    | Some kind \<Rightarrow>
        if kind = SECOND_LEVEL_REGULAR U then regular_page K U P off
        else if kind = SECOND_LEVEL_COMPRESSED U then compressed_page K U A h P (functionOffset e) off
        else None) = page_encoding U shared (functionOffset e) off pg"
proof (cases pg)
  case (Regular es)
  then have "secondLevelPagesSectionOffset e \<noteq> 0" and "read_u32 K P = Some (SECOND_LEVEL_REGULAR U)"
    using pg by (simp_all add: page_at_def P_def Let_def)
  with Regular show ?thesis
    using regular_page_encoding [of K U A "length shared" e es off] pg
    by (simp add: page_encoding_def P_def)
next
  case (Compressed ph es own)
  then have "secondLevelPagesSectionOffset e \<noteq> 0" and "read_u32 K P = Some (SECOND_LEVEL_COMPRESSED U)"
    and "SECOND_LEVEL_COMPRESSED U \<noteq> SECOND_LEVEL_REGULAR U"
    using pg by (simp_all add: page_at_def P_def Let_def)
  with Compressed show ?thesis
    using compressed_page_encoding [OF _ count shared, of U e ph es own off] pg by (simp add: P_def)
qed (use pg in \<open>simp_all add: page_at_def page_encoding_def P_def Let_def\<close>)

lemma find_encoding_table:
  assumes "holds_table K U A T"
  shows "find_encoding K U A off = table_encoding U T off"
proof -
  let ?h = "unwind_hdr T"
  let ?entry = "\<lambda>i. read_struct K (A + ucast (indexSectionOffset ?h) + ucast i * sizeof_index_entry U)
        (sizeof_index_entry U) (dec_index_entry U)"
  have h: "read_struct K A (sizeof_unwind_header U) (dec_unwind_header U) = Some ?h"
      "unat (commonEncodingsArrayCount ?h) = length (commons T)"
      "u32s_at K (A + ucast (commonEncodingsArraySectionOffset ?h)) (commons T)"
    and pages: "list_all (\<lambda>(e, pg). page_at K U A (length (commons T)) e pg) (index T)"
    using assms by (simp_all add: holds_table_def Let_def)
  have first: "last_before ?entry functionOffset off (indexCount ?h) =
      map_option fst (last_le (functionOffset \<circ> fst) off (index T))"
    using assms last_before_is_last_le [of ?entry "map fst (index T)" functionOffset "indexCount ?h" off]
    by (simp add: holds_table_def Let_def last_le_map)
  show ?thesis
  proof (cases "last_le (functionOffset \<circ> fst) off (index T)")
    case None
    then show ?thesis using h(1) first by (simp add: find_encoding_def table_encoding_def)
  next
    case (Some q)
    obtain e pg where q: "q = (e, pg)" by (cases q)
    have "page_at K U A (length (commons T)) e pg"
      using last_le_member [OF Some] pages by (auto simp: q list_all_iff)
    from page_lookup [OF this h(2,3), of off] show ?thesis
      using h(1) first Some
      by (simp add: find_encoding_def table_encoding_def q Let_def cong del: if_weak_cong split del: if_split)
  qed
qed

subsection \<open>The scan over well-formed commands\<close>

definition scan_section :: "unwind_abi \<Rightarrow> bytes \<Rightarrow> nat \<Rightarrow> scan_state \<Rightarrow> scan_state" where
  "scan_section U c j st =
     (let s = dec_section_64 U (chunk (72 + j * sizeof_section_64 U) (sizeof_section_64 U) c)
      in if name_is_n 16 (sectname s) ''__unwind_info'' then st\<lparr>unwindInfoAddr := section_addr s\<rparr> else st)"

definition nsects_of :: "bytes \<Rightarrow> nat" where
  "nsects_of c = unat (le_word (chunk 64 4 c) :: u32)"

definition scan_command :: "unwind_abi \<Rightarrow> bytes \<Rightarrow> scan_state \<Rightarrow> scan_state" where
  "scan_command U c st =
     (if is_segment c then
        fold (scan_section U c) [0..<nsects_of c]
          (if name_is_n 16 (chunk 8 16 c) ''__TEXT''
           then st\<lparr>textVmAddr := le_word (chunk 24 8 c), foundText := True\<rparr> else st)
      else st)"

definition sections_fit :: "unwind_abi \<Rightarrow> bytes \<Rightarrow> bool" where
  "sections_fit U c \<longleftrightarrow> (is_segment c \<longrightarrow> 72 + nsects_of c * sizeof_section_64 U \<le> length c)"

lemma sections_loop_fold:
  assumes "at_offset buf p c" and "72 + (j + n) * sizeof_section_64 U \<le> length c"
  shows "sections_loop U buf (p + 72) j n st = Inr (fold (scan_section U c) [j..<j + n] st)"
  using assms(2)
proof (induction n arbitrary: j st)
  case (Suc n)
  have "72 + j * sizeof_section_64 U + sizeof_section_64 U \<le> length c"
    using Suc.prems by (simp add: algebra_simps)
  from at_offset_read [OF assms(1) this]
  have "read_at buf (p + 72 + j * sizeof_section_64 U) (sizeof_section_64 U) =
      Inr (chunk (72 + j * sizeof_section_64 U) (sizeof_section_64 U) c)"
    by (simp add: add.assoc)
  then show ?case
    using Suc.IH [of "Suc j"] Suc.prems
    by (simp add: upt_conv_Cons scan_section_def Let_def del: upt_Suc)
qed simp

interpretation scans: command_walk "scan_loop U" "sections_fit U" "scan_command U" for U
proof
  fix c buf p n st
  assume c: "load_command c" and ok: "sections_fit U c" and at: "at_offset buf p c"
  have "scan_segment U buf p st = Inr (scan_command U c st)" if "is_segment c"
    using c ok that at_offset_read [OF at, of 8 16] at_offset_rd64 [OF at, of 24]
      at_offset_rd32 [OF at, of 64] sections_loop_fold [OF at, of 0 "nsects_of c" U]
    by (simp add: scan_segment_def scan_command_def sections_fit_def load_command_def
        is_segment_def sizeofs Let_def flip: nsects_of_def)
  with c at show "scan_loop U (Suc n) buf p st = scan_loop U n buf (p + length c) (scan_command U c st)"
    by (auto simp: at_offset_cmd is_segment_def load_command_def scan_command_def)
qed simp

definition scan_image :: "unwind_abi \<Rightarrow> bytes list \<Rightarrow> scan_state" where
  "scan_image U cs = fold (scan_command U) cs \<lparr>unwindInfoAddr = 0, textVmAddr = 0, foundText = False\<rparr>"

lemma Arm64_lookup_image:
  assumes "GetModuleInfoForAddress ms pc = Some mi"
    and "headerAndLoadCommandBytes mi = image_bytes h cs" and "wf_image h cs"
    and "list_all (sections_fit U) cs"
  shows "LookupStackFrameForPCImplArm64 K U ms pc =
    (let st = scan_image U cs in
     if unwindInfoAddr st = 0 \<or> \<not> foundText st then Inr Unknown
     else Inr (case find_encoding K U (unwindInfoAddr st + (loadAddress mi - textVmAddr st))
                     (ucast (pc - loadAddress mi)) of
                 None \<Rightarrow> Unknown | Some e \<Rightarrow> classify U e))"
  using assms scans.walk_all [of cs U sizeof_mach_header_64 "enc_header h" "[]"
      "\<lparr>unwindInfoAddr = 0, textVmAddr = 0, foundText = False\<rparr>"]
    header_fields(2) [of h "concat cs"]
  by (simp add: LookupStackFrameForPCImplArm64_def image_bytes_def wf_image_def sizeofs
      list_all_iff scan_image_def Let_def cong del: if_weak_cong split del: if_split)

subsection \<open>A concrete image with unwind information\<close>

text \<open>The layouts of \<open>compact_unwind_encoding.h\<close>.\<close>

definition demo_unwind_abi :: unwind_abi where
  "demo_unwind_abi =
     \<lparr>sizeof_section_64 = 80,
      dec_section_64 = (\<lambda>b. \<lparr>sectname = chunk 0 16 b, section_addr = le_word (chunk 32 8 b)\<rparr>),
      sizeof_unwind_header = 28,
      dec_unwind_header = (\<lambda>b. \<lparr>commonEncodingsArraySectionOffset = le_word (chunk 4 4 b),
        commonEncodingsArrayCount = le_word (chunk 8 4 b), indexSectionOffset = le_word (chunk 20 4 b),
        indexCount = le_word (chunk 24 4 b)\<rparr>),
      sizeof_index_entry = 12,
      dec_index_entry = (\<lambda>b. \<lparr>functionOffset = le_word (chunk 0 4 b),
        secondLevelPagesSectionOffset = le_word (chunk 4 4 b)\<rparr>),
      SECOND_LEVEL_REGULAR = 2, SECOND_LEVEL_COMPRESSED = 3,
      sizeof_regular_header = 8, dec_regular_entryCount = (\<lambda>b. le_word (chunk 6 2 b)),
      sizeof_regular_entry = 8,
      dec_regular_entry = (\<lambda>b. \<lparr>regular_functionOffset = le_word (chunk 0 4 b),
        regular_encoding = le_word (chunk 4 4 b)\<rparr>),
      sizeof_compressed_header = 12,
      dec_compressed_header = (\<lambda>b. \<lparr>compressed_entryCount = le_word (chunk 6 2 b),
        encodingsPageOffset = le_word (chunk 8 2 b)\<rparr>),
      ENTRY_FUNC_OFFSET = (\<lambda>e. e AND 0xFFFFFF), ENTRY_ENCODING_INDEX = (\<lambda>e. drop_bit 24 e),
      ARM64_MODE_MASK = 0x0F000000, ARM64_MODE_FRAME = 0x04000000, ARM64_MODE_FRAMELESS = 0x02000000\<rparr>"

text \<open>
  Unwind information of five functions: two on a regular page, two on a compressed page with
  one shared and one own encoding, and the end of the last.
\<close>

definition demo_regular :: "regular_entry list" where
  "demo_regular = [\<lparr>regular_functionOffset = 0, regular_encoding = 0x04000000\<rparr>,
     \<lparr>regular_functionOffset = 0x10, regular_encoding = 0x02001000\<rparr>]"

definition demo_table :: unwind_table where
  "demo_table =
     \<lparr>unwind_hdr = \<lparr>commonEncodingsArraySectionOffset = 28, commonEncodingsArrayCount = 1,
        indexSectionOffset = 32, indexCount = 3\<rparr>,
      commons = [0x02002000],
      index = [(\<lparr>functionOffset = 0, secondLevelPagesSectionOffset = 68\<rparr>, Regular demo_regular),
        (\<lparr>functionOffset = 0x20, secondLevelPagesSectionOffset = 92\<rparr>,
           Compressed \<lparr>compressed_entryCount = 2, encodingsPageOffset = 20\<rparr> [0, 0x01000008] [0x04000001]),
        (\<lparr>functionOffset = 0x60, secondLevelPagesSectionOffset = 0\<rparr>, NoPage)]\<rparr>"

definition demo_unwind_bytes :: bytes where
  "demo_unwind_bytes =
     concat (map le32 [1, 28, 1, 0, 0, 32, 3, 0x02002000, 0, 68, 0, 0x20, 92, 0, 0x60, 0, 0,
       2, 0x20000, 0, 0x04000000, 0x10, 0x02001000, 3, 0x20000, 20, 0, 0x01000008, 0x04000001])"

definition demo_unwind_kernel :: mem_kernel where
  "demo_unwind_kernel = flat_kernel 0x3000 demo_unwind_bytes"

lemma demo_holds_table: "holds_table demo_unwind_kernel demo_unwind_abi 0x3000 demo_table"
  by code_simp

text \<open>A \<open>__TEXT\<close> segment with an \<open>__unwind_info\<close> section, at its preferred address.\<close>

definition demo_unwind_text :: bytes where
  "demo_unwind_text = enc_segment
     \<lparr>sc_cmd = LC_SEGMENT_64, sc_cmdsize = 152, sc_segname = strncpy 16 (cstr ''__TEXT''),
      sc_vmaddr = 0x100000000, sc_vmsize = 0x80, sc_fileoff = 0, sc_filesize = 0x80, sc_maxprot = 5,
      sc_initprot = 5, sc_nsects = 1, sc_flags = 0\<rparr> @
     strncpy 16 (cstr ''__unwind_info'') @ strncpy 16 (cstr ''__TEXT'') @ le64 0x100002000 @
     replicate 40 0"

definition demo_unwind_module :: ModuleInfo where
  "demo_unwind_module =
     \<lparr>loadAddress = 0x1000, uuid = replicate 16 7, filePath = [0x2F, 0x61],
      segments = [\<lparr>segmentName = strncpy 16 (cstr ''__TEXT''), address = 0x1000, seg_size = 0x80\<rparr>],
      executing = False,
      headerAndLoadCommandBytes = image_bytes (demo_header MH_EXECUTE 1 152) [demo_unwind_text]\<rparr>"

lemma demo_unwind_image: "wf_image (demo_header MH_EXECUTE 1 152) [demo_unwind_text]"
  by code_simp

lemma demo_unwind_sections: "list_all (sections_fit demo_unwind_abi) [demo_unwind_text]"
  by code_simp

lemma demo_unwind_scan: "scan_image demo_unwind_abi [demo_unwind_text] =
    \<lparr>unwindInfoAddr = 0x100002000, textVmAddr = 0x100000000, foundText = True\<rparr>"
  by code_simp

subsection \<open>Property\<close>

text \<open>C13. For a code address in a module whose image has unwind information, the two binary searches
  give what a scan of the table gives: the encoding of the last function that starts at or
  before the address, classified as with or without a frame; the page may be regular or
  compressed, with a shared encoding or one of its own.\<close>

theorem stack_frame_lookup_is_table_lookup:
  assumes "target cfg = Arm64" and "GetModuleInfoForAddress ms pc = Some mi"
    and "headerAndLoadCommandBytes mi = image_bytes h cs" and "wf_image h cs"
    and "list_all (sections_fit U) cs"
    and "scan_image U cs = \<lparr>unwindInfoAddr = u, textVmAddr = t, foundText = True\<rparr>" and "u \<noteq> 0"
    and "holds_table K U (u + (loadAddress mi - t)) T"
  shows "LookupStackFrameForPC cfg K U ms pc =
    Inr (case table_encoding U T (ucast (pc - loadAddress mi)) of
           None \<Rightarrow> Unknown | Some e \<Rightarrow> classify U e)"
  using assms by (simp add: LookupStackFrameForPC_def Arm64_lookup_image find_encoding_table)

lemma stack_frame_lookup_is_table_lookup_witness:
  "LookupStackFrameForPC demo_config demo_unwind_kernel demo_unwind_abi
     [(0x1000, demo_unwind_module)] 0x102C = Inr HasFrame"
proof -
  have arm: "target demo_config = Arm64" by code_simp
  have mi: "GetModuleInfoForAddress [(0x1000, demo_unwind_module)] 0x102C = Some demo_unwind_module"
    by code_simp
  have raw: "headerAndLoadCommandBytes demo_unwind_module =
      image_bytes (demo_header MH_EXECUTE 1 152) [demo_unwind_text]"
    by (simp add: demo_unwind_module_def)
  have "holds_table demo_unwind_kernel demo_unwind_abi
      (0x100002000 + (loadAddress demo_unwind_module - 0x100000000)) demo_table"
    using demo_holds_table by (simp add: demo_unwind_module_def)
  note found = stack_frame_lookup_is_table_lookup [OF arm mi raw demo_unwind_image demo_unwind_sections
      demo_unwind_scan _ this]
  have "table_encoding demo_unwind_abi demo_table (ucast (0x102C - loadAddress demo_unwind_module)) =
      Some 0x04000001"
    by code_simp
  moreover have "classify demo_unwind_abi 0x04000001 = HasFrame" by code_simp
  ultimately show ?thesis using found by simp
qed

end
