(* ===== verification/MemoryRegionList.thy ===== *)
theory MemoryRegionList
  imports ProcessMemory AddressIndex
begin

text \<open>
  \<open>MemoryRegionList\<close>: the mapped regions of the task, collected by repeated calls of
  \<open>vm_region_recurse_64\<close> and keyed by their address, and the lookup of the region of an
  address. The tag numbers of \<open>mach/vm_statistics.h\<close> are a parameter.
\<close>

subsection \<open>Types\<close>

definition MemProtNone :: u8 where
  "MemProtNone = 0"

definition MemProtRead :: u8 where
  "MemProtRead = 1"

definition MemProtWrite :: u8 where
  "MemProtWrite = 2"

definition MemProtExecute :: u8 where
  "MemProtExecute = 4"

datatype MemoryRegionType = Unknown | Stack | Heap

record MemoryRegionInfo =
  vmaddr :: u64
  vmsize :: u64
  prot :: u8
  rtype :: MemoryRegionType

type_synonym MemoryRegions = "(u64, MemoryRegionInfo) omap"

record vm_tags =
  VM_MEMORY_STACK :: u32
  VM_MEMORY_heap_tags :: "u32 list" \<comment> \<open>the nine \<open>MALLOC\<close>, \<open>REALLOC\<close> and \<open>SBRK\<close> cases\<close>

definition VM_PROT_NONE :: u32 where
  "VM_PROT_NONE = 0"

subsection \<open>Construction\<close>

definition region_type :: "vm_tags \<Rightarrow> submap_info \<Rightarrow> MemoryRegionType" where
  "region_type T info =
     (if user_tag info = VM_MEMORY_STACK T then
        if protection info \<noteq> VM_PROT_NONE then Stack else Unknown
      else if user_tag info \<in> set (VM_MEMORY_heap_tags T) then Heap
      else Unknown)"

definition make_region :: "vm_tags \<Rightarrow> u64 \<Rightarrow> u64 \<Rightarrow> submap_info \<Rightarrow> MemoryRegionInfo" where
  "make_region T address sz info =
     \<lparr>vmaddr = address, vmsize = sz, prot = ucast (protection info), rtype = region_type T info\<rparr>"

text \<open>
  The constructor's loop: the call, the insertion (also after a call that failed), the
  step to the end of the region, and the test of the return code. Nothing in the loop
  bounds it, so not returning is the value \<open>None\<close>.
\<close>

partial_function (option) region_loop ::
  "'z mem_kernel_scheme \<Rightarrow> vm_tags \<Rightarrow> bool \<Rightarrow> u64 \<Rightarrow> u64 \<Rightarrow> u32 \<Rightarrow> submap_info \<Rightarrow>
     MemoryRegions \<Rightarrow> MemoryRegions option"
where
  "region_loop K T kr address sz depth info m =
     (if kr then
        let r = vm_region_recurse_64 K address sz depth info;
            region = make_region T (rr_address r) (rr_size r) (rr_info r)
        in region_loop K T (rr_success r) (rr_address r + rr_size r) (rr_size r) (rr_depth r)
             (rr_info r) (map_emplace (vmaddr region) region m)
      else Some m)"

declare region_loop.simps [code]

definition MACH_VM_MIN_ADDRESS :: u64 where
  "MACH_VM_MIN_ADDRESS = 0"

definition new_MemoryRegionList :: "'z mem_kernel_scheme \<Rightarrow> vm_tags \<Rightarrow> MemoryRegions option" where
  "new_MemoryRegionList K T = region_loop K T True MACH_VM_MIN_ADDRESS 0 0 (uninit_info K) []"

subsection \<open>Queries\<close>

definition IsValid :: "MemoryRegions \<Rightarrow> bool" where
  "IsValid m \<longleftrightarrow> m = []"

definition GetSize :: "MemoryRegions \<Rightarrow> nat" where
  "GetSize m = length m"

definition isInRegion :: "u64 \<Rightarrow> MemoryRegionInfo \<Rightarrow> bool" where
  "isInRegion addr ri \<longleftrightarrow> addr \<ge> vmaddr ri \<and> addr \<le> vmaddr ri + vmsize ri"

definition GetRegionInfoForAddress :: "MemoryRegions \<Rightarrow> u64 \<Rightarrow> MemoryRegionInfo option" where
  "GetRegionInfoForAddress m address =
     (if m = [] then None
      else
        let it = lower_bound m address in
        if it = length m then
          (if isInRegion address (snd (last m)) then Some (snd (last m)) else None)
        else
          let it = (if it \<noteq> 0 \<and> address \<noteq> fst (m ! it) then it - 1 else it) in
          if isInRegion address (snd (m ! it)) then Some (snd (m ! it)) else None)"

definition HasAddress :: "MemoryRegions \<Rightarrow> u64 \<Rightarrow> bool" where
  "HasAddress m address \<longleftrightarrow> GetRegionInfoForAddress m address \<noteq> None"

definition Invalidate :: "MemoryRegions \<Rightarrow> MemoryRegions" where
  "Invalidate m = []"

subsection \<open>The lookup is an address lookup\<close>

lemma GetRegionInfoForAddress_candidate:
  "m \<noteq> [] \<Longrightarrow> GetRegionInfoForAddress m a =
     (let v = snd (m ! candidate m a) in if isInRegion a v then Some v else None)"
  by (simp add: GetRegionInfoForAddress_def candidate_def Let_def last_conv_nth)

interpretation regions: address_lookup isInRegion GetRegionInfoForAddress
  by unfold_locales (simp_all add: GetRegionInfoForAddress_candidate, simp add: GetRegionInfoForAddress_def)

text \<open>Entries are filed under their own address, as the constructor does.\<close>

definition well_keyed :: "MemoryRegions \<Rightarrow> bool" where
  "well_keyed m \<longleftrightarrow> sorted_keys m \<and> (\<forall>(k, v) \<in> set m. vmaddr v = k)"

lemma map_emplace_set: "p \<in> set (map_emplace k v m) \<Longrightarrow> p = (k, v) \<or> p \<in> set m"
  by (induction k v m rule: map_emplace.induct) (auto split: if_splits)

lemma map_emplace_keeps: "p \<in> set m \<Longrightarrow> p \<in> set (map_emplace k v m)"
  by (induction k v m rule: map_emplace.induct) auto

lemma well_keyed_emplace:
  assumes "well_keyed m"
  shows "well_keyed (map_emplace (vmaddr v) v m)"
  using assms map_emplace_set [of _ "vmaddr v" v m]
  by (fastforce simp: well_keyed_def map_emplace_sorted)

lemma region_loop_well_keyed:
  assumes "region_loop K T kr a s d i m = Some m'" and "well_keyed m"
  shows "well_keyed m'"
proof -
  have "well_keyed m \<longrightarrow> well_keyed m'"
  proof (rule region_loop.raw_induct
      [where P = "\<lambda>K T kr a s d i m m'. well_keyed m \<longrightarrow> well_keyed m'", OF _ assms(1)])
    fix loop K T kr a s d i m m'
    assume IH: "\<And>K T kr a s d i m m'. loop K T kr a s d i m = Some m' \<Longrightarrow>
        well_keyed m \<longrightarrow> well_keyed m'"
      and eq: "(if kr then
          let r = vm_region_recurse_64 K a s d i;
              region = make_region T (rr_address r) (rr_size r) (rr_info r)
          in loop K T (rr_success r) (rr_address r + rr_size r) (rr_size r) (rr_depth r)
               (rr_info r) (map_emplace (vmaddr region) region m)
        else Some m) = Some m'"
    show "well_keyed m \<longrightarrow> well_keyed m'"
      using eq IH well_keyed_emplace by (fastforce simp: Let_def split: if_splits)
  qed
  with assms(2) show ?thesis by blast
qed

subsection \<open>Lookup in disjoint regions\<close>

definition region_end :: "MemoryRegionInfo \<Rightarrow> u64" where
  "region_end v = vmaddr v + vmsize v"

definition disjoint_regions :: "MemoryRegions \<Rightarrow> bool" where
  "disjoint_regions m \<longleftrightarrow> well_keyed m \<and>
     (\<forall>(k, v) \<in> set m. 0 < vmsize v \<and> no_wrap (vmaddr v) (vmsize v)) \<and>
     (\<forall>(k, v) \<in> set m. \<forall>(k', v') \<in> set m. k < k' \<longrightarrow> region_end v \<le> k')"

lemma disjoint_regionsD:
  assumes "disjoint_regions m" and "(k, v) \<in> set m"
  shows "vmaddr v = k" and "k < region_end v" and "sorted_keys m"
    and "isInRegion a v \<longleftrightarrow> k \<le> a \<and> a \<le> region_end v"
    and "(k', v') \<in> set m \<Longrightarrow> k < k' \<Longrightarrow> region_end v \<le> k'"
proof -
  show k: "vmaddr v = k" and "sorted_keys m"
    using assms by (auto simp: disjoint_regions_def well_keyed_def)
  have "\<forall>(k, v) \<in> set m. 0 < vmsize v \<and> no_wrap (vmaddr v) (vmsize v)"
    using assms(1) unfolding disjoint_regions_def by blast
  then have v: "vmsize v \<noteq> 0" "no_wrap k (vmsize v)"
    using assms(2) k by auto
  show "k < region_end v"
    using no_wrap_less [OF v(2,1)] k unfolding region_end_def by simp
  show "isInRegion a v \<longleftrightarrow> k \<le> a \<and> a \<le> region_end v"
    unfolding region_end_def isInRegion_def k by simp
  have "\<forall>(k, v) \<in> set m. \<forall>(k', v') \<in> set m. k < k' \<longrightarrow> region_end v \<le> k'"
    using assms(1) unfolding disjoint_regions_def by blast
  then show "(k', v') \<in> set m \<Longrightarrow> k < k' \<Longrightarrow> region_end v \<le> k'"
    using assms(2) by blast
qed

lemma lookup_inside:
  assumes "disjoint_regions m" and "(k, v) \<in> set m" and "k \<le> a"
    and "a < region_end v \<or> a = region_end v \<and> a \<notin> fst ` set m"
  shows "GetRegionInfoForAddress m a = Some v"
proof (rule regions.lookup_complete [of m k])
  note D = disjoint_regionsD [OF assms(1,2)]
  show "sorted_keys m" by (rule D(3))
  show "(k, v) \<in> set m" "k \<le> a" by (fact assms)+
  have "a \<le> region_end v" using assms(4) by (elim disjE conjE) simp_all
  with assms(3) show "isInRegion a v" unfolding D(4) by blast
  show "\<forall>(k', v') \<in> set m. \<not> (k < k' \<and> k' \<le> a)"
  proof clarify
    fix k' v' assume k': "(k', v') \<in> set m" "k < k'" "k' \<le> a"
    then have "region_end v \<le> k'" using D(5) by blast
    then have "region_end v \<le> a" using k'(3) by (rule order_trans)
    then have "\<not> a < region_end v" by (simp add: not_less)
    with assms(4) have a: "a = region_end v" "a \<notin> fst ` set m" by blast+
    with k'(3) \<open>region_end v \<le> k'\<close> have "k' = a" by simp
    with k'(1) a(2) show False by force
  qed
qed

subsection \<open>The loop returns\<close>

text \<open>
  The call reports the region that contains the address it is given, or the next one: in
  either case one that ends beyond the address.
\<close>

definition region_progress :: "'z mem_kernel_scheme \<Rightarrow> bool" where
  "region_progress K \<longleftrightarrow>
     (\<forall>a s d i. let r = vm_region_recurse_64 K a s d i in
        rr_success r \<longrightarrow> a < rr_address r + rr_size r)"

text \<open>A call that fails leaves its in/out arguments as they were.\<close>

definition failure_keeps_arguments :: "'z mem_kernel_scheme \<Rightarrow> bool" where
  "failure_keeps_arguments K \<longleftrightarrow>
     (\<forall>a s d i. let r = vm_region_recurse_64 K a s d i in
        \<not> rr_success r \<longrightarrow> rr_address r = a \<and> rr_size r = s \<and> rr_depth r = d \<and> rr_info r = i)"

lemma region_loop_stops: "region_loop K T False a s d i m = Some m"
  by (subst region_loop.simps) simp

lemma region_loop_unfold:
  "region_loop K T True a s d i m =
     (let r = vm_region_recurse_64 K a s d i;
          region = make_region T (rr_address r) (rr_size r) (rr_info r)
      in region_loop K T (rr_success r) (rr_address r + rr_size r) (rr_size r) (rr_depth r)
           (rr_info r) (map_emplace (vmaddr region) region m))"
  by (subst region_loop.simps) simp

lemma region_loop_returns:
  assumes "region_progress K"
  shows "\<exists>m'. region_loop K T kr a s d i m = Some m'"
proof (induction "2 ^ 64 - unat a" arbitrary: kr a s d i m rule: less_induct)
  case less
  show ?case
  proof (cases kr)
    case True
    let ?r = "vm_region_recurse_64 K a s d i"
    show ?thesis
    proof (cases "rr_success ?r")
      case ok: True
      then have "a < rr_address ?r + rr_size ?r"
        using assms by (auto simp: region_progress_def Let_def)
      then have "2 ^ 64 - unat (rr_address ?r + rr_size ?r) < 2 ^ 64 - unat a"
        using unsigned_less [where 'a = nat, of "rr_address ?r + rr_size ?r"]
        by (simp add: word_less_nat_alt)
      from less [OF this] True show ?thesis by (simp add: region_loop_unfold Let_def)
    qed (use True in \<open>simp add: region_loop_unfold region_loop_stops Let_def\<close>)
  qed (simp add: region_loop_stops)
qed

subsection \<open>The entry of the failed call\<close>

lemma region_loop_failed_entry:
  assumes "region_loop K T True a s d i m = Some m'" and "failure_keeps_arguments K"
  shows "\<exists>k \<in> fst ` set m'. \<exists>s d i. \<not> rr_success (vm_region_recurse_64 K k s d i)"
proof -
  have "failure_keeps_arguments K \<longrightarrow>
      (kr \<or> (\<exists>k \<in> fst ` set m. \<exists>s d i. \<not> rr_success (vm_region_recurse_64 K k s d i))) \<longrightarrow>
      (\<exists>k \<in> fst ` set m'. \<exists>s d i. \<not> rr_success (vm_region_recurse_64 K k s d i))"
    if "region_loop K T kr a s d i m = Some m'" for kr
  proof (rule region_loop.raw_induct
      [where P = "\<lambda>K T kr a s d i m m'. failure_keeps_arguments K \<longrightarrow>
         (kr \<or> (\<exists>k \<in> fst ` set m. \<exists>s d i. \<not> rr_success (vm_region_recurse_64 K k s d i))) \<longrightarrow>
         (\<exists>k \<in> fst ` set m'. \<exists>s d i. \<not> rr_success (vm_region_recurse_64 K k s d i))", OF _ that])
    fix loop K T kr a s d i m m'
    let ?bad = "\<lambda>m. \<exists>k \<in> fst ` set m. \<exists>s d i. \<not> rr_success (vm_region_recurse_64 K k s d i)"
    let ?r = "vm_region_recurse_64 K a s d i"
    assume IH: "\<And>K T kr a s d i m m'. loop K T kr a s d i m = Some m' \<Longrightarrow>
        failure_keeps_arguments K \<longrightarrow>
        (kr \<or> (\<exists>k \<in> fst ` set m. \<exists>s d i. \<not> rr_success (vm_region_recurse_64 K k s d i))) \<longrightarrow>
        (\<exists>k \<in> fst ` set m'. \<exists>s d i. \<not> rr_success (vm_region_recurse_64 K k s d i))"
      and eq: "(if kr then
          let r = vm_region_recurse_64 K a s d i;
              region = make_region T (rr_address r) (rr_size r) (rr_info r)
          in loop K T (rr_success r) (rr_address r + rr_size r) (rr_size r) (rr_depth r)
               (rr_info r) (map_emplace (vmaddr region) region m)
        else Some m) = Some m'"
    have step: "?bad (map_emplace (rr_address ?r) v m) \<or> rr_success ?r"
      if "failure_keeps_arguments K" for v
      using that by (auto simp: failure_keeps_arguments_def Let_def map_emplace_keys)
    show "failure_keeps_arguments K \<longrightarrow> kr \<or> ?bad m \<longrightarrow> ?bad m'"
    proof (cases kr)
      case True
      with eq have "loop K T (rr_success ?r) (rr_address ?r + rr_size ?r) (rr_size ?r)
          (rr_depth ?r) (rr_info ?r)
          (map_emplace (rr_address ?r) (make_region T (rr_address ?r) (rr_size ?r) (rr_info ?r)) m)
          = Some m'"
        by (simp add: Let_def make_region_def)
      from IH [OF this] step show ?thesis by blast
    next
      case False
      with eq show ?thesis by simp
    qed
  qed
  from this [OF assms(1)] assms(2) show ?thesis by blast
qed

subsection \<open>Properties\<close>

text \<open>C28. In a list of disjoint regions the lookup returns a region exactly when the address lies
  in it, or is the address just past its end and no other region starts there.\<close>

theorem region_lookup_iff:
  assumes "disjoint_regions m"
  shows "GetRegionInfoForAddress m a = Some v \<longleftrightarrow>
    (\<exists>k. (k, v) \<in> set m \<and> k \<le> a \<and> (a < region_end v \<or> a = region_end v \<and> a \<notin> fst ` set m))"
proof
  assume found: "GetRegionInfoForAddress m a = Some v"
  then obtain k where k: "(k, v) \<in> set m" and inside: "isInRegion a v"
    using regions.lookup_sound [OF found] by auto
  note D = disjoint_regionsD [OF assms k]
  have le: "k \<le> a" "a \<le> region_end v" using inside unfolding D(4) by blast+
  have "a \<notin> fst ` set m" if a: "a = region_end v"
  proof
    assume "a \<in> fst ` set m"
    then obtain w where w: "(a, w) \<in> set m" by auto
    have "a < region_end w" by (rule disjoint_regionsD(2) [OF assms w])
    then have "GetRegionInfoForAddress m a = Some w"
      using lookup_inside [OF assms w] by blast
    with found have "w = v" by simp
    with disjoint_regionsD(1) [OF assms w] D(1) have "k = a" by simp
    with D(2) a show False by simp
  qed
  with k le show "\<exists>k. (k, v) \<in> set m \<and> k \<le> a \<and>
      (a < region_end v \<or> a = region_end v \<and> a \<notin> fst ` set m)"
    using le_less by blast
qed (use lookup_inside [OF assms] in blast)

lemma region_lookup_iff_witness:
  "GetRegionInfoForAddress
     [(0x1000, \<lparr>vmaddr = 0x1000, vmsize = 0x1000, prot = 3, rtype = Stack\<rparr>),
      (0x2000, \<lparr>vmaddr = 0x2000, vmsize = 0x800, prot = 1, rtype = Heap\<rparr>)] 0x2000 =
   Some \<lparr>vmaddr = 0x2000, vmsize = 0x800, prot = 1, rtype = Heap\<rparr>"
proof -
  let ?m = "[(0x1000, \<lparr>vmaddr = 0x1000, vmsize = 0x1000, prot = 3, rtype = Stack\<rparr>),
      (0x2000, \<lparr>vmaddr = 0x2000, vmsize = 0x800, prot = 1, rtype = Heap\<rparr>)] :: MemoryRegions"
  have "disjoint_regions ?m"
    by (simp add: disjoint_regions_def well_keyed_def region_end_def no_wrap_def)
  from region_lookup_iff [OF this] show ?thesis
    by (simp add: region_end_def)
qed

text \<open>C29. With a kernel that moves forward the constructor returns. The list it leaves is keyed by
  the addresses of its entries, but has an entry for the call that failed, which is no region
  of the task; and as it is never empty, \<open>IsValid\<close> is false of every list constructed.\<close>

theorem constructed_list_has_phantom_region:
  assumes "region_progress K" and "failure_keeps_arguments K"
  shows "\<exists>m. new_MemoryRegionList K T = Some m \<and> well_keyed m \<and> \<not> IsValid m \<and>
    (\<exists>k \<in> fst ` set m. \<exists>s d i. \<not> rr_success (vm_region_recurse_64 K k s d i))"
proof -
  obtain m where m: "region_loop K T True MACH_VM_MIN_ADDRESS 0 0 (uninit_info K) [] = Some m"
    using region_loop_returns [OF assms(1)] by blast
  have "well_keyed m"
    by (rule region_loop_well_keyed [OF m]) (simp add: well_keyed_def)
  with region_loop_failed_entry [OF m assms(2)] m show ?thesis
    by (auto simp: new_MemoryRegionList_def IsValid_def)
qed

lemma constructed_list_has_phantom_region_witness:
  "\<exists>m. new_MemoryRegionList (flat_kernel 0x1000 [1, 2, 3]) \<lparr>VM_MEMORY_STACK = 30, VM_MEMORY_heap_tags = [1, 2]\<rparr>
       = Some m \<and> well_keyed m \<and> \<not> IsValid m \<and>
     (\<exists>k \<in> fst ` set m. \<exists>s d i. \<not> rr_success (vm_region_recurse_64 (flat_kernel 0x1000 [1, 2, 3]) k s d i))"
  by (rule constructed_list_has_phantom_region)
    (simp_all add: region_progress_def failure_keeps_arguments_def flat_kernel_def Let_def)

end
