(* ===== verification/CoreInternal.thy ===== *)
theory CoreInternal
  imports ProcessMemory
begin

text \<open>
  \<open>MachOCoreInternal\<close>: the payload structures of the notes, the register states of a thread
  as they go into a thread command, the pointer class the stack walk reads registers through,
  and the class that captures a thread. The layouts are those of \<open>Misc/core.hsl\<close>.
\<close>

subsection \<open>Payload structures\<close>

record AddrableBitsInfo =
  ab_version :: u32
  nBits :: u32
  ab_unused :: u64

record AllImageInfosHeader =
  ai_version :: u32
  imgcount :: u32
  entries_fileoff :: u64
  entries_size :: u32
  ai_reserved :: u32

record ImageEntry =
  filepath_offset :: u64
  ie_uuid :: bytes \<comment> \<open>\<open>uuid_t\<close>, 16 bytes\<close>
  load_address :: u64
  seg_addrs_offset :: u64
  segment_count :: u32
  ie_reserved :: u32

record SegmentVMAddr =
  segname :: bytes \<comment> \<open>\<open>char[16]\<close>\<close>
  vmaddr_of :: u64
  sv_unused :: u64

record MainBinSpec =
  mb_version :: u32
  mb_type :: u32
  mb_address :: u64
  mb_slide :: u64
  mb_uuid :: bytes
  log2_pagesize :: u32
  platform :: u32

definition UINT64_MAX :: u64 where
  "UINT64_MAX = -1"

definition default_MainBinSpec :: MainBinSpec where
  "default_MainBinSpec =
     \<lparr>mb_version = 2, mb_type = 0, mb_address = UINT64_MAX, mb_slide = UINT64_MAX,
      mb_uuid = replicate 16 0, log2_pagesize = 0, platform = 0\<rparr>"

definition enc_AddrableBitsInfo :: "AddrableBitsInfo \<Rightarrow> bytes" where
  "enc_AddrableBitsInfo a = le32 (ab_version a) @ le32 (nBits a) @ le64 (ab_unused a)"

definition enc_AllImageInfosHeader :: "AllImageInfosHeader \<Rightarrow> bytes" where
  "enc_AllImageInfosHeader h =
     le32 (ai_version h) @ le32 (imgcount h) @ le64 (entries_fileoff h) @ le32 (entries_size h) @
     le32 (ai_reserved h)"

definition enc_ImageEntry :: "ImageEntry \<Rightarrow> bytes" where
  "enc_ImageEntry e =
     le64 (filepath_offset e) @ ie_uuid e @ le64 (load_address e) @ le64 (seg_addrs_offset e) @
     le32 (segment_count e) @ le32 (ie_reserved e)"

definition enc_SegmentVMAddr :: "SegmentVMAddr \<Rightarrow> bytes" where
  "enc_SegmentVMAddr s = segname s @ le64 (vmaddr_of s) @ le64 (sv_unused s)"

definition enc_MainBinSpec :: "MainBinSpec \<Rightarrow> bytes" where
  "enc_MainBinSpec m =
     le32 (mb_version m) @ le32 (mb_type m) @ le64 (mb_address m) @ le64 (mb_slide m) @ mb_uuid m @
     le32 (log2_pagesize m) @ le32 (platform m)"

definition sizeof_AllImageInfosHeader :: u64 where "sizeof_AllImageInfosHeader = 24"
definition sizeof_ImageEntry :: u64 where "sizeof_ImageEntry = 48"
definition sizeof_SegmentVMAddr :: u64 where "sizeof_SegmentVMAddr = 32"

lemmas payload_sizeofs =
  sizeof_AllImageInfosHeader_def sizeof_ImageEntry_def sizeof_SegmentVMAddr_def

lemma length_enc_AddrableBitsInfo [simp, len_simps]: "length (enc_AddrableBitsInfo a) = 16"
  by (simp add: enc_AddrableBitsInfo_def)

lemma length_enc_AllImageInfosHeader [simp, len_simps]: "length (enc_AllImageInfosHeader h) = 24"
  by (simp add: enc_AllImageInfosHeader_def)

lemma length_enc_ImageEntry [simp, len_simps]:
  "length (ie_uuid e) = 16 \<Longrightarrow> length (enc_ImageEntry e) = 48"
  by (simp add: enc_ImageEntry_def)

lemma length_enc_SegmentVMAddr [simp, len_simps]:
  "length (segname s) = 16 \<Longrightarrow> length (enc_SegmentVMAddr s) = 32"
  by (simp add: enc_SegmentVMAddr_def)

lemma length_enc_MainBinSpec [simp, len_simps]:
  "length (mb_uuid m) = 16 \<Longrightarrow> length (enc_MainBinSpec m) = 48"
  by (simp add: enc_MainBinSpec_def)

text \<open>The owners, as C strings without their terminator.\<close>

definition AddrableBitsOwner :: bytes where
  "AddrableBitsOwner = map of_char ''addrable bits''"

definition AllImageInfosOwner :: bytes where
  "AllImageInfosOwner = map of_char ''all image infos''"

definition MainBinSpecOwner :: bytes where
  "MainBinSpecOwner = map of_char ''main bin spec''"

definition ProcessMetadataOwner :: bytes where
  "ProcessMetadataOwner = map of_char ''process metadata''"

subsection \<open>Register states\<close>

record arm_thread_state64 =
  arm_x :: "u64 list" \<comment> \<open>\<open>x0\<close> to \<open>x28\<close>\<close>
  arm_fp :: u64
  arm_lr :: u64
  arm_sp :: u64
  arm_pc :: u64
  arm_cpsr :: u32
  arm_flags :: u32

record x86_thread_state64 =
  x86_rax_to_rsi :: "u64 list" \<comment> \<open>\<open>rax\<close>, \<open>rbx\<close>, \<open>rcx\<close>, \<open>rdx\<close>, \<open>rdi\<close>, \<open>rsi\<close>\<close>
  x86_rbp :: u64
  x86_rsp :: u64
  x86_r8_to_r15 :: "u64 list"
  x86_rip :: u64
  x86_rflags :: u64
  x86_cs_fs_gs :: "u64 list"

datatype thread_state = ArmTS arm_thread_state64 | X86TS x86_thread_state64

record arm_exception_state64 =
  arm_far :: u64
  arm_esr :: u32
  arm_exception :: u32

record x86_exception_state64 =
  x86_trapno :: u32
  x86_err :: u32
  x86_faultvaddr :: u64

datatype exception_state = ArmES arm_exception_state64 | X86ES x86_exception_state64

fun enc_thread_state :: "thread_state \<Rightarrow> bytes" where
  "enc_thread_state (ArmTS s) =
     concat (map le64 (arm_x s)) @ le64 (arm_fp s) @ le64 (arm_lr s) @ le64 (arm_sp s) @
     le64 (arm_pc s) @ le32 (arm_cpsr s) @ le32 (arm_flags s)"
| "enc_thread_state (X86TS s) =
     concat (map le64 (x86_rax_to_rsi s)) @ le64 (x86_rbp s) @ le64 (x86_rsp s) @
     concat (map le64 (x86_r8_to_r15 s)) @ le64 (x86_rip s) @ le64 (x86_rflags s) @
     concat (map le64 (x86_cs_fs_gs s))"

fun enc_exception_state :: "exception_state \<Rightarrow> bytes" where
  "enc_exception_state (ArmES e) = le64 (arm_far e) @ le32 (arm_esr e) @ le32 (arm_exception e)"
| "enc_exception_state (X86ES e) = le32 (x86_trapno e) @ le32 (x86_err e) @ le64 (x86_faultvaddr e)"

text \<open>The states of the target: the alternative of the \<open>#ifdef\<close>, with all registers there.\<close>

fun state_of_target :: "arch \<Rightarrow> thread_state \<Rightarrow> bool" where
  "state_of_target Arm64 (ArmTS s) \<longleftrightarrow> length (arm_x s) = 29"
| "state_of_target X86_64 (X86TS s) \<longleftrightarrow> length (x86_rax_to_rsi s) = 6 \<and>
     length (x86_r8_to_r15 s) = 8 \<and> length (x86_cs_fs_gs s) = 3"
| "state_of_target _ _ \<longleftrightarrow> False"

fun exception_of_target :: "arch \<Rightarrow> exception_state \<Rightarrow> bool" where
  "exception_of_target Arm64 (ArmES e) \<longleftrightarrow> True"
| "exception_of_target X86_64 (X86ES e) \<longleftrightarrow> True"
| "exception_of_target _ _ \<longleftrightarrow> False"

definition sizeof_thread_state :: "arch \<Rightarrow> nat" where
  "sizeof_thread_state t = (case t of X86_64 \<Rightarrow> 168 | Arm64 \<Rightarrow> 272)"

definition sizeof_exception_state :: nat where
  "sizeof_exception_state = 16"

definition RegSetKind_GPR :: "arch \<Rightarrow> u32" where
  "RegSetKind_GPR t = (case t of X86_64 \<Rightarrow> 4 | Arm64 \<Rightarrow> 6)"

definition RegSetKind_EXC :: "arch \<Rightarrow> u32" where
  "RegSetKind_EXC t = (case t of X86_64 \<Rightarrow> 6 | Arm64 \<Rightarrow> 7)"

record GPR =
  gpr_kind :: u32
  gpr_nWordCount :: u32
  gpr :: thread_state

record EXC =
  exc_kind :: u32
  exc_nWordCount :: u32
  exc :: exception_state

definition make_GPR :: "arch \<Rightarrow> thread_state \<Rightarrow> GPR" where
  "make_GPR t ts =
     \<lparr>gpr_kind = RegSetKind_GPR t, gpr_nWordCount = of_nat (sizeof_thread_state t div 4), gpr = ts\<rparr>"

definition make_EXC :: "arch \<Rightarrow> exception_state \<Rightarrow> EXC" where
  "make_EXC t es =
     \<lparr>exc_kind = RegSetKind_EXC t, exc_nWordCount = of_nat (sizeof_exception_state div 4), exc = es\<rparr>"

definition enc_GPR :: "GPR \<Rightarrow> bytes" where
  "enc_GPR g = le32 (gpr_kind g) @ le32 (gpr_nWordCount g) @ enc_thread_state (gpr g)"

definition enc_EXC :: "EXC \<Rightarrow> bytes" where
  "enc_EXC e = le32 (exc_kind e) @ le32 (exc_nWordCount e) @ enc_exception_state (exc e)"

lemma length_concat_le64 [simp]: "length (concat (map le64 xs)) = 8 * length xs"
  by (induction xs) simp_all

lemma length_enc_thread_state:
  "state_of_target t s \<Longrightarrow> length (enc_thread_state s) = sizeof_thread_state t"
  by (cases t; cases s) (simp_all add: sizeof_thread_state_def)

lemma length_enc_exception_state [simp, len_simps]: "length (enc_exception_state e) = 16"
  by (cases e) simp_all

text \<open>The word count of a register set is the size of its state in 32-bit words.\<close>

lemma word_counts:
  assumes "state_of_target t ts"
  shows "4 * unat (gpr_nWordCount (make_GPR t ts)) = length (enc_thread_state ts)"
    and "4 * unat (exc_nWordCount (make_EXC t es)) = length (enc_exception_state es)"
  using length_enc_thread_state [OF assms]
  by (cases t; simp add: make_GPR_def make_EXC_def sizeof_thread_state_def sizeof_exception_state_def)+

subsection \<open>Pointers\<close>

record Pointer =
  ptr_bytes :: bytes
  WidthInBytes :: nat

definition new_Pointer :: "'z mem_kernel_scheme \<Rightarrow> u64 \<Rightarrow> Pointer res" where
  "new_Pointer K p =
     rbind (MakeUniqueArray K 8 1) (\<lambda>_. Inr \<lparr>ptr_bytes = le64 p, WidthInBytes = 8\<rparr>)"

definition new_Pointer_of_width :: "'z mem_kernel_scheme \<Rightarrow> nat \<Rightarrow> bytes \<Rightarrow> Pointer res" where
  "new_Pointer_of_width K width ptrIn =
     rbind (MakeUniqueArray K (of_nat width) 1) (\<lambda>_.
     rbind (read_at ptrIn 0 width) (\<lambda>d. Inr \<lparr>ptr_bytes = d, WidthInBytes = width\<rparr>))"

text \<open>
  \<open>As\<close> copies over an uninitialised \<open>result\<close>; \<open>u\<close> is what its bytes were. A width above
  that of the result would run past it.
\<close>

definition AsUIntPtr :: "config \<Rightarrow> bytes \<Rightarrow> Pointer \<Rightarrow> u64 res" where
  "AsUIntPtr cfg u p =
     rbind (cpp_assert cfg (WidthInBytes p \<le> 8)) (\<lambda>_.
     rbind (read_at (ptr_bytes p) 0 (WidthInBytes p)) (\<lambda>d.
     rbind (poke (take 8 u) 0 d) (\<lambda>result. Inr (le_word result))))"

definition BasePointer :: "'z mem_kernel_scheme \<Rightarrow> GPR \<Rightarrow> Pointer res" where
  "BasePointer K g = new_Pointer K (case gpr g of ArmTS s \<Rightarrow> arm_fp s | X86TS s \<Rightarrow> x86_rbp s)"

definition InstructionPointer :: "'z mem_kernel_scheme \<Rightarrow> GPR \<Rightarrow> Pointer res" where
  "InstructionPointer K g = new_Pointer K (case gpr g of ArmTS s \<Rightarrow> arm_pc s | X86TS s \<Rightarrow> x86_rip s)"

definition StackPointer :: "'z mem_kernel_scheme \<Rightarrow> GPR \<Rightarrow> Pointer res" where
  "StackPointer K g = new_Pointer K (case gpr g of ArmTS s \<Rightarrow> arm_sp s | X86TS s \<Rightarrow> x86_rsp s)"

definition AddressWidthInBytes :: "GPR \<Rightarrow> nat" where
  "AddressWidthInBytes g = 8"

lemma new_Pointer_As:
  assumes "new_Pointer K p = Inr q" and "length u = 8"
  shows "AsUIntPtr cfg u q = Inr p"
proof -
  have q: "q = \<lparr>ptr_bytes = le64 p, WidthInBytes = 8\<rparr>"
    using assms(1) by (auto simp: new_Pointer_def rbind_eq_Inr)
  show ?thesis
    using assms(2) by (simp add: q AsUIntPtr_def poke_def patch_def)
qed

subsection \<open>Capturing a thread\<close>

text \<open>The calls that \<open>ThreadInfo\<close> makes on its thread, and what they answer.\<close>

datatype thread_call = Suspend | GetGPR | GetEXC | Resume

record thread_answers =
  suspend_ok :: bool
  gpr_answer :: "thread_state option"
  exc_answer :: "exception_state option"

record ThreadInfo =
  suspendWhileInspecting :: bool
  healthy :: bool
  ti_gpr :: "GPR option" \<comment> \<open>\<open>None\<close> while uninitialised\<close>
  ti_exc :: "EXC option"

definition new_ThreadInfo :: "arch \<Rightarrow> thread_answers \<Rightarrow> bool \<Rightarrow> ThreadInfo \<times> thread_call list" where
  "new_ThreadInfo t A susp =
     (let ti = \<lparr>suspendWhileInspecting = susp, healthy = False, ti_gpr = None, ti_exc = None\<rparr>;
          calls = (if susp then [Suspend] else [])
      in if susp \<and> \<not> suspend_ok A then (ti, calls)
         else case gpr_answer A of
           None \<Rightarrow> (ti, calls @ [GetGPR])
         | Some ts \<Rightarrow>
             (case exc_answer A of
                None \<Rightarrow> (ti, calls @ [GetGPR, GetEXC])
              | Some es \<Rightarrow>
                  (ti\<lparr>healthy := True, ti_gpr := Some (make_GPR t ts), ti_exc := Some (make_EXC t es)\<rparr>,
                   calls @ [GetGPR, GetEXC])))"

definition delete_ThreadInfo :: "ThreadInfo \<Rightarrow> thread_call list" where
  "delete_ThreadInfo ti = (if suspendWhileInspecting ti then [Resume] else [])"

lemma ThreadInfo_calls:
  assumes "new_ThreadInfo t A susp = (ti, calls)"
  shows "count_list (calls @ delete_ThreadInfo ti) Suspend = (if susp then 1 else 0)"
    and "count_list (calls @ delete_ThreadInfo ti) Resume = (if susp then 1 else 0)"
    and "healthy ti \<longleftrightarrow> (susp \<longrightarrow> suspend_ok A) \<and> gpr_answer A \<noteq> None \<and> exc_answer A \<noteq> None"
  using assms
  by (auto simp: new_ThreadInfo_def delete_ThreadInfo_def Let_def split: if_splits option.splits)

end
