(* ===== verification/StackWalk.thy ===== *)
theory StackWalk
  imports StackFrame MemoryRegionList CoreInternal
begin

text \<open>
  \<open>StackWalk.cpp\<close>: the return addresses of a thread, from the chain of saved frame pointers
  in the memory of the task. On arm64 the top function may have no frame of its own; the walk
  decides that from the kind of exception, the instruction before the return address, the
  unwind information and the instruction before the program counter. The instruction
  \<open>xpaci\<close>, which strips the authentication bits of a pointer, is a parameter.
\<close>

text \<open>
  Appending to a \<open>Vector\<close>: the zone must have a block that holds the elements. (The growth
  policy of the standard library may ask for a longer block, and less often.)
\<close>

definition push_back :: "'z mem_kernel_scheme \<Rightarrow> nat \<Rightarrow> 'a list \<Rightarrow> 'a \<Rightarrow> 'a list res" where
  "push_back K size_of_T v x =
     rbind (require BadAlloc (malloc_ok K (of_nat (size_of_T * Suc (length v))))) (\<lambda>_. Inr (v @ [x]))"

subsection \<open>Decoding\<close>

definition StripPACFromPointer :: "config \<Rightarrow> (u64 \<Rightarrow> u64) \<Rightarrow> u64 \<Rightarrow> u64" where
  "StripPACFromPointer cfg xpaci ip = (case target cfg of X86_64 \<Rightarrow> ip | Arm64 \<Rightarrow> xpaci ip)"

definition DerefPtr :: "config \<Rightarrow> 'z mem_kernel_scheme \<Rightarrow> u64 \<Rightarrow> u64 res" where
  "DerefPtr cfg K p =
     rbind (cpp_assert cfg (p \<noteq> 0)) (\<lambda>_. Inr (case read_u64 K p of None \<Rightarrow> 0 | Some v \<Rightarrow> v))"

definition ExceptionMightBeControlTransferRelated :: "u32 \<Rightarrow> bool" where
  "ExceptionMightBeControlTransferRelated esr =
     (let exceptionClass = drop_bit 26 esr AND 0x3F
      in exceptionClass = 0x20 \<or> exceptionClass = 0x24)"

definition is_BL_kind :: "u32 \<Rightarrow> bool" where
  "is_BL_kind instruction =
     (let blOpcode = drop_bit 26 instruction AND 63;
          blrOpcode = drop_bit 10 instruction AND 4194303;
          blraOpcode = drop_bit 11 instruction AND 2088959
      in if blOpcode = 37 then True
         else if blrOpcode = 3510208 then True
         else blraOpcode = 1755105)"

definition IsPreviousInstructionBLKind :: "'z mem_kernel_scheme \<Rightarrow> u64 \<Rightarrow> bool" where
  "IsPreviousInstructionBLKind K instructionPointer =
     (case read_u32 K (instructionPointer - 4) of None \<Rightarrow> False | Some instruction \<Rightarrow> is_BL_kind instruction)"

definition is_SVC :: "u32 \<Rightarrow> bool" where
  "is_SVC instruction \<longleftrightarrow> drop_bit 21 instruction AND 0x7FF = 1696"

definition IsPreviousInstructionSVC :: "'z mem_kernel_scheme \<Rightarrow> u64 \<Rightarrow> bool" where
  "IsPreviousInstructionSVC K instructionPointer =
     (case read_u32 K (instructionPointer - 4) of None \<Rightarrow> False | Some instruction \<Rightarrow> is_SVC instruction)"

subsection \<open>Whether the top function has a frame\<close>

definition ip_not_executable :: "MemoryRegions \<Rightarrow> u64 \<Rightarrow> bool" where
  "ip_not_executable memoryRegions ip =
     (case GetRegionInfoForAddress memoryRegions ip of
        None \<Rightarrow> True
      | Some regionInfo \<Rightarrow> prot regionInfo AND MemProtExecute = 0)"

definition top_pc_no_frame ::
  "config \<Rightarrow> 'z mem_kernel_scheme \<Rightarrow> unwind_abi \<Rightarrow> MemoryRegions \<Rightarrow> ModuleInfos \<Rightarrow>
     arm_thread_state64 \<Rightarrow> arm_exception_state64 \<Rightarrow> u64 \<Rightarrow> bool res"
where
  "top_pc_no_frame cfg K U memoryRegions moduleList ts es ip =
     (if ExceptionMightBeControlTransferRelated (arm_esr es) \<and> ip_not_executable memoryRegions ip \<and>
         IsPreviousInstructionBLKind K (arm_lr ts)
      then Inr True
      else rbind (LookupStackFrameForPC cfg K U moduleList ip) (\<lambda>r.
        Inr ((if r = StackFrameLookupResult.Unknown \<and> IsPreviousInstructionSVC K ip then Frameless else r)
               = Frameless)))"

subsection \<open>The walk\<close>

text \<open>
  The loop \<open>while (true)\<close>. \<open>frameIndex\<close> counts the elements that the loop has appended, so
  that it does not reach the end of its range before memory does. Not returning is \<open>None\<close>.
\<close>

partial_function (option) walk_loop ::
  "config \<Rightarrow> 'z mem_kernel_scheme \<Rightarrow> (u64 \<Rightarrow> u64) \<Rightarrow> u64 \<Rightarrow> bool \<Rightarrow> nat \<Rightarrow> u64 \<Rightarrow> u64 list \<Rightarrow> u64 list res option"
where
  "walk_loop cfg K xpaci lr topPCNoStackFrame frameIndex prevBasePointer result =
     (let top = topPCNoStackFrame \<and> frameIndex = 0 in
      case (if top then Inr lr else DerefPtr cfg K (prevBasePointer + 8)) of
        Inl e \<Rightarrow> Some (Inl e)
      | Inr nextInstructionPointer \<Rightarrow>
          (case (if top then Inr prevBasePointer else DerefPtr cfg K prevBasePointer) of
             Inl e \<Rightarrow> Some (Inl e)
           | Inr nextBasePointer \<Rightarrow>
               if nextBasePointer = 0 then Some (Inr result)
               else case push_back K 8 result (StripPACFromPointer cfg xpaci nextInstructionPointer) of
                 Inl e \<Rightarrow> Some (Inl e)
               | Inr result \<Rightarrow>
                   walk_loop cfg K xpaci lr topPCNoStackFrame (Suc frameIndex) nextBasePointer result))"

declare walk_loop.simps [code]

definition WalkStack ::
  "config \<Rightarrow> 'z mem_kernel_scheme \<Rightarrow> unwind_abi \<Rightarrow> (u64 \<Rightarrow> u64) \<Rightarrow> bytes \<Rightarrow> MemoryRegions \<Rightarrow> ModuleInfos \<Rightarrow>
     GPR \<Rightarrow> EXC \<Rightarrow> u64 list res"
where
  "WalkStack cfg K U xpaci u memoryRegions moduleList g e =
     rbind (BasePointer K g) (\<lambda>bp. rbind (AsUIntPtr cfg u bp) (\<lambda>basePointer.
     rbind (InstructionPointer K g) (\<lambda>ip. rbind (AsUIntPtr cfg u ip) (\<lambda>instructionPointer.
       if basePointer = 0 then Inr []
       else
         rbind (push_back K 8 [] (StripPACFromPointer cfg xpaci instructionPointer)) (\<lambda>result.
         rbind (case (gpr g, exc e) of
                  (ArmTS ts, ArmES es) \<Rightarrow>
                    rbind (top_pc_no_frame cfg K U memoryRegions moduleList ts es instructionPointer)
                      (\<lambda>top. Inr (top, arm_lr ts))
                | _ \<Rightarrow> Inr (False, 0)) (\<lambda>(topPCNoStackFrame, lr).
         case walk_loop cfg K xpaci lr topPCNoStackFrame 0 basePointer result of
           None \<Rightarrow> Inl Diverges
         | Some r \<Rightarrow> r))))))"

subsection \<open>Chains of frames\<close>

text \<open>
  The frame record at \<open>fp\<close>: the saved frame pointer and the return address. A chain ends at
  the record whose saved frame pointer is 0 or cannot be read.
\<close>

definition deref :: "'z mem_kernel_scheme \<Rightarrow> u64 \<Rightarrow> u64" where
  "deref K p = (case read_u64 K p of None \<Rightarrow> 0 | Some v \<Rightarrow> v)"

fun chain :: "'z mem_kernel_scheme \<Rightarrow> u64 \<Rightarrow> u64 list \<Rightarrow> bool" where
  "chain K fp [] \<longleftrightarrow> deref K fp = 0"
| "chain K fp (ra # ras) \<longleftrightarrow> deref K fp \<noteq> 0 \<and> deref K (fp + 8) = ra \<and> chain K (deref K fp) ras"

lemma DerefPtr_deref: "ndebug cfg \<or> p \<noteq> 0 \<Longrightarrow> DerefPtr cfg K p = Inr (deref K p)"
  by (simp add: DerefPtr_def deref_def cpp_assert_def require_def)

subsection \<open>What the decoders accept\<close>









subsection \<open>The walk follows the chain\<close>

text \<open>The addresses dereferenced are not 0, or the assertions are compiled away.\<close>

fun addresses_ok :: "config \<Rightarrow> 'z mem_kernel_scheme \<Rightarrow> u64 \<Rightarrow> u64 list \<Rightarrow> bool" where
  "addresses_ok cfg K fp [] \<longleftrightarrow> ndebug cfg \<or> fp + 8 \<noteq> 0"
| "addresses_ok cfg K fp (ra # ras) \<longleftrightarrow> (ndebug cfg \<or> fp + 8 \<noteq> 0) \<and> addresses_ok cfg K (deref K fp) ras"

definition vectors_ok :: "'z mem_kernel_scheme \<Rightarrow> nat \<Rightarrow> bool" where
  "vectors_ok K n \<longleftrightarrow> list_all (\<lambda>i. malloc_ok K (of_nat (8 * Suc i))) [0..<n]"

lemma push_back_ok: "vectors_ok K n \<Longrightarrow> length v < n \<Longrightarrow> push_back K 8 v x = Inr (v @ [x])"
  by (simp add: push_back_def vectors_ok_def list_all_iff)

lemma walk_loop_chain:
  assumes "chain K fp ras" and "fp \<noteq> 0" and "addresses_ok cfg K fp ras"
    and "vectors_ok K (length acc + length ras)" and "\<not> (tp \<and> i = 0)"
  shows "walk_loop cfg K xpaci lr tp i fp acc =
    Some (Inr (acc @ map (StripPACFromPointer cfg xpaci) ras))"
  using assms
proof (induction ras arbitrary: fp acc i)
  case Nil
  then show ?case by (subst walk_loop.simps) (auto simp: DerefPtr_deref Let_def)
next
  case (Cons ra ras)
  have "walk_loop cfg K xpaci lr tp (Suc i) (deref K fp) (acc @ [StripPACFromPointer cfg xpaci ra]) =
      Some (Inr ((acc @ [StripPACFromPointer cfg xpaci ra]) @ map (StripPACFromPointer cfg xpaci) ras))"
    by (rule Cons.IH) (use Cons.prems in simp_all)
  moreover have "push_back K 8 acc (StripPACFromPointer cfg xpaci ra) = Inr (acc @ [StripPACFromPointer cfg xpaci ra])"
    using Cons.prems(4) by (rule push_back_ok) simp
  ultimately show ?case
    using Cons.prems by (subst walk_loop.simps) (auto simp: DerefPtr_deref Let_def)
qed

text \<open>The top function without a frame: the return address is in the link register.\<close>

lemma walk_loop_chain_frameless:
  assumes "chain K fp ras" and "fp \<noteq> 0" and "addresses_ok cfg K fp ras"
    and "vectors_ok K (Suc (length acc) + length ras)"
  shows "walk_loop cfg K xpaci lr True 0 fp acc =
    Some (Inr (acc @ map (StripPACFromPointer cfg xpaci) (lr # ras)))"
proof -
  have "push_back K 8 acc (StripPACFromPointer cfg xpaci lr) = Inr (acc @ [StripPACFromPointer cfg xpaci lr])"
    using assms(4) by (rule push_back_ok) simp
  moreover have "walk_loop cfg K xpaci lr True (Suc 0) fp (acc @ [StripPACFromPointer cfg xpaci lr]) =
      Some (Inr ((acc @ [StripPACFromPointer cfg xpaci lr]) @ map (StripPACFromPointer cfg xpaci) ras))"
    by (rule walk_loop_chain) (use assms in simp_all)
  ultimately show ?thesis using assms(2) by (subst walk_loop.simps) (simp add: Let_def)
qed

text \<open>Only chains let the walk return.\<close>

lemma DerefPtr_eq_Inr: "DerefPtr cfg K p = Inr v \<Longrightarrow> v = deref K p"
  by (auto simp: DerefPtr_def deref_def rbind_eq_Inr)

lemma walk_loop_returns:
  assumes "walk_loop cfg K xpaci lr tp i fp acc = Some (Inr r)" and "fp \<noteq> 0"
  shows "\<exists>ras. chain K fp ras"
proof -
  have "\<forall>r. y = Inr r \<longrightarrow> fp \<noteq> 0 \<longrightarrow> (\<exists>ras. chain K fp ras)"
    if "walk_loop cfg K xpaci lr tp i fp acc = Some y" for y
  proof (rule walk_loop.raw_induct
      [where P = "\<lambda>cfg K xpaci lr tp i fp acc y. \<forall>r. y = Inr r \<longrightarrow> fp \<noteq> 0 \<longrightarrow> (\<exists>ras. chain K fp ras)", OF _ that])
    fix loop cfg' and K' :: "'a mem_kernel_scheme" and xpaci' lr' tp' i' fp' acc' y'
    assume IH: "\<And>cfg K xpaci lr tp i fp acc y. loop cfg K xpaci lr tp i fp acc = Some y \<Longrightarrow>
        \<forall>r. y = Inr r \<longrightarrow> fp \<noteq> 0 \<longrightarrow> (\<exists>ras. chain (K :: 'a mem_kernel_scheme) fp ras)"
      and eq: "(let top = tp' \<and> i' = 0 in
        case (if top then Inr lr' else DerefPtr cfg' K' (fp' + 8)) of
          Inl e \<Rightarrow> Some (Inl e)
        | Inr nip \<Rightarrow> (case (if top then Inr fp' else DerefPtr cfg' K' fp') of
            Inl e \<Rightarrow> Some (Inl e)
          | Inr nbp \<Rightarrow> if nbp = 0 then Some (Inr acc')
              else case push_back K' 8 acc' (StripPACFromPointer cfg' xpaci' nip) of
                Inl e \<Rightarrow> Some (Inl e)
              | Inr result \<Rightarrow> loop cfg' K' xpaci' lr' tp' (Suc i') nbp result)) = Some y'"
    show "\<forall>r. y' = Inr r \<longrightarrow> fp' \<noteq> 0 \<longrightarrow> (\<exists>ras. chain K' fp' ras)"
    proof (intro allI impI)
      fix r assume y': "y' = Inr r" and "fp' \<noteq> 0"
      show "\<exists>ras. chain K' fp' ras"
      proof (cases "tp' \<and> i' = 0")
        case True
        then obtain result where "loop cfg' K' xpaci' lr' tp' (Suc i') fp' result = Some (Inr r)"
          using eq \<open>fp' \<noteq> 0\<close> y' by (auto simp: Let_def split: sum.splits)
        then show ?thesis using IH \<open>fp' \<noteq> 0\<close> by blast
      next
        case False
        show ?thesis
        proof (cases "deref K' fp' = 0")
          case True
          then have "chain K' fp' []" by simp
          then show ?thesis ..
        next
          case nz: False
          obtain result where "loop cfg' K' xpaci' lr' tp' (Suc i') (deref K' fp') result = Some (Inr r)"
            using eq nz y' False by (auto simp: Let_def split: sum.splits dest!: DerefPtr_eq_Inr)
          then obtain ras where "chain K' (deref K' fp') ras" using IH nz by blast
          then have "chain K' fp' (deref K' (fp' + 8) # ras)" using nz by simp
          then show ?thesis ..
        qed
      qed
    qed
  qed
  with assms show ?thesis by blast
qed

subsection \<open>The walk of a thread\<close>

definition frame_pointer :: "GPR \<Rightarrow> u64" where
  "frame_pointer g = (case gpr g of ArmTS s \<Rightarrow> arm_fp s | X86TS s \<Rightarrow> x86_rbp s)"

definition program_counter :: "GPR \<Rightarrow> u64" where
  "program_counter g = (case gpr g of ArmTS s \<Rightarrow> arm_pc s | X86TS s \<Rightarrow> x86_rip s)"

text \<open>The caller of a top function without a frame, or nothing.\<close>

definition frameless_caller ::
  "config \<Rightarrow> 'z mem_kernel_scheme \<Rightarrow> unwind_abi \<Rightarrow> MemoryRegions \<Rightarrow> ModuleInfos \<Rightarrow> GPR \<Rightarrow> EXC \<Rightarrow> u64 list res"
where
  "frameless_caller cfg K U memoryRegions moduleList g e =
     (case (gpr g, exc e) of
        (ArmTS ts, ArmES es) \<Rightarrow>
          rbind (top_pc_no_frame cfg K U memoryRegions moduleList ts es (program_counter g)) (\<lambda>t.
            Inr (if t then [arm_lr ts] else []))
      | _ \<Rightarrow> Inr [])"

lemma new_Pointer_then:
  assumes "malloc_ok K 8" and "length u = 8"
  shows "rbind (new_Pointer K p) (\<lambda>q. rbind (AsUIntPtr cfg u q) f) = f p"
proof -
  obtain q where "new_Pointer K p = Inr q"
    using assms(1) by (auto simp: new_Pointer_def MakeUniqueArray_def)
  moreover from this have "AsUIntPtr cfg u q = Inr p" using assms(2) by (rule new_Pointer_As)
  ultimately show ?thesis by simp
qed

definition stack_pointer :: "GPR \<Rightarrow> u64" where
  "stack_pointer g = (case gpr g of ArmTS s \<Rightarrow> arm_sp s | X86TS s \<Rightarrow> x86_rsp s)"

lemma registers:
  assumes "malloc_ok K 8" and "length u = 8"
  shows "rbind (BasePointer K g) (\<lambda>p. rbind (AsUIntPtr cfg u p) f) = f (frame_pointer g)"
    and "rbind (InstructionPointer K g) (\<lambda>p. rbind (AsUIntPtr cfg u p) f') = f' (program_counter g)"
    and "rbind (StackPointer K g) (\<lambda>p. rbind (AsUIntPtr cfg u p) f'') = f'' (stack_pointer g)"
  by (simp_all add: BasePointer_def InstructionPointer_def StackPointer_def frame_pointer_def
      program_counter_def stack_pointer_def new_Pointer_then [OF assms])

lemma WalkStack_unfold:
  assumes "malloc_ok K 8" and "length u = 8"
  shows "WalkStack cfg K U xpaci u rs ms g e =
    (if frame_pointer g = 0 then Inr []
     else rbind (push_back K 8 [] (StripPACFromPointer cfg xpaci (program_counter g))) (\<lambda>result.
       rbind (frameless_caller cfg K U rs ms g e) (\<lambda>lrs.
         case walk_loop cfg K xpaci (case lrs of [] \<Rightarrow> (case gpr g of ArmTS ts \<Rightarrow> (case exc e of ArmES _ \<Rightarrow> arm_lr ts | _ \<Rightarrow> 0) | _ \<Rightarrow> 0) | lr # _ \<Rightarrow> lr)
                (lrs \<noteq> []) 0 (frame_pointer g) result of
           None \<Rightarrow> Inl Diverges | Some r \<Rightarrow> r)))"
  unfolding WalkStack_def registers [OF assms] frameless_caller_def
  by (simp add: rbind_def split: thread_state.split exception_state.split sum.split)

lemma WalkStack_chain:
  assumes "malloc_ok K 8" and "length u = 8" and "frame_pointer g \<noteq> 0"
    and "frameless_caller cfg K U rs ms g e = Inr lrs"
    and "chain K (frame_pointer g) ras" and "addresses_ok cfg K (frame_pointer g) ras"
    and "vectors_ok K (Suc (length lrs + length ras))"
  shows "WalkStack cfg K U xpaci u rs ms g e =
    Inr (map (StripPACFromPointer cfg xpaci) (program_counter g # lrs @ ras))"
proof -
  let ?f = "StripPACFromPointer cfg xpaci"
  have first: "push_back K 8 [] (?f (program_counter g)) = Inr [?f (program_counter g)]"
    using assms(7) push_back_ok [of K _ "[]"] by fastforce
  have "lrs = [] \<or> (\<exists>lr. lrs = [lr])"
    using assms(4) by (auto simp: frameless_caller_def rbind_eq_Inr split: thread_state.splits exception_state.splits)
  then show ?thesis
    using assms(3-7) walk_loop_chain [OF assms(5,3,6), where acc = "[?f (program_counter g)]" and tp = False]
      walk_loop_chain_frameless [OF assms(5,3,6), where acc = "[?f (program_counter g)]"]
    by (auto simp: WalkStack_unfold [OF assms(1,2)] first)
qed

text \<open>A chain of saved frame pointers ends at the first that is 0.\<close>

fun frames :: "'z mem_kernel_scheme \<Rightarrow> u64 \<Rightarrow> nat \<Rightarrow> u64 list" where
  "frames K fp 0 = []"
| "frames K fp (Suc n) = (if deref K fp = 0 then [] else deref K (fp + 8) # frames K (deref K fp) n)"

lemma chain_exists: "(deref K ^^ n) fp = 0 \<Longrightarrow> fp \<noteq> 0 \<Longrightarrow> chain K fp (frames K fp n)"
proof (induction n arbitrary: fp)
  case (Suc n)
  have "(deref K ^^ n) (deref K fp) = 0" using Suc.prems(1) by (simp add: funpow_swap1)
  then show ?case using Suc.IH by simp
qed simp

lemma chain_ends: "chain K fp ras \<Longrightarrow> \<exists>n. (deref K ^^ n) fp = 0"
proof (induction K fp ras rule: chain.induct)
  case (1 K fp)
  then show ?case by (intro exI [of _ 1]) simp
next
  case (2 K fp ra ras)
  then obtain n where "(deref K ^^ n) (deref K fp) = 0" by auto
  then show ?case by (intro exI [of _ "Suc n"]) (simp add: funpow_swap1)
qed

text \<open>
  An intact stack: from each frame record on the chain the saved pointer leads at least one record
  (16 bytes) further up, and stays below the end of the stack. Only the records that the chain
  visits are spoken of; the other words of the stack may hold anything.
\<close>

definition stack_intact :: "'z mem_kernel_scheme \<Rightarrow> u64 \<Rightarrow> nat \<Rightarrow> bool" where
  "stack_intact K fp hi \<longleftrightarrow> (\<forall>n. let a = (deref K ^^ n) fp in
     a \<noteq> 0 \<longrightarrow> deref K a \<noteq> 0 \<longrightarrow> unat a + 16 \<le> unat (deref K a) \<and> unat (deref K a) < hi)"

lemma stack_intact_deref: "stack_intact K fp hi \<Longrightarrow> stack_intact K (deref K fp) hi"
proof -
  assume intact: "stack_intact K fp hi"
  have "(deref K ^^ n) (deref K fp) = (deref K ^^ Suc n) fp" for n by (simp add: funpow_swap1)
  with intact show ?thesis unfolding stack_intact_def by metis
qed

lemma stack_intact_first:
  "stack_intact K fp hi \<Longrightarrow> fp \<noteq> 0 \<Longrightarrow> deref K fp \<noteq> 0 \<Longrightarrow>
     unat fp + 16 \<le> unat (deref K fp) \<and> unat (deref K fp) < hi"
  unfolding stack_intact_def Let_def by (drule spec [of _ 0]) simp

lemma intact_stack_chain:
  assumes "stack_intact K fp hi" and "fp \<noteq> 0"
  shows "\<exists>ras. chain K fp ras \<and> length ras \<le> (hi - unat fp) div 16"
  using assms
proof (induction "hi - unat fp" arbitrary: fp rule: less_induct)
  case less
  show ?case
  proof (cases "deref K fp = 0")
    case True
    then show ?thesis by (intro exI [of _ "[]"]) simp
  next
    case False
    have up: "unat fp + 16 \<le> unat (deref K fp)" "unat (deref K fp) < hi"
      using stack_intact_first [OF less.prems False] by simp_all
    then have "hi - unat (deref K fp) < hi - unat fp" by linarith
    from less.hyps [OF this stack_intact_deref [OF less.prems(1)] False]
    obtain ras where ras: "chain K (deref K fp) ras" "length ras \<le> (hi - unat (deref K fp)) div 16"
      by blast
    moreover have "Suc ((hi - unat (deref K fp)) div 16) \<le> (hi - unat fp) div 16"
      using up div_le_mono [of "hi - unat (deref K fp) + 16" "hi - unat fp" 16] by simp
    ultimately show ?thesis
      using False by (intro exI [of _ "deref K (fp + 8) # ras"]) simp
  qed
qed

lemma WalkStack_returns:
  assumes "malloc_ok K 8" and "length u = 8" and "WalkStack cfg K U xpaci u rs ms g e = Inr r"
  shows "\<exists>n. (deref K ^^ n) (frame_pointer g) = 0"
proof (cases "frame_pointer g = 0")
  case True
  then show ?thesis by (intro exI [of _ 0]) simp
next
  case False
  obtain lr tp acc where "walk_loop cfg K xpaci lr tp 0 (frame_pointer g) acc = Some (Inr r)"
    using assms(3) False unfolding WalkStack_unfold [OF assms(1,2)]
    by (auto simp: rbind_eq_Inr split: option.splits)
  from walk_loop_returns [OF this False] show ?thesis using chain_ends by blast
qed

lemma vectors_ok_mono: "m \<le> n \<Longrightarrow> vectors_ok K n \<Longrightarrow> vectors_ok K m"
  by (auto simp: vectors_ok_def list_all_iff)

lemma frameless_caller_length: "frameless_caller cfg K U rs ms g e = Inr lrs \<Longrightarrow> length lrs \<le> 1"
  by (auto simp: frameless_caller_def rbind_eq_Inr split: thread_state.splits exception_state.splits)

lemma addresses_ok_ndebug: "ndebug cfg \<Longrightarrow> addresses_ok cfg K fp ras"
  by (induction ras arbitrary: fp) simp_all

lemma WalkStack_returns_if:
  assumes "\<forall>n. malloc_ok K n" and "length u = 8" and "ndebug cfg"
    and "frameless_caller cfg K U rs ms g e = Inr lrs"
    and "(deref K ^^ n) (frame_pointer g) = 0"
  shows "\<exists>r. WalkStack cfg K U xpaci u rs ms g e = Inr r"
proof (cases "frame_pointer g = 0")
  case True
  then show ?thesis using assms(1,2) by (simp add: WalkStack_unfold)
next
  case False
  have "vectors_ok K m" for m using assms(1) by (simp add: vectors_ok_def list_all_iff)
  then show ?thesis
    using WalkStack_chain [OF _ assms(2) False assms(4) chain_exists [OF assms(5) False] addresses_ok_ndebug [OF assms(3)]]
      assms(1) by blast
qed

subsection \<open>A concrete stack\<close>

text \<open>
  Two frame records and, behind them, a supervisor call; and a frame record that points to
  itself.
\<close>

definition demo_stack_kernel :: mem_kernel where
  "demo_stack_kernel = flat_kernel 0x2000
     (le64 0x2010 @ le64 0x550000001111 @ le64 0 @ le64 0x2222 @ le32 0xD4001001)"

definition demo_loop_kernel :: mem_kernel where
  "demo_loop_kernel = flat_kernel 0x2000 (le64 0x2000 @ le64 0x1111)"

definition demo_gpr :: "u64 \<Rightarrow> GPR" where
  "demo_gpr pc = make_GPR Arm64 (ArmTS
     \<lparr>arm_x = replicate 29 0, arm_fp = 0x2000, arm_lr = 0x7777, arm_sp = 0x1FF0, arm_pc = pc,
      arm_cpsr = 0, arm_flags = 0\<rparr>)"

definition demo_exc :: EXC where
  "demo_exc = make_EXC Arm64 (ArmES \<lparr>arm_far = 0, arm_esr = 0, arm_exception = 0\<rparr>)"

definition release_config :: config where
  "release_config = \<lparr>target = Arm64, ndebug = True, debug_checks = False\<rparr>"

lemma flat_kernel_malloc [simp]: "malloc_ok (flat_kernel b m) n"
  by (simp add: flat_kernel_def)

lemma demo_frame_pointer: "frame_pointer (demo_gpr pc) = 0x2000"
  by (simp add: frame_pointer_def demo_gpr_def make_GPR_def)

lemma demo_loop: "(deref demo_loop_kernel ^^ n) 0x2000 = 0x2000"
proof -
  have "deref demo_loop_kernel 0x2000 = 0x2000" by code_simp
  then show ?thesis by (induction n) simp_all
qed

subsection \<open>Properties\<close>

text \<open>C16. The walk of a thread gives, in order, the program counter, the link register when the top
  function has no frame of its own, and the return address of every frame record on the chain
  of saved frame pointers, all with their authentication bits stripped.\<close>

theorem stack_walk_follows_frames:
  assumes "malloc_ok K 8" and "length u = 8" and "frame_pointer g \<noteq> 0"
    and "frameless_caller cfg K U rs ms g e = Inr lrs"
    and "chain K (frame_pointer g) ras" and "addresses_ok cfg K (frame_pointer g) ras"
    and "vectors_ok K (Suc (length lrs + length ras))"
  shows "WalkStack cfg K U xpaci u rs ms g e =
    Inr (map (StripPACFromPointer cfg xpaci) (program_counter g # lrs @ ras))"
  by (rule WalkStack_chain [OF assms])

lemma stack_walk_follows_frames_witness:
  "WalkStack demo_config demo_stack_kernel demo_unwind_abi (\<lambda>p. p AND 0xFFFF) (replicate 8 1) [] []
     (demo_gpr 0x2024) demo_exc = Inr [0x2024, 0x7777, 0x1111]"
proof -
  have K: "malloc_ok demo_stack_kernel n" for n by (simp add: demo_stack_kernel_def)
  have caller: "frameless_caller demo_config demo_stack_kernel demo_unwind_abi [] [] (demo_gpr 0x2024) demo_exc = Inr [0x7777]"
    and chain: "chain demo_stack_kernel 0x2000 [0x550000001111]"
    and ok: "addresses_ok demo_config demo_stack_kernel 0x2000 [0x550000001111]" by code_simp+
  note walk = stack_walk_follows_frames [OF K _ _ caller, where ras = "[0x550000001111]"]
  show ?thesis
    by (rule trans [OF walk])
      (simp_all only: demo_frame_pointer chain ok, simp_all add: vectors_ok_def K program_counter_def demo_gpr_def make_GPR_def StripPACFromPointer_def demo_config_def)
qed

text \<open>C17. The walk returns exactly when the saved frame pointers reach 0: a frame record that leads
  back to itself or to an earlier one keeps the loop going until memory runs out.\<close>

theorem stack_walk_returns_iff_chain_ends:
  assumes "\<forall>n. malloc_ok K n" and "length u = 8" and "ndebug cfg"
    and "frameless_caller cfg K U rs ms g e = Inr lrs"
  shows "(\<exists>r. WalkStack cfg K U xpaci u rs ms g e = Inr r) \<longleftrightarrow> (\<exists>n. (deref K ^^ n) (frame_pointer g) = 0)"
proof
  assume "\<exists>r. WalkStack cfg K U xpaci u rs ms g e = Inr r"
  then show "\<exists>n. (deref K ^^ n) (frame_pointer g) = 0" using WalkStack_returns assms(1,2) by blast
next
  assume "\<exists>n. (deref K ^^ n) (frame_pointer g) = 0"
  then show "\<exists>r. WalkStack cfg K U xpaci u rs ms g e = Inr r"
    using WalkStack_returns_if [OF assms] by blast
qed

lemma stack_walk_returns_iff_chain_ends_witness:
  "\<nexists>r. WalkStack release_config demo_loop_kernel demo_unwind_abi id (replicate 8 1) [] []
     (demo_gpr 0x2008) demo_exc = Inr r"
proof -
  have K: "\<forall>n. malloc_ok demo_loop_kernel n" by (simp add: demo_loop_kernel_def)
  have caller: "frameless_caller release_config demo_loop_kernel demo_unwind_abi [] [] (demo_gpr 0x2008) demo_exc = Inr []"
    by code_simp
  have nd: "ndebug release_config" by (simp add: release_config_def)
  show ?thesis
    using stack_walk_returns_iff_chain_ends [OF K _ nd caller, of "replicate 8 1" id]
    by (simp add: demo_frame_pointer demo_loop)
qed

text \<open>C23. On a stack whose frame records lie one above the other the walk returns, also when nothing
  else of the stack is known: it gives at most one entry for the program counter, one for the
  link register and one for every 16 bytes between the first frame record and the end of the
  stack, and memory for that many entries is all that it needs.\<close>

theorem stack_walk_bounded_by_stack:
  assumes "malloc_ok K 8" and "length u = 8" and "ndebug cfg"
    and "frameless_caller cfg K U rs ms g e = Inr lrs"
    and "frame_pointer g \<noteq> 0" and "stack_intact K (frame_pointer g) hi"
    and "vectors_ok K (2 + (hi - unat (frame_pointer g)) div 16)"
  shows "\<exists>r. WalkStack cfg K U xpaci u rs ms g e = Inr r \<and>
    length r \<le> 2 + (hi - unat (frame_pointer g)) div 16"
proof -
  obtain ras where ras: "chain K (frame_pointer g) ras"
      "length ras \<le> (hi - unat (frame_pointer g)) div 16"
    using intact_stack_chain [OF assms(6,5)] by blast
  have "length lrs \<le> 1" by (rule frameless_caller_length [OF assms(4)])
  then have "Suc (length lrs + length ras) \<le> 2 + (hi - unat (frame_pointer g)) div 16" using ras(2) by simp
  moreover from this have "vectors_ok K (Suc (length lrs + length ras))"
    using assms(7) by (rule vectors_ok_mono)
  ultimately show ?thesis
    using WalkStack_chain [OF assms(1,2,5,4) ras(1) addresses_ok_ndebug [OF assms(3)]] by simp
qed

text \<open>
  Two frame records with local variables between them, one of which points to itself and one of
  which points down the stack.
\<close>

definition demo_locals_kernel :: mem_kernel where
  "demo_locals_kernel = flat_kernel 0x2000
     (le64 0x2020 @ le64 0x1111 @ le64 0x2010 @ le64 0x2000 @ le64 0 @ le64 0x2222)"

lemma demo_locals_intact: "stack_intact demo_locals_kernel 0x2000 0x2030"
proof -
  have d: "deref demo_locals_kernel 0x2000 = 0x2020" "deref demo_locals_kernel 0x2020 = 0"
    "deref demo_locals_kernel 0 = 0" by code_simp+
  have visited: "(deref demo_locals_kernel ^^ n) 0x2000 \<in> {0x2000, 0x2020, 0}" for n
    by (induction n) (auto simp: d)
  have "unat a + 16 \<le> unat (deref demo_locals_kernel a) \<and> unat (deref demo_locals_kernel a) < 0x2030"
    if "a \<in> {0x2000, 0x2020, 0}" "deref demo_locals_kernel a \<noteq> 0" for a
    using that by (auto simp: d)
  with visited show ?thesis unfolding stack_intact_def Let_def by blast
qed

lemma stack_walk_bounded_by_stack_witness:
  "\<exists>r. WalkStack release_config demo_locals_kernel demo_unwind_abi id
     (replicate 8 1) [] [] (demo_gpr 0x2008) demo_exc = Inr r \<and> length r \<le> 5"
proof -
  have caller: "frameless_caller release_config demo_locals_kernel demo_unwind_abi
      [] [] (demo_gpr 0x2008) demo_exc = Inr []"
    by code_simp
  have nd: "ndebug release_config" by (simp add: release_config_def)
  have K: "malloc_ok demo_locals_kernel n" for n by (simp add: demo_locals_kernel_def)
  show ?thesis
    using stack_walk_bounded_by_stack [OF K _ nd caller _ _, of "replicate 8 1" "0x2030" id]
      demo_locals_intact K by (simp add: demo_frame_pointer vectors_ok_def list_all_iff)
qed


end
