(* ===== verification/PortRef.thy ===== *)
theory PortRef
  imports Prelude
begin

text \<open>
  \<open>MachPortSendRightRef\<close>: a reference that owns one send right of a Mach port and releases it
  when it is reset or destroyed. Its operations return the calls they make on the kernel.
  Objects are slots of a list, so that moving from an object and aliasing (\<open>this == &other\<close>)
  are what they are in the code.
\<close>

type_synonym port = u32

definition MACH_PORT_NULL :: port where
  "MACH_PORT_NULL = 0"

text \<open>
  What the kernel sees of the library, in order. \<open>SendRight\<close> is a call that gives the library
  one right (\<open>mach_thread_self\<close>, and \<open>task_threads\<close> once per thread).
\<close>

datatype event =
    SendRight port
  | Deallocate port port \<comment> \<open>owning task, port\<close>
  | TaskSuspend
  | TaskResume
  | ThreadSuspend port
  | ThreadResume port
  | VmDeallocate

record SendRightRef =
  m_port :: port
  m_owningTask :: port

definition new_SendRightRef :: "port \<Rightarrow> port \<Rightarrow> SendRightRef" where
  [simp]: "new_SendRightRef p owningTask = \<lparr>m_port = p, m_owningTask = owningTask\<rparr>"

definition Wrap :: "port \<Rightarrow> port \<Rightarrow> SendRightRef" where
  "Wrap p owningTask = new_SendRightRef p owningTask"

definition Get :: "SendRightRef \<Rightarrow> port" where
  "Get r = m_port r"

definition Reset :: "port \<Rightarrow> port \<Rightarrow> SendRightRef \<Rightarrow> SendRightRef \<times> event list" where
  "Reset p owningTask r =
     (\<lparr>m_port = p, m_owningTask = owningTask\<rparr>,
      if m_port r \<noteq> MACH_PORT_NULL then [Deallocate (m_owningTask r) (m_port r)] else [])"

text \<open>The moving constructor: the new object, and the object moved from.\<close>

definition move_construct :: "SendRightRef \<Rightarrow> SendRightRef \<times> SendRightRef" where
  "move_construct other =
     (\<lparr>m_port = m_port other, m_owningTask = m_owningTask other\<rparr>, other\<lparr>m_port := MACH_PORT_NULL\<rparr>)"

definition Release :: "SendRightRef \<Rightarrow> port \<times> SendRightRef" where
  "Release r = (m_port r, r\<lparr>m_port := MACH_PORT_NULL\<rparr>)"

definition delete_SendRightRef :: "port \<Rightarrow> SendRightRef \<Rightarrow> event list" where
  "delete_SendRightRef self r = snd (Reset MACH_PORT_NULL self r)"

subsection \<open>Objects in memory\<close>

type_synonym objects = "SendRightRef option list" \<comment> \<open>\<open>None\<close>: no object lives in the slot\<close>

text \<open>The assignment by move, on two slots that may be the same.\<close>

definition move_assign :: "nat \<Rightarrow> nat \<Rightarrow> objects \<Rightarrow> (objects \<times> event list) option" where
  "move_assign this other os =
     (case (os ! this, os ! other) of
        (Some t, Some r) \<Rightarrow>
          if this \<noteq> other then
            let (t, evs) = Reset (m_port r) (m_owningTask r) t
            in Some (os[this := Some t, other := Some (r\<lparr>m_port := MACH_PORT_NULL\<rparr>)], evs)
          else Some (os, [])
      | _ \<Rightarrow> None)"

datatype right_op =
    OpWrap nat port port
  | OpMoveConstruct nat nat
  | OpMoveAssign nat nat
  | OpReset nat port port
  | OpRelease nat
  | OpDelete nat

text \<open>One operation; \<open>None\<close> for one that no program can make (a slot in use, no object).\<close>

fun right_step :: "port \<Rightarrow> right_op \<Rightarrow> objects \<Rightarrow> (objects \<times> event list) option" where
  "right_step self (OpWrap i p t) os =
     (if i < length os \<and> os ! i = None then Some (os[i := Some (Wrap p t)], []) else None)"
| "right_step self (OpMoveConstruct i j) os =
     (if i < length os \<and> j < length os \<and> os ! i = None then
        (case os ! j of
           None \<Rightarrow> None
         | Some r \<Rightarrow> let (n, r) = move_construct r in Some (os[i := Some n, j := Some r], []))
      else None)"
| "right_step self (OpMoveAssign i j) os =
     (if i < length os \<and> j < length os then move_assign i j os else None)"
| "right_step self (OpReset i p t) os =
     (if i < length os then
        (case os ! i of
           None \<Rightarrow> None
         | Some r \<Rightarrow> let (r, evs) = Reset p t r in Some (os[i := Some r], evs))
      else None)"
| "right_step self (OpRelease i) os =
     (if i < length os then
        (case os ! i of None \<Rightarrow> None | Some r \<Rightarrow> Some (os[i := Some (snd (Release r))], []))
      else None)"
| "right_step self (OpDelete i) os =
     (if i < length os then
        (case os ! i of None \<Rightarrow> None | Some r \<Rightarrow> Some (os[i := None], delete_SendRightRef self r))
      else None)"

fun right_steps :: "port \<Rightarrow> right_op list \<Rightarrow> objects \<Rightarrow> (objects \<times> event list) option" where
  "right_steps self [] os = Some (os, [])"
| "right_steps self (a # as) os =
     (case right_step self a os of
        None \<Rightarrow> None
      | Some (os, evs) \<Rightarrow>
          (case right_steps self as os of None \<Rightarrow> None | Some (os, evs') \<Rightarrow> Some (os, evs @ evs')))"

subsection \<open>Conservation of rights\<close>

definition holds :: "port \<Rightarrow> SendRightRef option \<Rightarrow> nat" where
  "holds p s = (case s of None \<Rightarrow> 0 | Some r \<Rightarrow> if m_port r = p then 1 else 0)"

definition held :: "port \<Rightarrow> objects \<Rightarrow> nat" where
  "held p os = sum_list (map (holds p) os)"

definition deallocated :: "port \<Rightarrow> event list \<Rightarrow> nat" where
  "deallocated p evs = length (filter (\<lambda>e. case e of Deallocate t q \<Rightarrow> q = p | _ \<Rightarrow> False) evs)"

text \<open>The rights that an operation puts under the care of an object, and takes away from it.\<close>

fun wrapped :: "port \<Rightarrow> right_op \<Rightarrow> nat" where
  "wrapped p (OpWrap i q t) = (if q = p then 1 else 0)"
| "wrapped p (OpReset i q t) = (if q = p then 1 else 0)"
| "wrapped p _ = 0"

fun released :: "port \<Rightarrow> right_op \<Rightarrow> objects \<Rightarrow> nat" where
  "released p (OpRelease i) os = holds p (os ! i)"
| "released p _ os = 0"

lemma deallocated_append [simp]: "deallocated p (a @ b) = deallocated p a + deallocated p b"
  by (simp add: deallocated_def)

lemma deallocated_Nil [simp]: "deallocated p [] = 0"
  by (simp add: deallocated_def)

lemma held_update:
  "i < length os \<Longrightarrow> held p (os[i := x]) + holds p (os ! i) = held p os + holds p x"
proof (induction os arbitrary: i)
  case (Cons y ys)
  then show ?case by (cases i) (auto simp: held_def)
qed simp

lemma deallocated_Reset:
  "p \<noteq> 0 \<Longrightarrow> deallocated p (snd (Reset q t r)) = holds p (Some r)"
  by (auto simp: deallocated_def Reset_def holds_def MACH_PORT_NULL_def)

lemma holds_simps [simp]:
  "holds p None = 0" "holds p (Some r) = (if m_port r = p then 1 else 0)"
  by (simp_all add: holds_def)

lemma held_update2:
  assumes "i < length os" and "j < length os" and "i \<noteq> j"
  shows "held p (os[i := x, j := y]) + holds p (os ! i) + holds p (os ! j) = held p os + holds p x + holds p y"
  using held_update [of i os p x] held_update [of j "os[i := x]" p y] assms by simp

lemma right_step_conserves:
  assumes "right_step self a os = Some (os', evs)" and p: "p \<noteq> MACH_PORT_NULL"
  shows "held p os + wrapped p a = held p os' + deallocated p evs + released p a os"
proof (cases a)
  case (OpWrap i q t)
  then show ?thesis using assms held_update [of i os p "Some (Wrap q t)"]
    by (auto simp: Wrap_def split: if_splits)
next
  case (OpMoveConstruct i j)
  then obtain r where r: "os ! j = Some r" "os ! i = None" "i < length os" "j < length os" "evs = []"
      "os' = os[i := Some (fst (move_construct r)), j := Some (snd (move_construct r))]"
    using assms(1) by (auto simp: case_prod_beta split: if_splits option.splits)
  then have "i \<noteq> j" by auto
  with r p show ?thesis
    using held_update2 [OF r(3,4), of p "Some (fst (move_construct r))" "Some (snd (move_construct r))"]
    by (simp add: OpMoveConstruct move_construct_def)
next
  case (OpMoveAssign i j)
  show ?thesis
  proof (cases "i = j")
    case True
    then show ?thesis using assms(1) OpMoveAssign by (auto simp: move_assign_def split: if_splits option.splits)
  next
    case False
    then obtain t r where r: "os ! i = Some t" "os ! j = Some r" "i < length os" "j < length os"
        "evs = snd (Reset (m_port r) (m_owningTask r) t)"
        "os' = os[i := Some (fst (Reset (m_port r) (m_owningTask r) t)), j := Some (r\<lparr>m_port := MACH_PORT_NULL\<rparr>)]"
      using assms(1) OpMoveAssign by (auto simp: move_assign_def split: if_splits option.splits prod.splits)
    then show ?thesis
      using held_update2 [OF r(3,4) False, of p "Some (fst (Reset (m_port r) (m_owningTask r) t))"
          "Some (r\<lparr>m_port := MACH_PORT_NULL\<rparr>)"] p
      by (simp add: OpMoveAssign deallocated_Reset MACH_PORT_NULL_def) (auto simp: Reset_def split: if_splits)
  qed
next
  case (OpReset i q t)
  then obtain r where r: "os ! i = Some r" "i < length os" "evs = snd (Reset q t r)"
      "os' = os[i := Some (fst (Reset q t r))]"
    using assms(1) by (auto split: if_splits option.splits prod.splits)
  then show ?thesis
    using held_update [OF r(2), of p "Some (fst (Reset q t r))"] p
    by (simp add: OpReset deallocated_Reset MACH_PORT_NULL_def) (auto simp: Reset_def split: if_splits)
next
  case (OpRelease i)
  then show ?thesis using assms held_update [of i os p]
    by (auto simp: Release_def split: if_splits option.splits)
next
  case (OpDelete i)
  then show ?thesis using assms held_update [of i os p None]
    by (auto simp: delete_SendRightRef_def deallocated_Reset MACH_PORT_NULL_def split: if_splits option.splits)
qed

definition all_wrapped :: "port \<Rightarrow> right_op list \<Rightarrow> nat" where
  "all_wrapped p as = sum_list (map (wrapped p) as)"

text \<open>The names that the calls of \<open>Release\<close> in a run hand to their callers.\<close>

fun release_result :: "right_op \<Rightarrow> objects \<Rightarrow> port list" where
  "release_result (OpRelease i) os = (case os ! i of None \<Rightarrow> [] | Some r \<Rightarrow> [fst (Release r)])"
| "release_result _ os = []"

fun release_results :: "port \<Rightarrow> right_op list \<Rightarrow> objects \<Rightarrow> port list" where
  "release_results self [] os = []"
| "release_results self (a # as) os = release_result a os @
     (case right_step self a os of None \<Rightarrow> [] | Some (os, evs) \<Rightarrow> release_results self as os)"

lemma released_result: "released p a os = count_list (release_result a os) p"
  by (cases a) (auto simp: Release_def split: option.split)

lemma right_steps_conserve:
  assumes "right_steps self as os = Some (os', evs)" and "p \<noteq> MACH_PORT_NULL"
  shows "held p os + all_wrapped p as =
    held p os' + deallocated p evs + count_list (release_results self as os) p"
  using assms
proof (induction as arbitrary: os os' evs)
  case Nil
  then show ?case by (simp add: all_wrapped_def)
next
  case (Cons a as)
  obtain os1 evs1 evs2 where step: "right_step self a os = Some (os1, evs1)"
      and rest: "right_steps self as os1 = Some (os', evs2)" and evs: "evs = evs1 @ evs2"
    using Cons.prems(1) by (auto split: option.splits)
  show ?case
    using right_step_conserves [OF step Cons.prems(2)] Cons.IH [OF rest Cons.prems(2)]
    by (simp add: evs step all_wrapped_def released_result)
qed

lemma held_nothing: "\<forall>x \<in> set os. x = None \<Longrightarrow> held p os = 0"
  by (induction os) (simp_all add: held_def)

text \<open>C24. Over any run of the operations, moves and assignments of an object to itself, resets and
  releases among them, every send right that was put into a reference is accounted for exactly
  once: it was returned to the kernel, or \<open>Release\<close> handed it to its caller, or an object holds
  it still (\<open>held_nothing\<close>: none does when all are destroyed).\<close>

theorem send_rights_accounted_for_once:
  assumes "right_steps self as (replicate n None) = Some (os, evs)" and "p \<noteq> MACH_PORT_NULL"
  shows "all_wrapped p as =
      deallocated p evs + count_list (release_results self as (replicate n None)) p + held p os"
  using right_steps_conserve [OF assms] held_nothing [of "replicate n None" p] by simp

lemma send_rights_accounted_for_once_witness:
  "all_wrapped 7 [OpWrap 0 7 1, OpWrap 1 7 1, OpMoveConstruct 2 0, OpMoveAssign 2 2, OpRelease 2,
      OpMoveAssign 2 1, OpReset 2 7 1, OpDelete 1, OpDelete 0] = 1 + 1 + 1"
proof -
  let ?as = "[OpWrap 0 7 1, OpWrap 1 7 1, OpMoveConstruct 2 0, OpMoveAssign 2 2, OpRelease 2,
      OpMoveAssign 2 1, OpReset 2 7 1, OpDelete 1, OpDelete 0]"
  have run: "right_steps 1 ?as (replicate 3 None) =
      Some ([None, None, Some \<lparr>m_port = 7, m_owningTask = 1\<rparr>], [Deallocate 1 7])"
    by code_simp
  have "release_results 1 ?as (replicate 3 None) = [7]" by code_simp
  with send_rights_accounted_for_once [OF run, of 7] show ?thesis
    by (simp add: MACH_PORT_NULL_def held_def deallocated_def)
qed

end
