(* ===== verification/IntervalSet.thy ===== *)
theory IntervalSet
  imports OrderedMap
begin

text \<open>
  \<open>DisjointIntervalSet\<close> of \<open>MacMiniDump.cpp\<close>: the memory ranges to put into the dump,
  kept as an ordered map from the start to the end of each interval. Positions in the list
  are the iterators of the code.
\<close>

type_synonym intervals = "(u64, u64) omap" \<comment> \<open>\<open>m_intervals\<close>: start to end\<close>

text \<open>
  The \<open>while\<close> loop over the iterator: an interval that starts at or before \<open>end\<close> is
  merged when it reaches \<open>start\<close>, and skipped otherwise.
\<close>

function merge_loop :: "intervals \<Rightarrow> nat \<Rightarrow> u64 \<Rightarrow> u64 \<Rightarrow> intervals \<times> u64 \<times> u64" where
  "merge_loop m it start endp =
     (if it < length m \<and> fst (m ! it) \<le> endp then
        if start \<le> snd (m ! it)
        then merge_loop (erase it m) it (min start (fst (m ! it))) (max endp (snd (m ! it)))
        else merge_loop m (Suc it) start endp
      else (m, start, endp))"
  by pat_completeness auto
termination
  by (relation "measure (\<lambda>(m, it, start, endp). length m - it)") auto

declare merge_loop.simps [simp del]

text \<open>The first interval that could overlap: the last one that starts at or before \<open>start\<close>.\<close>

definition first_candidate :: "intervals \<Rightarrow> u64 \<Rightarrow> nat" where
  "first_candidate m start =
     (let it = upper_bound m start in if it \<noteq> 0 then it - 1 else it)"

definition InsertAndMergeIfNeeded :: "u64 \<Rightarrow> u64 \<Rightarrow> intervals \<Rightarrow> intervals" where
  "InsertAndMergeIfNeeded start len m =
     (if len = 0 then m
      else let endp = start + len;
               (m', start', end') = merge_loop m (first_candidate m start) start endp
           in map_assign start' end' m')"

definition ForEach :: "intervals \<Rightarrow> (u64 \<times> u64) list" where
  "ForEach m = map (\<lambda>(start, endp). (start, endp - start)) m"

subsection \<open>Abstract meaning and invariant\<close>

definition covered :: "intervals \<Rightarrow> u64 set" where
  "covered m = (\<Union>(s, e) \<in> set m. {s..<e})"

text \<open>Every interval is non-empty, and a gap separates it from the next one.\<close>

definition separated :: "intervals \<Rightarrow> bool" where
  "separated m \<longleftrightarrow> (\<forall>(s, e) \<in> set m. s < e) \<and> sorted_wrt (\<lambda>p q. snd p < fst q) m"

lemma covered_Nil [simp]: "covered [] = {}"
  by (simp add: covered_def)

lemma covered_Cons [simp]: "covered ((s, e) # m) = {s..<e} \<union> covered m"
  by (simp add: covered_def)

lemma covered_append [simp]: "covered (m @ n) = covered m \<union> covered n"
  by (simp add: covered_def)

lemma separated_Nil [simp]: "separated []"
  by (simp add: separated_def)

lemma separated_Cons [simp]:
  "separated ((s, e) # m) \<longleftrightarrow> s < e \<and> (\<forall>q \<in> set m. e < fst q) \<and> separated m"
  by (auto simp: separated_def)

lemma separated_append:
  "separated (m @ n) \<longleftrightarrow>
     separated m \<and> separated n \<and> (\<forall>p \<in> set m. \<forall>q \<in> set n. snd p < fst q)"
  by (auto simp: separated_def sorted_wrt_append)

lemma separated_nonempty: "separated m \<Longrightarrow> p \<in> set m \<Longrightarrow> fst p < snd p"
  by (auto simp: separated_def)

lemma separated_sorted_keys: "separated m \<Longrightarrow> sorted_keys m"
  by (induction m) (auto dest!: bspec intro: less_trans)

subsection \<open>The merge loop\<close>

text \<open>
  Split the map at the iterator. Everything before it ends below \<open>start\<close>. The loop keeps
  a prefix that ends below the new start and a suffix that begins above the new end, and
  what it drops is covered by the new interval.
\<close>

lemma merge_loop_step:
  "merge_loop (pre @ (s, e) # post) (length pre) start endp =
     (if s \<le> endp then
        if start \<le> e
        then merge_loop (pre @ post) (length pre) (min start s) (max endp e)
        else merge_loop ((pre @ [(s, e)]) @ post) (length (pre @ [(s, e)])) start endp
      else (pre @ (s, e) # post, start, endp))"
  by (subst merge_loop.simps) (simp add: erase_append)

lemma merge_loop_end: "merge_loop pre (length pre) start endp = (pre, start, endp)"
  by (subst merge_loop.simps) simp

definition merge_result :: "intervals \<Rightarrow> u64 \<Rightarrow> u64 \<Rightarrow> intervals \<times> u64 \<times> u64 \<Rightarrow> bool" where
  "merge_result m start endp r \<longleftrightarrow>
     (case r of (m', s', e') \<Rightarrow>
        \<exists>pre post. m' = pre @ post \<and> separated (pre @ post) \<and> s' < e' \<and>
          (\<forall>p \<in> set pre. snd p < s') \<and> (\<forall>q \<in> set post. e' < fst q) \<and>
          covered m' \<union> {s'..<e'} = covered m \<union> {start..<endp})"

lemma merge_resultI:
  "\<lbrakk>separated (pre @ post); s' < e'; \<forall>p \<in> set pre. snd p < s'; \<forall>q \<in> set post. e' < fst q;
    covered (pre @ post) \<union> {s'..<e'} = covered m \<union> {start..<endp}\<rbrakk>
   \<Longrightarrow> merge_result m start endp (pre @ post, s', e')"
  unfolding merge_result_def by blast

lemma merge_loop_correct:
  assumes "separated (pre @ post)" and "start < endp" and "\<forall>p \<in> set pre. snd p < start"
  shows "merge_result (pre @ post) start endp (merge_loop (pre @ post) (length pre) start endp)"
  using assms
proof (induction post arbitrary: pre start endp)
  case Nil
  then show ?case using merge_resultI [of pre "[]"] by (simp add: merge_loop_end)
next
  case (Cons p post)
  obtain s e where p: "p = (s, e)" by (cases p)
  have se: "s < e" and below: "\<forall>q \<in> set pre. snd q < s" and above: "\<forall>q \<in> set post. e < fst q"
    using Cons.prems(1) by (auto simp: p separated_append)
  consider (stop) "endp < s" | (merge) "s \<le> endp" "start \<le> e" | (skip) "s \<le> endp" "e < start"
    by fastforce
  then show ?case
  proof cases
    case stop
    then have "\<forall>q \<in> set (p # post). endp < fst q"
      using above se by (auto simp: p dest: bspec intro: less_trans)
    with stop Cons.prems show ?thesis
      unfolding p merge_loop_step by (auto intro!: merge_resultI)
  next
    case merge
    have "merge_result (pre @ post) (min start s) (max endp e)
        (merge_loop (pre @ post) (length pre) (min start s) (max endp e))"
      by (rule Cons.IH) (use Cons.prems below in \<open>auto simp: p separated_append min_less_iff_disj
            less_max_iff_disj min_def\<close>)
    moreover have "{min start s..<max endp e} = {start..<endp} \<union> {s..<e}"
      using merge se Cons.prems(2) by (auto simp: min_def max_def)
    ultimately show ?thesis
      unfolding p merge_loop_step using merge by (auto simp: merge_result_def ac_simps)
  next
    case skip
    have "merge_result ((pre @ [p]) @ post) start endp
        (merge_loop ((pre @ [p]) @ post) (length (pre @ [p])) start endp)"
      by (rule Cons.IH) (use Cons.prems skip in \<open>auto simp: p\<close>)
    moreover have "\<not> start \<le> e" using skip by simp
    ultimately show ?thesis using skip(1) unfolding p merge_loop_step by simp
  qed
qed

subsection \<open>Insertion\<close>

lemma start_position:
  assumes "separated m"
  shows "first_candidate m start \<le> length m"
    and "\<forall>p \<in> set (take (first_candidate m start) m). snd p < start"
proof -
  show "first_candidate m start \<le> length m"
    using upper_bound_le [of m start] by (auto simp: first_candidate_def Let_def)
  show "\<forall>p \<in> set (take (first_candidate m start) m). snd p < start"
  proof (cases "upper_bound m start")
    case 0
    then show ?thesis by (simp add: first_candidate_def Let_def)
  next
    case (Suc n)
    let ?u = "upper_bound m start"
    have n: "n < length m" "first_candidate m start = n"
      using Suc upper_bound_le [of m start] by (auto simp: first_candidate_def Let_def)
    have "m ! n \<in> set (take ?u m)" using Suc n by (simp add: take_Suc_conv_app_nth)
    then have le: "fst (m ! n) \<le> start"
      using upper_bound_split(1) [OF separated_sorted_keys [OF assms]] by blast
    have "m = take n m @ m ! n # drop (Suc n) m" using n by (simp add: id_take_nth_drop)
    with assms have "\<forall>p \<in> set (take n m). snd p < fst (m ! n)"
      by (metis list.set_intros(1) separated_append)
    with le n show ?thesis by auto
  qed
qed

lemma merge_result_assign:
  assumes "merge_result m start endp (m', s', e')"
  shows "separated (map_assign s' e' m')"
    and "covered (map_assign s' e' m') = covered m \<union> {start..<endp}"
proof -
  from assms obtain pre post where r: "m' = pre @ post" "separated (pre @ post)" "s' < e'"
      "\<forall>p \<in> set pre. snd p < s'" "\<forall>q \<in> set post. e' < fst q"
      "covered m' \<union> {s'..<e'} = covered m \<union> {start..<endp}"
    by (auto simp: merge_result_def)
  have pre: "\<forall>p \<in> set pre. fst p < s'"
  proof
    fix p assume p: "p \<in> set pre"
    then have "fst p < snd p" using separated_nonempty [OF r(2)] by simp
    also have "snd p < s'" using r(4) p by blast
    finally show "fst p < s'" .
  qed
  have post: "\<forall>q \<in> set post. s' < fst q"
    using r(3,5) less_trans by blast
  have eq: "map_assign s' e' m' = pre @ (s', e') # post"
    unfolding r(1) by (rule map_assign_between [OF pre post])
  have gap: "\<forall>p \<in> set pre. \<forall>q \<in> set ((s', e') # post). snd p < fst q"
    using r(2,4) by (simp add: separated_append)
  have "separated pre" "separated post" using r(2) by (simp_all add: separated_append)
  then have "separated pre" "separated ((s', e') # post)" using r(3,5) by simp_all
  with gap show "separated (map_assign s' e' m')"
    unfolding eq separated_append by blast
  show "covered (map_assign s' e' m') = covered m \<union> {start..<endp}"
    unfolding eq using r(1,6) by auto
qed

lemma InsertAndMergeIfNeeded_correct:
  assumes "separated m" and "no_wrap start len"
  shows "separated (InsertAndMergeIfNeeded start len m) \<and>
    covered (InsertAndMergeIfNeeded start len m) = covered m \<union> {start..<start + len}"
proof (cases "len = 0")
  case True
  then show ?thesis using assms(1) by (simp add: InsertAndMergeIfNeeded_def)
next
  case False
  define it where "it = first_candidate m start"
  obtain m' s' e' where loop: "merge_loop m it start (start + len) = (m', s', e')"
    by (metis prod_cases3)
  have "merge_result (take it m @ drop it m) start (start + len)
      (merge_loop (take it m @ drop it m) (length (take it m)) start (start + len))"
    by (rule merge_loop_correct)
      (use assms start_position [OF assms(1), of start] no_wrap_less False in \<open>auto simp: it_def\<close>)
  then have "merge_result m start (start + len) (m', s', e')"
    using start_position(1) [OF assms(1)] loop by (simp add: it_def min_absorb2)
  note res = merge_result_assign [OF this]
  have "InsertAndMergeIfNeeded start len m = map_assign s' e' m'"
    using False loop by (simp add: InsertAndMergeIfNeeded_def it_def)
  with res show ?thesis by simp
qed

subsection \<open>The interface the dumper uses\<close>

text \<open>
  Whoever collects memory ranges relies on three laws of the set: the invariant holds of
  the empty set, an insertion keeps it, and an insertion adds exactly the bytes of the
  range. The result of any sequence of insertions follows.
\<close>

locale range_set =
  fixes empty :: 's
    and insert_range :: "u64 \<Rightarrow> u64 \<Rightarrow> 's \<Rightarrow> 's"
    and invar :: "'s \<Rightarrow> bool"
    and members :: "'s \<Rightarrow> u64 set"
  assumes empty_invar: "invar empty"
    and empty_members: "members empty = {}"
    and insert_invar: "invar s \<Longrightarrow> no_wrap a n \<Longrightarrow> invar (insert_range a n s)"
    and insert_members:
      "invar s \<Longrightarrow> no_wrap a n \<Longrightarrow> members (insert_range a n s) = members s \<union> {a..<a + n}"
begin

lemma fold_insert:
  assumes "invar s" and "\<forall>(a, n) \<in> set rs. no_wrap a n"
  shows "invar (fold (\<lambda>(a, n). insert_range a n) rs s) \<and>
    members (fold (\<lambda>(a, n). insert_range a n) rs s) = members s \<union> (\<Union>(a, n) \<in> set rs. {a..<a + n})"
  using assms
proof (induction rs arbitrary: s)
  case (Cons r rs)
  obtain a n where r: "r = (a, n)" by (cases r)
  have s': "invar (insert_range a n s)" "members (insert_range a n s) = members s \<union> {a..<a + n}"
    using Cons.prems r by (simp_all add: insert_invar insert_members)
  have "\<forall>(a, n) \<in> set rs. no_wrap a n" using Cons.prems(2) by simp
  from Cons.IH [OF s'(1) this] show ?case
    unfolding r by (simp add: s'(2) Un_assoc)
qed simp

lemma fold_insert_empty:
  assumes "\<forall>(a, n) \<in> set rs. no_wrap a n"
  shows "invar (fold (\<lambda>(a, n). insert_range a n) rs empty)"
    and "members (fold (\<lambda>(a, n). insert_range a n) rs empty) = (\<Union>(a, n) \<in> set rs. {a..<a + n})"
  using fold_insert [OF empty_invar assms] by (simp_all add: empty_members)

end

interpretation intervals: range_set "[]" InsertAndMergeIfNeeded separated covered
  by unfold_locales (use InsertAndMergeIfNeeded_correct in auto)

subsection \<open>The representation is canonical\<close>

lemma separated_least:
  assumes "separated ((s, e) # m)" and "x \<in> covered ((s, e) # m)"
  shows "s \<le> x"
proof -
  from assms(2) consider "x \<in> {s..<e}" | a b where "(a, b) \<in> set m" "a \<le> x"
    by (auto simp: covered_def)
  then show ?thesis
  proof cases
    case 2
    with assms(1) have "s < e" "e < a" by auto
    with 2(2) show ?thesis by simp
  qed simp
qed

lemma separated_tail_covered:
  assumes "separated ((s, e) # m)"
  shows "covered m = covered ((s, e) # m) - {s..<e}" and "e \<notin> covered ((s, e) # m)"
proof -
  have "e < x" if "x \<in> covered m" for x
    using that assms by (auto simp: covered_def dest!: bspec intro: less_le_trans)
  then show "covered m = covered ((s, e) # m) - {s..<e}" "e \<notin> covered ((s, e) # m)"
    by fastforce+
qed

lemma separated_covered_Nil: "separated m \<Longrightarrow> covered m = {} \<Longrightarrow> m = []"
  by (cases m) auto

lemma separated_same_start:
  assumes "separated ((s, e) # m)" "separated ((s', e') # m')"
    and "covered ((s, e) # m) = covered ((s', e') # m')"
  shows "s = s'" and "e = e'"
proof -
  have "s \<in> covered ((s, e) # m)" "s' \<in> covered ((s', e') # m')"
    using assms(1,2) by simp_all
  then have "s' \<le> s" "s \<le> s'"
    using separated_least assms by metis+
  then show s: "s = s'" by simp
  have "e \<notin> {s'..<e'}" "e' \<notin> {s..<e}"
    using separated_tail_covered(2) [OF assms(1)] separated_tail_covered(2) [OF assms(2)] assms(3)
    by auto
  with s assms(1,2) show "e = e'"
    by (auto simp: not_le not_less intro: less_imp_le)
qed

lemma separated_unique:
  assumes "separated m" and "separated n" and "covered m = covered n"
  shows "m = n"
  using assms
proof (induction m arbitrary: n)
  case Nil
  then show ?case using separated_covered_Nil by fastforce
next
  case (Cons p m)
  obtain s e where p: "p = (s, e)" by (cases p)
  obtain s' e' n' where n: "n = (s', e') # n'"
    using Cons.prems p separated_covered_Nil [of "p # m"] by (cases n) auto
  note eqs = separated_same_start [OF Cons.prems [unfolded p n]]
  have "covered m = covered n'"
    using separated_tail_covered(1) Cons.prems eqs unfolding p n by metis
  moreover have "separated m" "separated n'"
    using Cons.prems unfolding p n by simp_all
  ultimately show ?case using Cons.IH eqs p n by blast
qed

subsection \<open>What is handed on\<close>

lemma ForEach_ranges:
  assumes "separated m"
  shows "\<forall>(s, n) \<in> set (ForEach m). n \<noteq> 0 \<and> no_wrap s n"
    and "(\<Union>(s, n) \<in> set (ForEach m). {s..<s + n}) = covered m"
    and "sorted_wrt (\<lambda>(s, n) (s', n'). s + n < s') (ForEach m)"
proof -
  have nz: "e - s \<noteq> 0" "no_wrap s (e - s)" if "(s, e) \<in> set m" for s e
  proof -
    have "s < e" using separated_nonempty [OF assms that] by simp
    then show "e - s \<noteq> 0" by auto
    have "unat s + unat (e - s) = unat e"
      using \<open>s < e\<close> by (simp add: unat_sub less_imp_le word_less_nat_alt)
    then show "no_wrap s (e - s)"
      using unsigned_less [of e] by (simp add: no_wrap_def)
  qed
  then show "\<forall>(s, n) \<in> set (ForEach m). n \<noteq> 0 \<and> no_wrap s n"
    by (auto simp: ForEach_def)
  show "(\<Union>(s, n) \<in> set (ForEach m). {s..<s + n}) = covered m"
    by (simp add: ForEach_def covered_def case_prod_beta)
  show "sorted_wrt (\<lambda>(s, n) (s', n'). s + n < s') (ForEach m)"
    using assms by (simp add: ForEach_def separated_def sorted_wrt_map case_prod_beta)
qed

subsection \<open>Properties\<close>

abbreviation insert_all :: "(u64 \<times> u64) list \<Rightarrow> intervals" where
  "insert_all rs \<equiv> fold (\<lambda>(a, n). InsertAndMergeIfNeeded a n) rs []"

text \<open>C14. After any sequence of insertions of ranges that do not wrap around, in any order and
  with any overlap, the set holds non-empty intervals with a gap between any two, and covers
  exactly the bytes of the ranges.\<close>

theorem insertions_cover_exactly:
  assumes "\<forall>(a, n) \<in> set rs. no_wrap a n"
  shows "separated (insert_all rs) \<and> covered (insert_all rs) = (\<Union>(a, n) \<in> set rs. {a..<a + n})"
  using intervals.fold_insert_empty [OF assms] by simp

lemma insertions_cover_exactly_witness:
  "insert_all [(0x1000, 0x100), (0x5000, 0x10), (0x1080, 0x2000), (0x3080, 8)] =
     [(0x1000, 0x3088), (0x5000, 0x5010)] \<and>
   separated (insert_all [(0x1000, 0x100), (0x5000, 0x10), (0x1080, 0x2000), (0x3080, 8)])"
proof
  show "insert_all [(0x1000, 0x100), (0x5000, 0x10), (0x1080, 0x2000), (0x3080, 8)] =
     [(0x1000, 0x3088), (0x5000, 0x5010)]" by code_simp
  show "separated (insert_all [(0x1000, 0x100), (0x5000, 0x10), (0x1080, 0x2000), (0x3080, 8)])"
    by (rule insertions_cover_exactly [THEN conjunct1]) (simp add: no_wrap_def)
qed

text \<open>C18. The intervals do not depend on how the bytes were inserted: two sequences of ranges that
  cover the same bytes leave the same map.\<close>

theorem insertion_order_irrelevant:
  assumes "\<forall>(a, n) \<in> set rs. no_wrap a n" and "\<forall>(a, n) \<in> set rs'. no_wrap a n"
    and "(\<Union>(a, n) \<in> set rs. {a..<a + n}) = (\<Union>(a, n) \<in> set rs'. {a..<a + n})"
  shows "insert_all rs = insert_all rs'"
  using intervals.fold_insert_empty [OF assms(1)] intervals.fold_insert_empty [OF assms(2)] assms(3)
  by (intro separated_unique) simp_all

lemma insertion_order_irrelevant_witness:
  "insert_all [(0x10, 0x10), (0x40, 0x20), (0x18, 0x28)] = insert_all [(0x18, 0x28), (0x40, 0x20), (0x10, 0x10)]"
  by (rule insertion_order_irrelevant) (simp_all add: no_wrap_def Un_ac)

text \<open>C19. What the iteration hands to its callback: the pieces have positive length, do not wrap
  around, follow one another with a gap, and together are the bytes inserted.\<close>

theorem ForEach_pieces:
  assumes "\<forall>(a, n) \<in> set rs. no_wrap a n"
  shows "(\<forall>(s, n) \<in> set (ForEach (insert_all rs)). n \<noteq> 0 \<and> no_wrap s n) \<and>
    sorted_wrt (\<lambda>(s, n) (s', n'). s + n < s') (ForEach (insert_all rs)) \<and>
    (\<Union>(s, n) \<in> set (ForEach (insert_all rs)). {s..<s + n}) = (\<Union>(a, n) \<in> set rs. {a..<a + n})"
  using intervals.fold_insert_empty [OF assms] ForEach_ranges [of "insert_all rs"] by simp

lemma ForEach_pieces_witness:
  "ForEach (insert_all [(0x20, 0x10), (0x8, 8), (0x30, 4)]) = [(0x8, 8), (0x20, 0x14)] \<and>
   (\<Union>(s, n) \<in> set (ForEach (insert_all [(0x20, 0x10), (0x8, 8), (0x30, 4)])). {s..<s + n}) =
     {0x20..<0x30} \<union> {0x8..<0x10} \<union> {0x30..<0x34}"
proof
  show "ForEach (insert_all [(0x20, 0x10), (0x8, 8), (0x30, 4)]) = [(0x8, 8), (0x20, 0x14)]"
    by code_simp
  show "(\<Union>(s, n) \<in> set (ForEach (insert_all [(0x20, 0x10), (0x8, 8), (0x30, 4)])). {s..<s + n}) =
     {0x20..<0x30} \<union> {0x8..<0x10} \<union> {0x30..<0x34}"
    using ForEach_pieces [THEN conjunct2, THEN conjunct2, of "[(0x20, 0x10), (0x8, 8), (0x30, 4)]"]
    by (simp add: no_wrap_def Un_ac del: fold_simps)
qed

end
