(* ===== verification/DataAccess.thy ===== *)
theory DataAccess
  imports ProcessMemory
begin

text \<open>
  Where the bytes of a payload come from: \<open>DataAccess.hpp\<close>, \<open>DataAccess.cpp\<close> and
  \<open>ProcessMemoryReaderDataPtr.cpp\<close>. The three subclasses of \<open>IDataPtr\<close> are the constructors of
  a datatype. A pointer that \<open>Get\<close> returns is \<open>None\<close> when it is null, and otherwise the bytes
  that can be read through it; the copy that \<open>ProcessMemoryReaderDataPtr\<close> keeps alive is what
  the pointer it returned last points to.
\<close>

datatype IDataPtr =
    PlainDataPtr bytes
  | CopiedDataPtr bytes
  | ProcessMemoryReaderDataPtr (startAddress: u64) (maxSize: u64)

definition new_CopiedDataPtr :: "'z mem_kernel_scheme \<Rightarrow> bytes \<Rightarrow> u64 \<Rightarrow> IDataPtr res" where
  "new_CopiedDataPtr K pData size_in_bytes =
     rbind (MakeUniqueArray K size_in_bytes 1) (\<lambda>_.
     rbind (read_at pData 0 (unat size_in_bytes)) (\<lambda>d. Inr (CopiedDataPtr d)))"

text \<open>Pointer arithmetic past the end of an array has no result.\<close>

definition pointer_add :: "bytes \<Rightarrow> u64 \<Rightarrow> bytes res" where
  "pointer_add d off = (if unat off \<le> length d then Inr (drop (unat off) d) else Inl OutOfBounds)"

fun Get :: "'z mem_kernel_scheme \<Rightarrow> IDataPtr \<Rightarrow> u64 \<Rightarrow> u64 \<Rightarrow> bytes option res" where
  "Get K (PlainDataPtr d) off sz = rbind (pointer_add d off) (\<lambda>p. Inr (Some p))"
| "Get K (CopiedDataPtr d) off sz = rbind (pointer_add d off) (\<lambda>p. Inr (Some p))"
| "Get K (ProcessMemoryReaderDataPtr start maxsz) off sz =
     (if off + sz > maxsz then Inr None else ReadProcessMemory K (start + off) sz)"

fun GetAll :: "IDataPtr \<Rightarrow> bytes option" where \<comment> \<open>\<open>Get ()\<close>\<close>
  "GetAll (PlainDataPtr d) = Some d"
| "GetAll (CopiedDataPtr d) = Some d"
| "GetAll (ProcessMemoryReaderDataPtr start maxsz) = None"

record DataProvider =
  dp_size :: u64
  dp_ptr :: IDataPtr

definition provider_of_copy :: "'z mem_kernel_scheme \<Rightarrow> bytes \<Rightarrow> u64 \<Rightarrow> DataProvider res" where
  "provider_of_copy K d n =
     rbind (new_CopiedDataPtr K d n) (\<lambda>p. Inr \<lparr>dp_size = n, dp_ptr = p\<rparr>)"

subsection \<open>What a provider promises\<close>

text \<open>
  Every range inside the content can be read, at any offset and in pieces of any size.
\<close>

definition provides :: "'z mem_kernel_scheme \<Rightarrow> IDataPtr \<Rightarrow> bytes \<Rightarrow> bool" where
  "provides K p content \<longleftrightarrow>
     (\<forall>off n. unat off + unat n \<le> length content \<longrightarrow>
        (\<exists>d. Get K p off n = Inr (Some d) \<and> unat n \<le> length d \<and>
             take (unat n) d = chunk (unat off) (unat n) content))"

lemma providesE:
  assumes "provides K p content" and "unat off + unat n \<le> length content"
  obtains d where "Get K p off n = Inr (Some d)" and "unat n \<le> length d"
    and "take (unat n) d = chunk (unat off) (unat n) content"
  using assms unfolding provides_def by blast

lemma provides_PlainDataPtr: "provides K (PlainDataPtr d) d"
  by (simp add: provides_def pointer_add_def chunk_def le_diff_conv2)

lemma provides_CopiedDataPtr: "provides K (CopiedDataPtr d) d"
  by (simp add: provides_def pointer_add_def chunk_def le_diff_conv2)

lemma new_CopiedDataPtr_copies:
  assumes "new_CopiedDataPtr K d n = Inr p"
  shows "provides K p (take (unat n) d)" and "GetAll p = Some (take (unat n) d)"
    and "unat n \<le> length d"
proof -
  have p: "p = CopiedDataPtr (take (unat n) d)" "unat n \<le> length d"
    using assms by (auto simp: new_CopiedDataPtr_def rbind_eq_Inr read_at_eq_Inr chunk_def)
  then show "provides K p (take (unat n) d)" "GetAll p = Some (take (unat n) d)"
      "unat n \<le> length d"
    by (simp_all add: provides_CopiedDataPtr)
qed

lemma provides_ProcessMemory:
  assumes "vm_read_overwrite K start maxsz = Some d" and "length d = unat maxsz"
    and "coherent_reads K" and "\<forall>n \<le> maxsz. malloc_ok K n"
  shows "provides K (ProcessMemoryReaderDataPtr start maxsz) d"
  unfolding provides_def
proof (intro allI impI)
  fix off n :: u64
  assume le: "unat off + unat n \<le> length d"
  then have nw: "no_wrap off n"
    using assms(2) unsigned_less [where 'a = nat, of maxsz] by (simp add: no_wrap_def)
  have "\<not> off + n > maxsz"
    using le assms(2) by (simp add: not_less word_le_nat_alt no_wrap_unat [OF nw])
  moreover have "n \<le> maxsz"
    using le assms(2) by (simp add: word_le_nat_alt)
  moreover have "vm_read_overwrite K (start + off) n = Some (chunk (unat off) (unat n) d)"
    using assms(1,3) le by (simp add: coherent_reads_def assms(2))
  ultimately show "\<exists>e. Get K (ProcessMemoryReaderDataPtr start maxsz) off n = Inr (Some e) \<and>
      unat n \<le> length e \<and> take (unat n) e = chunk (unat off) (unat n) d"
    using assms(4) le
    by (auto simp: ReadProcessMemory_def ReadProcessMemoryInto_def MakeUniqueArray_def)
qed

end
