(* ===== verification/OStream.thy ===== *)
theory OStream
  imports Prelude
begin

text \<open>
  The output stream: the virtual functions of \<open>IRandomAccessBinaryOStream\<close> as a record that its
  users take, and \<open>FileOStream\<close>, which implements them with POSIX calls. The calls are a
  parameter (\<open>posix\<close>); \<open>regular_file\<close> gives them their documented meaning on one open file.
\<close>

subsection \<open>The interface\<close>

text \<open>
  The pointer given to \<open>Write\<close> is \<open>None\<close> when null, and else the bytes readable through it.
\<close>

record 's IRandomAccessBinaryOStream =
  os_Write :: "bytes option \<Rightarrow> u64 \<Rightarrow> 's \<Rightarrow> (bool \<times> 's) res"
  os_Flush :: "'s \<Rightarrow> bool \<times> 's"
  os_GetPosition :: "'s \<Rightarrow> u64 \<times> 's"
  os_SetPosition :: "u64 \<Rightarrow> 's \<Rightarrow> 's"
  os_GetSize :: "'s \<Rightarrow> u64 \<times> 's"
  os_SetSize :: "u64 \<Rightarrow> 's \<Rightarrow> bool \<times> 's"

text \<open>The template \<open>Write (const T&)\<close>: all bytes of an object.\<close>

definition os_WriteObject ::
  "'s IRandomAccessBinaryOStream \<Rightarrow> bytes \<Rightarrow> 's \<Rightarrow> (bool \<times> 's) res" where
  "os_WriteObject S d s = os_Write S (Some d) (of_nat (length d)) s"

subsection \<open>FileOStream\<close>

datatype whence = SEEK_SET | SEEK_CUR | SEEK_END

record 'f posix = \<comment> \<open>results as the calls return them, -1 for an error\<close>
  sys_open :: "bytes \<Rightarrow> 'f \<Rightarrow> int \<times> 'f" \<comment> \<open>with \<open>O_WRONLY\<close>\<close>
  sys_fileno :: "'f \<Rightarrow> int"
  sys_write :: "int \<Rightarrow> bytes option \<Rightarrow> u64 \<Rightarrow> 'f \<Rightarrow> int \<times> 'f"
  sys_fsync :: "int \<Rightarrow> 'f \<Rightarrow> int \<times> 'f"
  sys_lseek :: "int \<Rightarrow> u64 \<Rightarrow> whence \<Rightarrow> 'f \<Rightarrow> u64 \<times> 'f"
  sys_ftruncate :: "int \<Rightarrow> u64 \<Rightarrow> 'f \<Rightarrow> int \<times> 'f"
  sys_close :: "int \<Rightarrow> 'f \<Rightarrow> 'f"

record 'f FileOStream =
  m_fd :: int
  os_state :: 'f

definition new_FileOStream_FILE :: "'f posix \<Rightarrow> 'f \<Rightarrow> 'f FileOStream" where
  "new_FileOStream_FILE P f = \<lparr>m_fd = sys_fileno P f, os_state = f\<rparr>"

definition new_FileOStream_fd :: "int \<Rightarrow> 'f \<Rightarrow> 'f FileOStream" where
  "new_FileOStream_fd fd f = \<lparr>m_fd = fd, os_state = f\<rparr>"

definition new_FileOStream_path :: "'f posix \<Rightarrow> bytes \<Rightarrow> 'f \<Rightarrow> 'f FileOStream" where
  "new_FileOStream_path P filePath f =
     (let (fd, f) = sys_open P filePath f in \<lparr>m_fd = fd, os_state = f\<rparr>)"

text \<open>The call reads \<open>size\<close> bytes through the pointer.\<close>

definition readable :: "bytes option \<Rightarrow> u64 \<Rightarrow> bool" where
  "readable p n \<longleftrightarrow> (case p of None \<Rightarrow> True | Some d \<Rightarrow> unat n \<le> length d)"

definition Write ::
  "'f posix \<Rightarrow> bytes option \<Rightarrow> u64 \<Rightarrow> 'f FileOStream \<Rightarrow> (bool \<times> 'f FileOStream) res" where
  "Write P pData n s =
     rbind (require OutOfBounds (readable pData n)) (\<lambda>_.
       let (r, f) = sys_write P (m_fd s) pData n (os_state s) in
       Inr (r \<noteq> -1, s\<lparr>os_state := f\<rparr>))"

definition Flush :: "'f posix \<Rightarrow> 'f FileOStream \<Rightarrow> bool \<times> 'f FileOStream" where
  "Flush P s = (let (r, f) = sys_fsync P (m_fd s) (os_state s) in (r \<noteq> 0, s\<lparr>os_state := f\<rparr>))"

definition GetPosition :: "'f posix \<Rightarrow> 'f FileOStream \<Rightarrow> u64 \<times> 'f FileOStream" where
  "GetPosition P s =
     (let (r, f) = sys_lseek P (m_fd s) 0 SEEK_CUR (os_state s) in (r, s\<lparr>os_state := f\<rparr>))"

definition SetPosition :: "'f posix \<Rightarrow> u64 \<Rightarrow> 'f FileOStream \<Rightarrow> 'f FileOStream" where
  "SetPosition P newPos s =
     (let (r, f) = sys_lseek P (m_fd s) newPos SEEK_SET (os_state s) in s\<lparr>os_state := f\<rparr>)"

definition GetSize :: "'f posix \<Rightarrow> 'f FileOStream \<Rightarrow> u64 \<times> 'f FileOStream" where
  "GetSize P s =
     (let (prevPos, s) = GetPosition P s;
          (sz, f) = sys_lseek P (m_fd s) 0 SEEK_END (os_state s);
          (r, f) = sys_lseek P (m_fd s) prevPos SEEK_SET f
      in (sz, s\<lparr>os_state := f\<rparr>))"

definition SetSize :: "'f posix \<Rightarrow> u64 \<Rightarrow> 'f FileOStream \<Rightarrow> bool \<times> 'f FileOStream" where
  "SetSize P newSize s =
     (let (r, f) = sys_ftruncate P (m_fd s) newSize (os_state s) in (r \<noteq> -1, s\<lparr>os_state := f\<rparr>))"

definition IsValid :: "'f FileOStream \<Rightarrow> bool" where
  "IsValid s \<longleftrightarrow> m_fd s \<noteq> -1"

definition Cleanup :: "'f posix \<Rightarrow> 'f FileOStream \<Rightarrow> 'f FileOStream" where
  "Cleanup P s =
     (if \<not> IsValid s then s
      else s\<lparr>os_state := sys_close P (m_fd s) (os_state s), m_fd := -1\<rparr>)"

definition delete_FileOStream :: "'f posix \<Rightarrow> 'f FileOStream \<Rightarrow> 'f FileOStream" where
  "delete_FileOStream P s = Cleanup P s"

definition FileOStream_vtable :: "'f posix \<Rightarrow> 'f FileOStream IRandomAccessBinaryOStream" where
  "FileOStream_vtable P =
     \<lparr>os_Write = Write P, os_Flush = Flush P, os_GetPosition = GetPosition P,
      os_SetPosition = SetPosition P, os_GetSize = GetSize P, os_SetSize = SetSize P\<rparr>"

subsection \<open>Writing to a stream in order\<close>

text \<open>
  Bytes written past the end leave a gap of zeroes; writing no bytes changes nothing.
\<close>

definition overwrite :: "nat \<Rightarrow> bytes \<Rightarrow> bytes \<Rightarrow> bytes" where
  "overwrite off d c =
     (if d = [] then c
      else take off (c @ replicate (off - length c) 0) @ d @ drop (off + length d) c)"

lemma overwrite_at_end: "length c \<le> off \<Longrightarrow> overwrite off d c =
    (if d = [] then c else c @ replicate (off - length c) 0 @ d)"
  by (simp add: overwrite_def)

text \<open>
  What the writer of a core file relies on: a write of available bytes below the largest file
  size succeeds, goes where the position is, and moves it; the position can be read and set.
\<close>

locale byte_stream =
  fixes stream :: "'s IRandomAccessBinaryOStream"
    and contents :: "'s \<Rightarrow> bytes"
    and position :: "'s \<Rightarrow> u64"
    and usable :: "'s \<Rightarrow> bool"
  assumes write_available:
    "\<lbrakk>usable s; unat n \<le> length d; unat (position s) + unat n < 2 ^ 63\<rbrakk> \<Longrightarrow>
      \<exists>s'. os_Write stream (Some d) n s = Inr (True, s') \<and> usable s' \<and>
        contents s' = overwrite (unat (position s)) (take (unat n) d) (contents s) \<and>
        position s' = position s + n"
    and get_position: "usable s \<Longrightarrow> os_GetPosition stream s = (position s, s)"
    and set_position: "\<lbrakk>usable s; unat p < 2 ^ 63\<rbrakk> \<Longrightarrow>
      usable (os_SetPosition stream p s) \<and> contents (os_SetPosition stream p s) = contents s \<and>
      position (os_SetPosition stream p s) = p"
begin

text \<open>
  The stream stands at the end of \<open>c\<close>: what it holds is \<open>c\<close>, up to a gap at the end that
  reads as zeroes once something is written behind it.
\<close>

definition stands_at :: "bytes \<Rightarrow> 's \<Rightarrow> bool" where
  "stands_at c s \<longleftrightarrow> usable s \<and> unat (position s) = length c \<and>
     length (contents s) \<le> length c \<and>
     contents s @ replicate (length c - length (contents s)) 0 = c"

lemma stands_at_write:
  assumes "stands_at c s" and "unat n \<le> length d" and "length c + unat n < 2 ^ 63"
  shows "\<exists>s'. os_Write stream (Some d) n s = Inr (True, s') \<and>
    stands_at (c @ take (unat n) d) s' \<and> (n \<noteq> 0 \<longrightarrow> contents s' = c @ take (unat n) d) \<and>
    (n = 0 \<longrightarrow> contents s' = contents s)"
proof -
  let ?d = "take (unat n) d"
  have s: "usable s" "unat (position s) = length c" "length (contents s) \<le> length c"
      "contents s @ replicate (length c - length (contents s)) 0 = c"
    using assms(1) by (simp_all add: stands_at_def)
  obtain s' where s': "os_Write stream (Some d) n s = Inr (True, s')" "usable s'"
      "contents s' = overwrite (length c) ?d (contents s)" "position s' = position s + n"
    using write_available [OF s(1) assms(2)] assms(3) by (auto simp: s(2))
  have new: "contents s' = (if ?d = [] then contents s else c @ ?d)"
    using overwrite_at_end [OF s(3), of ?d] s(4) s'(3) by (metis append_assoc)
  have d: "?d = [] \<longleftrightarrow> n = 0" "length ?d = unat n"
    using assms(2) by (auto simp: unat_eq_0)
  have pos: "unat (position s') = length (c @ ?d)"
    using assms(3) s(2) d(2) no_wrap_unat [of "position s" n] unfolding s'(4) by (simp add: no_wrap_def)
  show ?thesis
  proof (intro exI conjI)
    show "os_Write stream (Some d) n s = Inr (True, s')" by (rule s'(1))
    show "stands_at (c @ ?d) s'"
      using s s'(2) pos new d by (cases "?d = []") (simp_all add: stands_at_def)
    show "n \<noteq> 0 \<longrightarrow> contents s' = c @ ?d" "n = 0 \<longrightarrow> contents s' = contents s"
      using new d(1) by simp_all
  qed
qed

lemma stands_at_seek:
  assumes "stands_at c s" and "length c \<le> unat p" and "unat p < 2 ^ 63"
  shows "stands_at (c @ replicate (unat p - length c) 0) (os_SetPosition stream p s)"
proof -
  have s: "usable s" "length (contents s) \<le> length c"
      "contents s @ replicate (length c - length (contents s)) 0 = c"
    using assms(1) by (simp_all add: stands_at_def)
  have "c @ replicate (unat p - length c) 0 =
      contents s @ replicate (unat p - length (contents s)) 0"
    by (subst (1) s(3) [symmetric]) (use s(2) assms(2) in \<open>simp add: replicate_add [symmetric]\<close>)
  with s assms(2) set_position [OF s(1) assms(3)] show ?thesis
    by (simp add: stands_at_def)
qed

lemma stands_at_position: "stands_at c s \<Longrightarrow> os_GetPosition stream s = (position s, s)"
  by (simp add: stands_at_def get_position)

end

subsection \<open>A regular file\<close>

text \<open>
  One file, open under one descriptor, on a disk with room: \<open>write\<close> transfers all bytes, or
  fails with \<open>EFAULT\<close> on a null buffer and with \<open>EFBIG\<close> beyond the largest offset;
  \<open>lseek\<close> and \<open>ftruncate\<close> behave as documented.
\<close>

record disk_file =
  f_contents :: bytes
  f_position :: u64
  f_open :: bool

definition regular_file :: "int \<Rightarrow> disk_file posix" where
  "regular_file fd0 =
     \<lparr>sys_open = (\<lambda>path f. (fd0, f\<lparr>f_position := 0, f_open := True\<rparr>)),
      sys_fileno = (\<lambda>f. fd0),
      sys_write = (\<lambda>fd p n f.
        if fd \<noteq> fd0 \<or> \<not> f_open f \<or> unat (f_position f) + unat n \<ge> 2 ^ 63 then (-1, f)
        else case p of
          None \<Rightarrow> (if n = 0 then (0, f) else (-1, f))
        | Some d \<Rightarrow> (uint n, f\<lparr>f_contents := overwrite (unat (f_position f)) (take (unat n) d) (f_contents f),
                            f_position := f_position f + n\<rparr>)),
      sys_fsync = (\<lambda>fd f. (if fd = fd0 \<and> f_open f then 0 else -1, f)),
      sys_lseek = (\<lambda>fd off w f.
        let base = (case w of SEEK_SET \<Rightarrow> 0 | SEEK_CUR \<Rightarrow> f_position f
                    | SEEK_END \<Rightarrow> of_nat (length (f_contents f)))
        in if fd \<noteq> fd0 \<or> \<not> f_open f \<or> unat (base + off) \<ge> 2 ^ 63 then (-1, f)
           else (base + off, f\<lparr>f_position := base + off\<rparr>)),
      sys_ftruncate = (\<lambda>fd n f.
        if fd \<noteq> fd0 \<or> \<not> f_open f then (-1, f)
        else (0, f\<lparr>f_contents := take (unat n) (f_contents f) @
                     replicate (unat n - length (f_contents f)) 0\<rparr>)),
      sys_close = (\<lambda>fd f. if fd = fd0 then f\<lparr>f_open := False\<rparr> else f)\<rparr>"

definition file_usable :: "int \<Rightarrow> disk_file FileOStream \<Rightarrow> bool" where
  "file_usable fd0 s \<longleftrightarrow> m_fd s = fd0 \<and> f_open (os_state s) \<and> unat (f_position (os_state s)) < 2 ^ 63"

interpretation filestream:
  byte_stream "FileOStream_vtable (regular_file fd0)" "\<lambda>s. f_contents (os_state s)"
    "\<lambda>s. f_position (os_state s)" "file_usable fd0" for fd0
proof
  fix s :: "disk_file FileOStream" and n :: u64 and d :: bytes and p :: u64
  assume s: "file_usable fd0 s"
  show "os_GetPosition (FileOStream_vtable (regular_file fd0)) s = (f_position (os_state s), s)"
    using s by (simp add: FileOStream_vtable_def GetPosition_def regular_file_def file_usable_def)
  show "\<exists>s'. os_Write (FileOStream_vtable (regular_file fd0)) (Some d) n s = Inr (True, s') \<and>
      file_usable fd0 s' \<and>
      f_contents (os_state s') = overwrite (unat (f_position (os_state s))) (take (unat n) d)
        (f_contents (os_state s)) \<and> f_position (os_state s') = f_position (os_state s) + n"
    if "unat n \<le> length d" "unat (f_position (os_state s)) + unat n < 2 ^ 63"
  proof -
    have "uint n \<noteq> -1" using uint_ge_0 [of n] by linarith
    moreover have "no_wrap (f_position (os_state s)) n"
      using that(2) by (simp add: no_wrap_def)
    then have "unat (f_position (os_state s) + n) < 2 ^ 63"
      using that(2) by (simp add: no_wrap_unat)
    ultimately show ?thesis
      using s that
      by (simp add: FileOStream_vtable_def Write_def readable_def regular_file_def file_usable_def)
  qed
  show "file_usable fd0 (os_SetPosition (FileOStream_vtable (regular_file fd0)) p s) \<and>
      f_contents (os_state (os_SetPosition (FileOStream_vtable (regular_file fd0)) p s)) =
        f_contents (os_state s) \<and>
      f_position (os_state (os_SetPosition (FileOStream_vtable (regular_file fd0)) p s)) = p"
    if "unat p < 2 ^ 63"
    using s that
    by (simp add: FileOStream_vtable_def SetPosition_def regular_file_def file_usable_def)
qed

end
