(* ===== verification/CoreBuilder.thy ===== *)
theory CoreBuilder
  imports DataAccess OStream MachO
begin

text \<open>
  \<open>MachOCoreDumpBuilder\<close>: the load commands of the core file are collected first, and
  \<open>Build\<close> computes where each payload goes and writes header, commands and payloads. This
  theory has the state and the operations; \<open>CoreFile\<close> proves what \<open>Build\<close> writes.
\<close>

subsection \<open>State\<close>

type_synonym note_entry = "note_command \<times> DataProvider option"
type_synonym segment_entry = "segment_command_64 \<times> DataProvider option"

record builder =
  finalized :: bool
  header :: mach_header_64
  note_cmds :: "note_entry list"
  thread_cmds :: "bytes list"
  segment_cmds :: "segment_entry list"
  writtenRanges :: "(u64 \<times> u64) list"

definition RoundUp :: "u64 \<Rightarrow> u64 \<Rightarrow> u64 res" where
  "RoundUp number roundTo =
     (if roundTo = 0 then Inl DivByZero
      else let quotient = number div roundTo; remainder = number mod roundTo in
        Inr (if remainder = 0 then number else (quotient + 1) * roundTo))"

definition CPU_SUBTYPE_I386_ALL :: u32 where
  "CPU_SUBTYPE_I386_ALL = 3"

definition new_MachOCoreDumpBuilder :: "config \<Rightarrow> builder" where
  "new_MachOCoreDumpBuilder cfg =
     \<lparr>finalized = False,
      header =
        \<lparr>magic = MH_MAGIC_64,
         cputype = (case target cfg of X86_64 \<Rightarrow> CPU_TYPE_X86_64 | Arm64 \<Rightarrow> CPU_TYPE_ARM64),
         cpusubtype = (case target cfg of X86_64 \<Rightarrow> CPU_SUBTYPE_I386_ALL | Arm64 \<Rightarrow> 0),
         filetype = MH_CORE, ncmds = 0, sizeofcmds = 0, hdr_flags = 0, hdr_reserved = 0\<rparr>,
      note_cmds = [], thread_cmds = [], segment_cmds = [], writtenRanges = []\<rparr>"

subsection \<open>Finalizing\<close>

text \<open>The sums run over \<open>size_t\<close>; the header fields keep the low 32 bits.\<close>

definition sizes_of_commands :: "builder \<Rightarrow> u64 list" where
  "sizes_of_commands b =
     map (\<lambda>nc. ucast (nc_cmdsize (fst nc))) (note_cmds b) @
     map (\<lambda>tc. ucast (cmdsize_of tc)) (thread_cmds b) @
     map (\<lambda>sc. ucast (sc_cmdsize (fst sc))) (segment_cmds b)"

definition FinalizeLoadCommands :: "builder \<Rightarrow> builder" where
  "FinalizeLoadCommands b =
     (if finalized b then b
      else b\<lparr>header := (header b)\<lparr>
               ncmds := of_nat (length (note_cmds b) + length (thread_cmds b) + length (segment_cmds b)),
               sizeofcmds := ucast (sum_list (sizes_of_commands b))\<rparr>,
             finalized := True\<rparr>)"

subsection \<open>Adding commands\<close>

text \<open>An owner is a C string: its bytes up to the terminator, which is not part of the list.\<close>

definition AddNoteCommand ::
  "bytes \<Rightarrow> DataProvider option \<Rightarrow> builder \<Rightarrow> bool \<times> builder" where
  "AddNoteCommand owner provider b =
     (if finalized b then (False, b)
      else
        let newCommand =
              \<lparr>nc_cmd = LC_NOTE, nc_cmdsize = of_nat sizeof_note_command,
               data_owner = replicate 16 0, nc_offset = 0, nc_size = 0\<rparr>
        in if 16 < length owner then (False, b)
           else
             let newCommand = newCommand\<lparr>data_owner := owner @ drop (length owner) (data_owner newCommand)\<rparr>;
                 newCommand = (case provider of None \<Rightarrow> newCommand
                   | Some p \<Rightarrow> newCommand\<lparr>nc_size := dp_size p\<rparr>)
             in (True, b\<lparr>note_cmds := note_cmds b @ [(newCommand, provider)]\<rparr>))"

definition AddSegmentCommand ::
  "u64 \<Rightarrow> u32 \<Rightarrow> DataProvider option \<Rightarrow> builder \<Rightarrow> bool \<times> builder" where
  "AddSegmentCommand vmaddr prot provider b =
     (if finalized b then (False, b)
      else
        let sz = (case provider of None \<Rightarrow> 0 | Some p \<Rightarrow> dp_size p);
            segCommand =
              \<lparr>sc_cmd = LC_SEGMENT_64, sc_cmdsize = of_nat sizeof_segment_command_64,
               sc_segname = replicate 16 0, sc_vmaddr = vmaddr, sc_vmsize = sz, sc_fileoff = 0,
               sc_filesize = sz, sc_maxprot = prot, sc_initprot = prot, sc_nsects = 0, sc_flags = 0\<rparr>
        in (True, b\<lparr>segment_cmds := segment_cmds b @ [(segCommand, provider)]\<rparr>))"

text \<open>
  \<open>ThreadStatesPacked\<close> nests the states; the innermost, empty struct has one byte, and each
  level is padded to the alignment of the states. \<open>u\<close> is what an unwritten byte holds.
\<close>

definition pad_to_8 :: "u8 \<Rightarrow> bytes \<Rightarrow> bytes" where
  "pad_to_8 u d = d @ replicate ((8 - length d mod 8) mod 8) u"

fun ThreadStatesPacked :: "u8 \<Rightarrow> bytes list \<Rightarrow> bytes" where
  "ThreadStatesPacked u [] = [u]"
| "ThreadStatesPacked u (first # rest) = pad_to_8 u (first @ ThreadStatesPacked u rest)"

definition AddThreadCommand ::
  "'z mem_kernel_scheme \<Rightarrow> u8 \<Rightarrow> bytes list \<Rightarrow> builder \<Rightarrow> (bool \<times> builder) res" where
  "AddThreadCommand K u threadStates b =
     (let states = ThreadStatesPacked u threadStates;
          sizeof_rawData = 8 + length states;
          cmdsize = of_nat (sizeof_rawData - 8) :: u32;
          rawData = le32 LC_THREAD @ le32 cmdsize @ states
      in rbind (MakeUniqueArrayAligned K (ucast cmdsize) 1) (\<lambda>_.
           Inr (True, b\<lparr>thread_cmds := thread_cmds b @ [take (sizeof_rawData - 8) rawData]\<rparr>)))"

subsection \<open>Looking up a note\<close>

text \<open>
  \<open>data_owner\<close> is 16 bytes without a terminator of its own when the owner has 16, so
  \<open>strcmp\<close> reads on into the offset and the size, which follow it in \<open>note_command\<close>.
\<close>

definition owner_memory :: "note_command \<Rightarrow> bytes" where
  "owner_memory c = data_owner c @ le64 (nc_offset c) @ le64 (nc_size c)"

definition strcmp_is_0 :: "bytes \<Rightarrow> bytes \<Rightarrow> bool res" where
  "strcmp_is_0 x y = (case strcmp_eq x y of None \<Rightarrow> Inl OutOfBounds | Some r \<Rightarrow> Inr r)"

fun find_note :: "bytes \<Rightarrow> note_entry list \<Rightarrow> nat \<Rightarrow> nat option res" where
  "find_note owner [] i = Inr None"
| "find_note owner (nc # ncs) i =
     rbind (strcmp_is_0 (owner_memory (fst nc)) owner) (\<lambda>eq.
       if eq then Inr (Some i) else find_note owner ncs (Suc i))"

definition AddDataProviderForNoteCommand ::
  "config \<Rightarrow> bytes \<Rightarrow> DataProvider \<Rightarrow> builder \<Rightarrow> (bool \<times> builder) res" where
  "AddDataProviderForNoteCommand cfg owner provider b =
     rbind (find_note (owner @ [0]) (note_cmds b) 0) (\<lambda>found.
       case found of
         None \<Rightarrow> Inr (False, b)
       | Some i \<Rightarrow>
           rbind (cpp_assert cfg (snd (note_cmds b ! i) = None)) (\<lambda>_.
             Inr (True, b\<lparr>note_cmds := (note_cmds b)[i :=
               ((fst (note_cmds b ! i))\<lparr>nc_size := dp_size provider\<rparr>, Some provider)]\<rparr>)))"

subsection \<open>Payload offsets\<close>

text \<open>The results are the return value and, when it is true, what \<open>*pOffsetOut\<close> was set to.\<close>

fun note_offset_loop :: "config \<Rightarrow> bytes \<Rightarrow> note_entry list \<Rightarrow> u64 \<Rightarrow> u64 option res" where
  "note_offset_loop cfg owner [] payloadOffset = Inr None"
| "note_offset_loop cfg owner (nc # ncs) payloadOffset =
     rbind (strcmp_is_0 owner (owner_memory (fst nc))) (\<lambda>eq.
       if eq then Inr (Some payloadOffset)
       else rbind (cpp_assert cfg (snd nc \<noteq> None)) (\<lambda>_.
         note_offset_loop cfg owner ncs (payloadOffset + nc_size (fst nc))))"

definition GetOffsetForNoteCommandPayload ::
  "config \<Rightarrow> bytes \<Rightarrow> builder \<Rightarrow> u64 option res" where
  "GetOffsetForNoteCommandPayload cfg owner b =
     (if \<not> finalized b then Inr None
      else
        let payloadStartOffset = of_nat sizeof_mach_header_64 + ucast (sizeofcmds (header b)) in
        rbind (RoundUp payloadStartOffset 16) (\<lambda>payloadOffset.
          note_offset_loop cfg owner (note_cmds b) payloadOffset))"

fun segment_offset_loop :: "config \<Rightarrow> u64 \<Rightarrow> segment_entry list \<Rightarrow> u64 \<Rightarrow> u64 option res" where
  "segment_offset_loop cfg vmaddr [] payloadOffset = Inr None"
| "segment_offset_loop cfg vmaddr (sc # scs) payloadOffset =
     (if vmaddr = sc_vmaddr (fst sc) then Inr (Some payloadOffset)
      else rbind (cpp_assert cfg (snd sc \<noteq> None)) (\<lambda>_.
        segment_offset_loop cfg vmaddr scs (payloadOffset + sc_filesize (fst sc))))"

definition GetOffsetForSegmentCommandPayload ::
  "config \<Rightarrow> u64 \<Rightarrow> builder \<Rightarrow> u64 option res" where
  "GetOffsetForSegmentCommandPayload cfg vmaddr b =
     (if \<not> finalized b then Inr None
      else if note_cmds b = [] then Inl OutOfBounds
      else
        let lastNoteCmd = fst (last (note_cmds b)) in
        rbind (GetOffsetForNoteCommandPayload cfg (owner_memory lastNoteCmd) b) (\<lambda>off.
        let lastNoteCommandPayloadOffset = (case off of None \<Rightarrow> 0 | Some x \<Rightarrow> x) in
        rbind (RoundUp (lastNoteCommandPayloadOffset + nc_size lastNoteCmd) 0x1000) (\<lambda>payloadOffset.
          segment_offset_loop cfg vmaddr (segment_cmds b) payloadOffset)))"

definition GetNumberOfSegmentCommands :: "builder \<Rightarrow> nat" where
  "GetNumberOfSegmentCommands b = length (segment_cmds b)"

definition GetSegmentCommand :: "nat \<Rightarrow> builder \<Rightarrow> segment_command_64 res" where
  "GetSegmentCommand i b =
     (if i < length (segment_cmds b) then Inr (fst (segment_cmds b ! i)) else Inl OutOfBounds)"

subsection \<open>Writing\<close>

text \<open>A step returns the value of the C++ function with the builder and the stream after it.\<close>

type_synonym 's build_step = "builder \<times> 's \<Rightarrow> (bool \<times> builder \<times> 's) res"

text \<open>\<open>if (!step) return false;\<close> and a loop of such steps.\<close>

definition and_then :: "'s build_step \<Rightarrow> 's build_step \<Rightarrow> 's build_step" where
  "and_then f g st = rbind (f st) (\<lambda>(ok, st'). if ok then g st' else Inr (False, st'))"

primrec for_each :: "('a \<Rightarrow> 's build_step) \<Rightarrow> 'a list \<Rightarrow> 's build_step" where
  "for_each f [] st = Inr (True, st)"
| "for_each f (x # xs) st = and_then (f x) (for_each f xs) st"

definition overwrites :: "u64 \<Rightarrow> u64 \<Rightarrow> u64 \<times> u64 \<Rightarrow> bool" where
  "overwrites start endp interval \<longleftrightarrow>
     (start < snd interval \<and> start > fst interval) \<or> (endp > fst interval \<and> endp < snd interval)"

definition WriteToOStream ::
  "config \<Rightarrow> 's IRandomAccessBinaryOStream \<Rightarrow> bytes option \<Rightarrow> u64 \<Rightarrow> 's build_step" where
  "WriteToOStream cfg S pData n = (\<lambda>(b, s).
     rbind (cpp_assert cfg (\<not> (pData = None \<and> n > 0))) (\<lambda>_.
     if debug_checks cfg then
       let (start, s) = os_GetPosition S s; endp = start + n in
       if \<exists>r \<in> set (writtenRanges b). overwrites start endp r
       then rbind (cpp_assert cfg False) (\<lambda>_. Inr (False, b, s))
       else
         rbind (os_Write S pData n s) (\<lambda>(ok, s).
           Inr (ok, b\<lparr>writtenRanges := writtenRanges b @ [(start, endp)]\<rparr>, s))
     else rbind (os_Write S pData n s) (\<lambda>(ok, s). Inr (ok, b, s))))"

subsection \<open>Build\<close>

definition set_note_offset :: "nat \<Rightarrow> u64 option \<Rightarrow> builder \<Rightarrow> builder" where
  "set_note_offset i off b =
     (case off of None \<Rightarrow> b
      | Some x \<Rightarrow> b\<lparr>note_cmds := (note_cmds b)[i :=
          ((fst (note_cmds b ! i))\<lparr>nc_offset := x\<rparr>, snd (note_cmds b ! i))]\<rparr>)"

definition set_segment_offset :: "nat \<Rightarrow> u64 option \<Rightarrow> builder \<Rightarrow> builder" where
  "set_segment_offset i off b =
     (case off of None \<Rightarrow> b
      | Some x \<Rightarrow> b\<lparr>segment_cmds := (segment_cmds b)[i :=
          ((fst (segment_cmds b ! i))\<lparr>sc_fileoff := x\<rparr>, snd (segment_cmds b ! i))]\<rparr>)"

definition write_note :: "config \<Rightarrow> 's IRandomAccessBinaryOStream \<Rightarrow> nat \<Rightarrow> 's build_step" where
  "write_note cfg S i = (\<lambda>(b, s).
     rbind (GetOffsetForNoteCommandPayload cfg (owner_memory (fst (note_cmds b ! i))) b) (\<lambda>off.
     let b = set_note_offset i off b in
     WriteToOStream cfg S (Some (enc_note (fst (note_cmds b ! i)))) (of_nat sizeof_note_command) (b, s)))"

definition write_thread :: "config \<Rightarrow> 's IRandomAccessBinaryOStream \<Rightarrow> bytes \<Rightarrow> 's build_step" where
  "write_thread cfg S tc = WriteToOStream cfg S (Some tc) (ucast (cmdsize_of tc))"

definition write_segment :: "config \<Rightarrow> 's IRandomAccessBinaryOStream \<Rightarrow> nat \<Rightarrow> 's build_step" where
  "write_segment cfg S i = (\<lambda>(b, s).
     rbind (GetOffsetForSegmentCommandPayload cfg (sc_vmaddr (fst (segment_cmds b ! i))) b) (\<lambda>off.
     let b = set_segment_offset i off b in
     WriteToOStream cfg S (Some (enc_segment (fst (segment_cmds b ! i))))
       (of_nat sizeof_segment_command_64) (b, s)))"

text \<open>
  An offset that was not found would be read uninitialised (\<open>u\<close>). A note without a provider
  is dereferenced as a null pointer.
\<close>

definition write_note_payload ::
  "config \<Rightarrow> u64 \<Rightarrow> 's IRandomAccessBinaryOStream \<Rightarrow> note_entry \<Rightarrow> 's build_step" where
  "write_note_payload cfg u S nc = (\<lambda>(b, s).
     rbind (GetOffsetForNoteCommandPayload cfg (owner_memory (fst nc)) b) (\<lambda>off.
     let s = os_SetPosition S (case off of None \<Rightarrow> u | Some x \<Rightarrow> x) s in
     case snd nc of
       None \<Rightarrow> Inl OutOfBounds
     | Some p \<Rightarrow> WriteToOStream cfg S (GetAll (dp_ptr p)) (nc_size (fst nc)) (b, s)))"

definition MaxChunkSize :: u64 where
  "MaxChunkSize = 4096 * 1024"

text \<open>
  The loop over the chunks also gives the value of \<open>offset\<close> when it ends, by its condition
  or by the \<open>break\<close> after a read that failed.
\<close>

fun chunk_loop ::
  "'z mem_kernel_scheme \<Rightarrow> config \<Rightarrow> 's IRandomAccessBinaryOStream \<Rightarrow> IDataPtr \<Rightarrow> u64 \<Rightarrow> nat \<Rightarrow> u64 \<Rightarrow>
     builder \<times> 's \<Rightarrow> (bool \<times> u64 \<times> builder \<times> 's) res"
where
  "chunk_loop K cfg S p chunkSize 0 offs st = Inr (True, offs, st)"
| "chunk_loop K cfg S p chunkSize (Suc n) offs st =
     rbind (Get K p offs chunkSize) (\<lambda>data.
       if data = None then Inr (True, offs, st)
       else rbind (WriteToOStream cfg S data chunkSize st) (\<lambda>(ok, st).
         if \<not> ok then Inr (False, offs, st)
         else chunk_loop K cfg S p chunkSize n (offs + chunkSize) st))"

definition write_segment_payload ::
  "'z mem_kernel_scheme \<Rightarrow> config \<Rightarrow> u64 \<Rightarrow> 's IRandomAccessBinaryOStream \<Rightarrow> segment_entry \<Rightarrow>
     's build_step"
where
  "write_segment_payload K cfg u S sc = (\<lambda>(b, s).
     case snd sc of
       None \<Rightarrow> Inl OutOfBounds
     | Some p \<Rightarrow>
         rbind (cpp_assert cfg (dp_size p = sc_filesize (fst sc))) (\<lambda>_.
         rbind (GetOffsetForSegmentCommandPayload cfg (sc_vmaddr (fst sc)) b) (\<lambda>off.
         let s = os_SetPosition S (case off of None \<Rightarrow> u | Some x \<Rightarrow> x) s;
             dataSize = dp_size p;
             chunkSize = min dataSize MaxChunkSize
         in if chunkSize = 0 then Inl DivByZero
         else
           let nLeftOverBytes = dataSize mod chunkSize;
               iters = dataSize div chunkSize
           in rbind (chunk_loop K cfg S (dp_ptr p) chunkSize (unat iters) 0 (b, s)) (\<lambda>(ok, offs, st).
                if \<not> ok then Inr (False, st)
                else if nLeftOverBytes \<ge> 0 then
                  rbind (Get K (dp_ptr p) offs nLeftOverBytes) (\<lambda>data.
                    WriteToOStream cfg S data nLeftOverBytes st)
                else Inr (True, st)))))"

definition Build ::
  "'z mem_kernel_scheme \<Rightarrow> config \<Rightarrow> u64 \<Rightarrow> 's IRandomAccessBinaryOStream \<Rightarrow> 's build_step" where
  "Build K cfg u S = (\<lambda>(b, s).
     let b = (if debug_checks cfg then b\<lparr>writtenRanges := []\<rparr> else b);
         b = FinalizeLoadCommands b
     in and_then (WriteToOStream cfg S (Some (enc_header (header b))) (of_nat sizeof_mach_header_64))
        (and_then (for_each (write_note cfg S) [0..<length (note_cmds b)])
        (and_then (for_each (write_thread cfg S) (thread_cmds b))
        (and_then (for_each (write_segment cfg S) [0..<length (segment_cmds b)])
        (and_then (\<lambda>(b, s). for_each (write_note_payload cfg u S) (note_cmds b) (b, s))
          (\<lambda>(b, s). for_each (write_segment_payload K cfg u S) (segment_cmds b) (b, s)))))) (b, s))"

end
