(* ===== verification/CoreFile.thy ===== *)
theory CoreFile
  imports CoreBuilder
begin

text \<open>
  What \<open>MachOCoreDumpBuilder::Build\<close> writes. \<open>file_image\<close> is the whole file as one expression:
  header, load commands, note payloads from a 16-byte boundary, segment payloads from a page
  boundary. For a builder whose payloads can be read, \<open>Build\<close> returns true and the stream
  holds exactly this file, with or without the overlap check of the debug build.
\<close>

subsection \<open>Layout\<close>

definition round_up :: "nat \<Rightarrow> nat \<Rightarrow> nat" where
  "round_up n k = (if n mod k = 0 then n else (n div k + 1) * k)"

definition structured :: "builder \<Rightarrow> bool" where
  "structured b \<longleftrightarrow>
     (\<forall>nc \<in> set (note_cmds b). nc_cmd (fst nc) = LC_NOTE \<and> nc_cmdsize (fst nc) = 40 \<and>
        length (data_owner (fst nc)) = 16) \<and>
     (\<forall>tc \<in> set (thread_cmds b). 8 \<le> length tc \<and> cmd_of tc = LC_THREAD \<and>
        unat (cmdsize_of tc) = length tc) \<and>
     (\<forall>sc \<in> set (segment_cmds b). sc_cmd (fst sc) = LC_SEGMENT_64 \<and> sc_cmdsize (fst sc) = 72 \<and>
        length (sc_segname (fst sc)) = 16)"

definition commands_size :: "builder \<Rightarrow> nat" where
  "commands_size b =
     40 * length (note_cmds b) + sum_list (map length (thread_cmds b)) + 72 * length (segment_cmds b)"

definition note_size :: "note_entry \<Rightarrow> nat" where
  "note_size nc = unat (nc_size (fst nc))"

definition segment_size :: "segment_entry \<Rightarrow> nat" where
  "segment_size sc = unat (sc_filesize (fst sc))"

definition notes_start :: "builder \<Rightarrow> nat" where
  "notes_start b = round_up (32 + commands_size b) 16"

definition note_off :: "builder \<Rightarrow> nat \<Rightarrow> nat" where
  "note_off b i = notes_start b + sum_list (map note_size (take i (note_cmds b)))"

definition notes_end :: "builder \<Rightarrow> nat" where
  "notes_end b = note_off b (length (note_cmds b))"

definition segments_start :: "builder \<Rightarrow> nat" where
  "segments_start b = round_up (notes_end b) 4096"

definition segment_off :: "builder \<Rightarrow> nat \<Rightarrow> nat" where
  "segment_off b i = segments_start b + sum_list (map segment_size (take i (segment_cmds b)))"

definition file_end :: "builder \<Rightarrow> nat" where
  "file_end b = segment_off b (length (segment_cmds b))"

definition owner_string :: "note_command \<Rightarrow> bytes" where
  "owner_string c = takeWhile (\<lambda>x. x \<noteq> 0) (data_owner c)"

definition unique_names :: "builder \<Rightarrow> bool" where
  "unique_names b \<longleftrightarrow>
     distinct (map (owner_string \<circ> fst) (note_cmds b)) \<and>
     distinct (map (sc_vmaddr \<circ> fst) (segment_cmds b))"

definition note_payload :: "note_entry \<Rightarrow> bytes \<Rightarrow> bool" where
  "note_payload nc n \<longleftrightarrow>
     (\<exists>p d. snd nc = Some p \<and> GetAll (dp_ptr p) = Some d \<and> note_size nc \<le> length d \<and>
            n = take (note_size nc) d)"

definition segment_payload :: "'z mem_kernel_scheme \<Rightarrow> segment_entry \<Rightarrow> bytes \<Rightarrow> bool" where
  "segment_payload K sc d \<longleftrightarrow>
     (\<exists>p. snd sc = Some p \<and> dp_size p = sc_filesize (fst sc) \<and> dp_size p \<noteq> 0 \<and>
          provides K (dp_ptr p) d \<and> length d = segment_size sc)"

text \<open>
  A builder that is ready: what its operations guarantee, names that tell the commands apart,
  at least one note, payloads that can be read, and a file below the sizes at which the 32-bit
  field of the header or the offsets would wrap around.
\<close>

definition ready :: "'z mem_kernel_scheme \<Rightarrow> builder \<Rightarrow> bytes list \<Rightarrow> bytes list \<Rightarrow> bool" where
  "ready K b ns ss \<longleftrightarrow>
     \<not> finalized b \<and> writtenRanges b = [] \<and> structured b \<and> unique_names b \<and> note_cmds b \<noteq> [] \<and>
     list_all2 note_payload (note_cmds b) ns \<and> list_all2 (segment_payload K) (segment_cmds b) ss \<and>
     (\<forall>nc \<in> set (note_cmds b). nc_offset (fst nc) < 2 ^ 56) \<and>
     commands_size b < 2 ^ 32 \<and> file_end b < 2 ^ 56"

definition final_note :: "builder \<Rightarrow> nat \<Rightarrow> note_command" where
  "final_note b i = (fst (note_cmds b ! i))\<lparr>nc_offset := of_nat (note_off b i)\<rparr>"

definition final_segment :: "builder \<Rightarrow> nat \<Rightarrow> segment_command_64" where
  "final_segment b i = (fst (segment_cmds b ! i))\<lparr>sc_fileoff := of_nat (segment_off b i)\<rparr>"

definition note_commands_image :: "builder \<Rightarrow> nat \<Rightarrow> bytes" where
  "note_commands_image b i = concat (map (\<lambda>j. enc_note (final_note b j)) [0..<i])"

definition segment_commands_image :: "builder \<Rightarrow> nat \<Rightarrow> bytes" where
  "segment_commands_image b i = concat (map (\<lambda>j. enc_segment (final_segment b j)) [0..<i])"

definition commands_image :: "builder \<Rightarrow> bytes" where
  "commands_image b =
     enc_header (header (FinalizeLoadCommands b)) @
     note_commands_image b (length (note_cmds b)) @ concat (thread_cmds b) @
     segment_commands_image b (length (segment_cmds b))"

definition notes_image :: "builder \<Rightarrow> bytes list \<Rightarrow> nat \<Rightarrow> bytes" where
  "notes_image b ns i =
     commands_image b @ replicate (notes_start b - (32 + commands_size b)) 0 @ concat (take i ns)"

definition file_image :: "builder \<Rightarrow> bytes list \<Rightarrow> bytes list \<Rightarrow> bytes" where
  "file_image b ns ss =
     notes_image b ns (length ns) @ replicate (segments_start b - notes_end b) 0 @ concat ss"

subsection \<open>Rounding\<close>

lemma round_up_ge:
  assumes "0 < k"
  shows "n \<le> round_up n k"
proof -
  have "n mod k < k" "n div k * k + n mod k = n" using assms by simp_all
  then have "n \<le> k + n div k * k" by linarith
  then show ?thesis by (simp add: round_up_def)
qed

lemma round_up_dvd: "k dvd round_up n k"
  by (auto simp: round_up_def mod_eq_0_iff_dvd)

lemma round_up_less: "0 < k \<Longrightarrow> round_up n k < n + k"
proof -
  assume "0 < k"
  have "n div k * k \<le> n" by simp
  moreover have "n mod k \<noteq> 0 \<Longrightarrow> n div k * k < n"
    using div_mult_mod_eq [of n k] by linarith
  ultimately show ?thesis using \<open>0 < k\<close> by (auto simp: round_up_def)
qed

lemma unat_of_nat_small: "n < 2 ^ 64 \<Longrightarrow> unat (of_nat n :: u64) = n"
  by (simp add: unsigned_of_nat take_bit_nat_eq_self)

lemma RoundUp_of_nat:
  assumes "n + k < 2 ^ 64" and "0 < k"
  shows "RoundUp (of_nat n) (of_nat k) = Inr (of_nat (round_up n k))"
proof -
  have n: "unat (of_nat n :: u64) = n" and k: "unat (of_nat k :: u64) = k"
    using assms by (simp_all add: unat_of_nat_small)
  have "(of_nat k :: u64) \<noteq> 0" using k assms(2) by auto
  moreover have "(of_nat n :: u64) mod of_nat k = of_nat (n mod k)"
    by (simp add: word_arith_nat_mod n k)
  moreover have "(of_nat n :: u64) div of_nat k = of_nat (n div k)"
    by (simp add: word_arith_nat_div n k)
  moreover have "(of_nat (n mod k) :: u64) = 0 \<longleftrightarrow> n mod k = 0"
  proof -
    have "n mod k < 2 ^ 64" using assms(1) mod_le_divisor [OF assms(2), of n] by simp
    then have "unat (of_nat (n mod k) :: u64) = n mod k" by (rule unat_of_nat_small)
    then show ?thesis by (metis unat_eq_0)
  qed
  ultimately show ?thesis
    by (simp add: RoundUp_def round_up_def Let_def distrib_right)
qed

subsection \<open>Finding a note by its owner\<close>

lemma owner_memory_differs:
  assumes "length x = length y" and "takeWhile (\<lambda>b. b \<noteq> 0) x \<noteq> takeWhile (\<lambda>b. b \<noteq> 0) y"
  shows "strcmp_eq (x @ r) (y @ r') = Some False"
  using assms by (induction x y rule: list_induct2) (auto split: if_splits)

lemma le64_has_zero: "w < 2 ^ 56 \<Longrightarrow> 0 \<in> set (le64 w)"
proof -
  assume w: "w < 2 ^ 56"
  have "drop_bit 56 w = 0"
    using w by (simp add: drop_bit_eq_div word_arith_nat_div word_less_nat_alt)
  moreover have "le64 w ! 7 = ucast (drop_bit 56 w)"
    by (simp add: eval_nat_numeral)
  ultimately have "le64 w ! 7 = 0" by simp
  moreover have "le64 w ! 7 \<in> set (le64 w)" by (intro nth_mem) simp
  ultimately show ?thesis by simp
qed

lemma strcmp_same_owner:
  assumes "nc_offset c < 2 ^ 56"
  shows "strcmp_is_0 (owner_memory c) (owner_memory c) = Inr True"
  using strcmp_eq_refl [of "owner_memory c"] le64_has_zero [OF assms]
  by (simp add: strcmp_is_0_def owner_memory_def)

lemma strcmp_other_owner:
  assumes "length (data_owner c) = 16" "length (data_owner d) = 16" "owner_string c \<noteq> owner_string d"
  shows "strcmp_is_0 (owner_memory c) (owner_memory d) = Inr False"
  using owner_memory_differs [of "data_owner c" "data_owner d"] assms
  by (simp add: strcmp_is_0_def owner_memory_def owner_string_def)

lemma note_offset_loop_found:
  assumes "\<forall>nc \<in> set pre. length (data_owner (fst nc)) = 16 \<and> owner_string (fst nc) \<noteq> owner_string c \<and> snd nc \<noteq> None"
    and "length (data_owner c) = 16" and "nc_offset c < 2 ^ 56"
  shows "note_offset_loop cfg (owner_memory c) (pre @ (c, p) # post) (of_nat a) =
    Inr (Some (of_nat (a + sum_list (map note_size pre))))"
  using assms(1)
proof (induction pre arbitrary: a)
  case Nil
  then show ?case by (simp add: strcmp_same_owner [OF assms(3)])
next
  case (Cons nc pre)
  then have "strcmp_is_0 (owner_memory c) (owner_memory (fst nc)) = Inr False"
    using assms(2) by (intro strcmp_other_owner) auto
  moreover have "(of_nat a + nc_size (fst nc) :: u64) = of_nat (a + note_size nc)"
    by (simp add: note_size_def)
  ultimately show ?case
    using Cons.IH [of "a + note_size nc"] Cons.prems by (auto simp: add.assoc)
qed

lemma segment_offset_loop_found:
  assumes "\<forall>sc \<in> set pre. sc_vmaddr (fst sc) \<noteq> sc_vmaddr c \<and> snd sc \<noteq> None"
  shows "segment_offset_loop cfg (sc_vmaddr c) (pre @ (c, p) # post) (of_nat a) =
    Inr (Some (of_nat (a + sum_list (map segment_size pre))))"
  using assms
proof (induction pre arbitrary: a)
  case (Cons sc pre)
  have "(of_nat a + sc_filesize (fst sc) :: u64) = of_nat (a + segment_size sc)"
    by (simp add: segment_size_def)
  with Cons.IH [of "a + segment_size sc"] Cons.prems show ?case by (auto simp: add.assoc)
qed simp

subsection \<open>Builders that differ in what \<open>Build\<close> fills in\<close>

text \<open>
  \<open>Build\<close> updates the offsets in the commands, and the record of written ranges, while it
  goes. None of it changes the layout.
\<close>

definition strip :: "builder \<Rightarrow> builder" where
  "strip b = b\<lparr>note_cmds := map (\<lambda>(c, p). (c\<lparr>nc_offset := 0\<rparr>, p)) (note_cmds b),
              segment_cmds := map (\<lambda>(c, p). (c\<lparr>sc_fileoff := 0\<rparr>, p)) (segment_cmds b),
              writtenRanges := []\<rparr>"

lemma strip_fields:
  assumes "strip b = strip b0"
  shows "finalized b = finalized b0" and "header b = header b0" and "thread_cmds b = thread_cmds b0"
    and "map (\<lambda>(c, p). (c\<lparr>nc_offset := 0\<rparr>, p)) (note_cmds b) =
         map (\<lambda>(c, p). (c\<lparr>nc_offset := 0\<rparr>, p)) (note_cmds b0)"
    and "map (\<lambda>(c, p). (c\<lparr>sc_fileoff := 0\<rparr>, p)) (segment_cmds b) =
         map (\<lambda>(c, p). (c\<lparr>sc_fileoff := 0\<rparr>, p)) (segment_cmds b0)"
  using assms by (cases b; cases b0; simp add: strip_def)+

lemma strip_note:
  assumes "strip b = strip b0"
  shows "length (note_cmds b) = length (note_cmds b0)"
    and "i < length (note_cmds b0) \<Longrightarrow>
      snd (note_cmds b ! i) = snd (note_cmds b0 ! i) \<and>
      (fst (note_cmds b ! i))\<lparr>nc_offset := x\<rparr> = (fst (note_cmds b0 ! i))\<lparr>nc_offset := x\<rparr>"
proof -
  note eq = strip_fields(4) [OF assms]
  show len: "length (note_cmds b) = length (note_cmds b0)"
    using arg_cong [OF eq, of length] by simp
  show "snd (note_cmds b ! i) = snd (note_cmds b0 ! i) \<and>
      (fst (note_cmds b ! i))\<lparr>nc_offset := x\<rparr> = (fst (note_cmds b0 ! i))\<lparr>nc_offset := x\<rparr>"
    if i: "i < length (note_cmds b0)"
    using arg_cong [OF eq, of "\<lambda>xs. xs ! i"] i len
    by (cases "note_cmds b ! i"; cases "note_cmds b0 ! i"; cases "fst (note_cmds b ! i)";
        cases "fst (note_cmds b0 ! i)") simp
qed

lemma strip_segment:
  assumes "strip b = strip b0"
  shows "length (segment_cmds b) = length (segment_cmds b0)"
    and "i < length (segment_cmds b0) \<Longrightarrow>
      snd (segment_cmds b ! i) = snd (segment_cmds b0 ! i) \<and>
      (fst (segment_cmds b ! i))\<lparr>sc_fileoff := x\<rparr> = (fst (segment_cmds b0 ! i))\<lparr>sc_fileoff := x\<rparr>"
proof -
  note eq = strip_fields(5) [OF assms]
  show len: "length (segment_cmds b) = length (segment_cmds b0)"
    using arg_cong [OF eq, of length] by simp
  show "snd (segment_cmds b ! i) = snd (segment_cmds b0 ! i) \<and>
      (fst (segment_cmds b ! i))\<lparr>sc_fileoff := x\<rparr> = (fst (segment_cmds b0 ! i))\<lparr>sc_fileoff := x\<rparr>"
    if i: "i < length (segment_cmds b0)"
    using arg_cong [OF eq, of "\<lambda>xs. xs ! i"] i len
    by (cases "segment_cmds b ! i"; cases "segment_cmds b0 ! i"; cases "fst (segment_cmds b ! i)";
        cases "fst (segment_cmds b0 ! i)") simp
qed

lemma strip_set_note: "i < length (note_cmds b) \<Longrightarrow> strip (set_note_offset i x b) = strip b"
  by (cases x; cases "note_cmds b ! i")
    (simp_all add: strip_def set_note_offset_def map_update list_update_same_conv)

lemma strip_set_segment: "i < length (segment_cmds b) \<Longrightarrow> strip (set_segment_offset i x b) = strip b"
  by (cases x; cases "segment_cmds b ! i")
    (simp_all add: strip_def set_segment_offset_def map_update list_update_same_conv)

lemma strip_ranges [simp]: "strip (b\<lparr>writtenRanges := r\<rparr>) = strip b"
  by (simp add: strip_def)

lemma strip_map_notes:
  assumes "strip b = strip b0" and "\<And>c p. f (c\<lparr>nc_offset := 0\<rparr>, p) = f (c, p)"
  shows "map f (note_cmds b) = map f (note_cmds b0)"
proof -
  have "map f (note_cmds b) = map f (map (\<lambda>(c, p). (c\<lparr>nc_offset := 0\<rparr>, p)) (note_cmds b))" for b
    using assms(2) by auto
  then show ?thesis using strip_fields(4) [OF assms(1)] by metis
qed

lemma strip_map_segments:
  assumes "strip b = strip b0" and "\<And>c p. f (c\<lparr>sc_fileoff := 0\<rparr>, p) = f (c, p)"
  shows "map f (segment_cmds b) = map f (segment_cmds b0)"
proof -
  have "map f (segment_cmds b) = map f (map (\<lambda>(c, p). (c\<lparr>sc_fileoff := 0\<rparr>, p)) (segment_cmds b))" for b
    using assms(2) by auto
  then show ?thesis using strip_fields(5) [OF assms(1)] by metis
qed

lemma strip_map_take:
  assumes "strip b = strip b0"
  shows "map note_size (take i (note_cmds b)) = map note_size (take i (note_cmds b0))"
    and "map segment_size (take i (segment_cmds b)) = map segment_size (take i (segment_cmds b0))"
  using strip_map_notes [OF assms, of note_size] strip_map_segments [OF assms, of segment_size]
  by (simp_all add: note_size_def segment_size_def take_map [symmetric])

text \<open>The states of the builder while \<open>Build\<close> runs on \<open>b0\<close>.\<close>

definition building :: "builder \<Rightarrow> builder \<Rightarrow> bool" where
  "building b0 b \<longleftrightarrow> strip b = strip (FinalizeLoadCommands b0) \<and>
     (\<forall>nc \<in> set (note_cmds b). nc_offset (fst nc) < 2 ^ 56)"

lemma Finalize_fields [simp]:
  "note_cmds (FinalizeLoadCommands b) = note_cmds b"
  "thread_cmds (FinalizeLoadCommands b) = thread_cmds b"
  "segment_cmds (FinalizeLoadCommands b) = segment_cmds b"
  "finalized (FinalizeLoadCommands b)"
  "writtenRanges (FinalizeLoadCommands b) = writtenRanges b"
  by (simp_all add: FinalizeLoadCommands_def)

lemma Finalize_sizeofcmds:
  assumes "\<not> finalized b" and "structured b" and "commands_size b < 2 ^ 32"
  shows "sizeofcmds (header (FinalizeLoadCommands b)) = of_nat (commands_size b)"
    and "unat (sizeofcmds (header (FinalizeLoadCommands b))) = commands_size b"
proof -
  have nts: "map (\<lambda>nc. ucast (nc_cmdsize (fst nc))) (note_cmds b) = (map (\<lambda>nc. 40) (note_cmds b) :: u64 list)"
    and segs: "map (\<lambda>sc. ucast (sc_cmdsize (fst sc))) (segment_cmds b) = (map (\<lambda>sc. 72) (segment_cmds b) :: u64 list)"
    using assms(2) by (simp_all add: structured_def)
  have "ucast (cmdsize_of tc) = (of_nat (length tc) :: u64)" if "tc \<in> set (thread_cmds b)" for tc
  proof -
    have "of_nat (length tc) = (of_nat (unat (cmdsize_of tc)) :: u64)"
      using assms(2) that by (simp add: structured_def)
    then show ?thesis by simp
  qed
  then have threads: "map (\<lambda>tc. ucast (cmdsize_of tc)) (thread_cmds b) =
      (map (\<lambda>tc. of_nat (length tc)) (thread_cmds b) :: u64 list)"
    by simp
  have sum: "sum_list (map (\<lambda>tc. of_nat (length tc)) ts) = (of_nat (sum_list (map length ts)) :: u64)"
    for ts :: "bytes list"
    by (induction ts) simp_all
  have "sum_list (sizes_of_commands b) = of_nat (commands_size b)"
    unfolding sizes_of_commands_def nts segs threads
    by (simp add: sum commands_size_def sum_list_triv)
  then show *: "sizeofcmds (header (FinalizeLoadCommands b)) = of_nat (commands_size b)"
    using assms(1,3) by (simp add: FinalizeLoadCommands_def unsigned_of_nat take_bit_nat_eq_self)
  show "unat (sizeofcmds (header (FinalizeLoadCommands b))) = commands_size b"
    using assms(3) by (simp add: * unsigned_of_nat take_bit_nat_eq_self)
qed

subsection \<open>The offsets that are computed\<close>

lemma bounds_chain:
  assumes "i \<le> length (note_cmds b)"
  shows "32 + commands_size b \<le> notes_start b" and "notes_start b \<le> note_off b i"
    and "note_off b i \<le> notes_end b" and "notes_end b \<le> segments_start b"
    and "segments_start b \<le> segment_off b j" and "segment_off b j \<le> file_end b"
proof -
  show "32 + commands_size b \<le> notes_start b" "notes_end b \<le> segments_start b"
    by (simp_all add: notes_start_def segments_start_def round_up_ge)
  show "notes_start b \<le> note_off b i" "segments_start b \<le> segment_off b j"
    by (simp_all add: note_off_def segment_off_def)
  have split: "sum_list (map f (take n xs)) + sum_list (map f (drop n xs)) = sum_list (map f xs)"
    for f :: "'x \<Rightarrow> nat" and n xs
    by (metis append_take_drop_id map_append sum_list_append)
  show "note_off b i \<le> notes_end b"
    using split [of note_size i "note_cmds b"] by (simp add: note_off_def notes_end_def)
  show "segment_off b j \<le> file_end b"
    using split [of segment_size j "segment_cmds b"] by (simp add: segment_off_def file_end_def)
qed

lemma note_off_le: "i \<le> length (note_cmds b) \<Longrightarrow> note_off b i \<le> file_end b"
  using bounds_chain(3,4) [of i b] bounds_chain(5,6) [of i b 0] by simp

lemma ready_building:
  assumes "ready K b0 ns ss" and "building b0 b"
  shows "finalized b" and "sizeofcmds (header b) = of_nat (commands_size b0)"
    and "map snd (note_cmds b) = map snd (note_cmds b0)"
    and "map (owner_string \<circ> fst) (note_cmds b) = map (owner_string \<circ> fst) (note_cmds b0)"
    and "map (length \<circ> data_owner \<circ> fst) (note_cmds b) = map (length \<circ> data_owner \<circ> fst) (note_cmds b0)"
    and "map snd (segment_cmds b) = map snd (segment_cmds b0)"
    and "map (sc_vmaddr \<circ> fst) (segment_cmds b) = map (sc_vmaddr \<circ> fst) (segment_cmds b0)"
    and "\<forall>nc \<in> set (note_cmds b). nc_offset (fst nc) < 2 ^ 56"
proof -
  have eq: "strip b = strip (FinalizeLoadCommands b0)" using assms(2) by (simp add: building_def)
  have b0: "\<not> finalized b0" "structured b0" "commands_size b0 < 2 ^ 32"
    using assms(1) by (simp_all add: ready_def)
  show "finalized b" using strip_fields(1) [OF eq] by simp
  show "sizeofcmds (header b) = of_nat (commands_size b0)"
    using strip_fields(2) [OF eq] Finalize_sizeofcmds(1) [OF b0] by simp
  show "map snd (note_cmds b) = map snd (note_cmds b0)"
    "map (owner_string \<circ> fst) (note_cmds b) = map (owner_string \<circ> fst) (note_cmds b0)"
    "map (length \<circ> data_owner \<circ> fst) (note_cmds b) = map (length \<circ> data_owner \<circ> fst) (note_cmds b0)"
    by (subst strip_map_notes [OF eq], simp_all add: owner_string_def)+
  show "map snd (segment_cmds b) = map snd (segment_cmds b0)"
    "map (sc_vmaddr \<circ> fst) (segment_cmds b) = map (sc_vmaddr \<circ> fst) (segment_cmds b0)"
    by (subst strip_map_segments [OF eq], simp_all)+
  show "\<forall>nc \<in> set (note_cmds b). nc_offset (fst nc) < 2 ^ 56"
    using assms(2) by (simp add: building_def)
qed

lemma sum_take_Suc:
  "i < length xs \<Longrightarrow>
     sum_list (map f (take (Suc i) xs)) = sum_list (map f (take i xs)) + (f (xs ! i) :: nat)"
  by (simp add: take_Suc_conv_app_nth)

lemma take_distinct_map:
  assumes "distinct (map f xs)" and "i < length xs" and "x \<in> set (take i xs)"
  shows "f x \<noteq> f (xs ! i)"
proof -
  have "map f xs = map f (take i xs) @ f (xs ! i) # map f (drop (Suc i) xs)"
    using split_at [OF assms(2)] by (metis list.simps(9) map_append)
  moreover have "f x \<in> f ` set (take i xs)" using assms(3) by (rule imageI)
  ultimately show ?thesis using assms(1) by auto
qed

lemma list_all2_left: "list_all2 P xs ys \<Longrightarrow> x \<in> set xs \<Longrightarrow> \<exists>y. P x y"
  by (induction rule: list_all2_induct) auto

lemma note_lookup:
  assumes "ready K b0 ns ss" and "building b0 b" and "i < length (note_cmds b0)"
  shows "GetOffsetForNoteCommandPayload cfg (owner_memory (fst (note_cmds b ! i))) b =
    Inr (Some (of_nat (note_off b0 i)))"
proof -
  note F = ready_building [OF assms(1,2)]
  have eq: "strip b = strip (FinalizeLoadCommands b0)" using assms(2) by (simp add: building_def)
  have i: "i < length (note_cmds b)" using F(3) assms(3) by (metis length_map)
  let ?c = "fst (note_cmds b ! i)" and ?pre = "take i (note_cmds b)"
  have len: "length (data_owner (fst nc)) = 16" if "nc \<in> set (note_cmds b)" for nc
  proof -
    have "set (map (length \<circ> data_owner \<circ> fst) (note_cmds b)) \<subseteq> {16}"
      unfolding F(5) using assms(1) by (auto simp: ready_def structured_def)
    with that show ?thesis by auto
  qed
  have some: "snd nc \<noteq> None" if "nc \<in> set (note_cmds b)" for nc
  proof -
    have "set (map snd (note_cmds b)) \<subseteq> - {None}"
      unfolding F(3) using assms(1) list_all2_left [of note_payload "note_cmds b0" ns]
      by (fastforce simp: ready_def note_payload_def)
    with that show ?thesis by force
  qed
  have "distinct (map (owner_string \<circ> fst) (note_cmds b))"
    unfolding F(4) using assms(1) by (simp add: ready_def unique_names_def)
  note other = take_distinct_map [OF this i]
  have found: "note_offset_loop cfg (owner_memory ?c) (?pre @ (?c, snd (note_cmds b ! i)) # drop (Suc i) (note_cmds b))
      (of_nat (notes_start b0)) = Inr (Some (of_nat (notes_start b0 + sum_list (map note_size ?pre))))"
    by (rule note_offset_loop_found)
      (use other len some i F(8) in \<open>auto dest!: in_set_takeD simp: comp_def\<close>)
  have "commands_size b0 < 2 ^ 32" using assms(1) by (simp add: ready_def)
  then have "32 + commands_size b0 + 16 < 2 ^ 64" by simp
  then have start: "RoundUp (of_nat (32 + commands_size b0)) (of_nat 16) = Inr (of_nat (notes_start b0))"
    using RoundUp_of_nat [of "32 + commands_size b0" 16] by (simp add: notes_start_def)
  have "of_nat sizeof_mach_header_64 + ucast (sizeofcmds (header b)) = (of_nat (32 + commands_size b0) :: u64)"
    using \<open>commands_size b0 < 2 ^ 32\<close>
    by (simp add: F(2) sizeofs unsigned_of_nat take_bit_nat_eq_self unsigned_ucast_eq)
  with start have "GetOffsetForNoteCommandPayload cfg (owner_memory ?c) b =
      note_offset_loop cfg (owner_memory ?c) (note_cmds b) (of_nat (notes_start b0))"
    by (simp add: GetOffsetForNoteCommandPayload_def F(1) Let_def)
  also have "\<dots> = Inr (Some (of_nat (notes_start b0 + sum_list (map note_size ?pre))))"
    using found split_at [OF i] by simp
  finally show ?thesis
    using strip_map_take(1) [OF eq, of i] by (simp add: note_off_def)
qed

lemma segment_lookup:
  assumes "ready K b0 ns ss" and "building b0 b" and "i < length (segment_cmds b0)"
  shows "GetOffsetForSegmentCommandPayload cfg (sc_vmaddr (fst (segment_cmds b ! i))) b =
    Inr (Some (of_nat (segment_off b0 i)))"
proof -
  note F = ready_building [OF assms(1,2)]
  have eq: "strip b = strip (FinalizeLoadCommands b0)" using assms(2) by (simp add: building_def)
  have i: "i < length (segment_cmds b)" using F(6) assms(3) by (metis length_map)
  let ?n = "length (note_cmds b0) - 1"
  have ne: "note_cmds b0 \<noteq> []" using assms(1) by (simp add: ready_def)
  have len: "length (note_cmds b) = length (note_cmds b0)" using F(3) by (metis length_map)
  have nb: "note_cmds b \<noteq> []" using len ne by auto
  have last: "last (note_cmds b) = note_cmds b ! ?n" using last_conv_nth [OF nb] len by simp
  have n: "?n < length (note_cmds b0)" using ne by simp
  have whole: "note_off b0 ?n + note_size (note_cmds b ! ?n) = notes_end b0"
  proof -
    have "map note_size (note_cmds b) = map note_size (note_cmds b0)"
      using strip_map_notes [OF eq, of note_size] by (simp add: note_size_def)
    then have "note_size (note_cmds b ! ?n) = note_size (note_cmds b0 ! ?n)"
      using n len by (metis nth_map)
    moreover have "sum_list (map note_size (take (Suc ?n) (note_cmds b0))) =
        sum_list (map note_size (take ?n (note_cmds b0))) + note_size (note_cmds b0 ! ?n)"
      by (rule sum_take_Suc [OF n])
    moreover have "Suc ?n = length (note_cmds b0)" using ne by simp
    ultimately show ?thesis
      by (simp add: notes_end_def note_off_def)
  qed
  have sum: "of_nat (note_off b0 ?n) + nc_size (fst (note_cmds b ! ?n)) = (of_nat (notes_end b0) :: u64)"
    by (simp add: note_size_def flip: whole)
  have "notes_end b0 \<le> file_end b0"
    using bounds_chain(4,5) [of 0 b0] bounds_chain(6) [of 0 b0] by (meson le0 le_trans)
  moreover have "file_end b0 < 2 ^ 56" using assms(1) by (simp add: ready_def)
  ultimately have small: "notes_end b0 + 4096 < 2 ^ 64" by simp
  have start: "RoundUp (of_nat (notes_end b0)) 0x1000 = Inr (of_nat (segments_start b0))"
    using RoundUp_of_nat [OF small] by (simp add: segments_start_def)
  let ?c = "fst (segment_cmds b ! i)" and ?pre = "take i (segment_cmds b)"
  have some: "snd sc \<noteq> None" if "sc \<in> set (segment_cmds b)" for sc
  proof -
    have "set (map snd (segment_cmds b)) \<subseteq> - {None}"
      unfolding F(6) using assms(1) list_all2_left [of "segment_payload K" "segment_cmds b0" ss]
      by (fastforce simp: ready_def segment_payload_def)
    with that show ?thesis by force
  qed
  have "distinct (map (sc_vmaddr \<circ> fst) (segment_cmds b))"
    unfolding F(7) using assms(1) by (simp add: ready_def unique_names_def)
  note other = take_distinct_map [OF this i]
  have found: "segment_offset_loop cfg (sc_vmaddr ?c) (?pre @ (?c, snd (segment_cmds b ! i)) # drop (Suc i) (segment_cmds b))
      (of_nat (segments_start b0)) = Inr (Some (of_nat (segments_start b0 + sum_list (map segment_size ?pre))))"
    by (rule segment_offset_loop_found) (use other some in \<open>auto dest!: in_set_takeD\<close>)
  have "GetOffsetForSegmentCommandPayload cfg (sc_vmaddr ?c) b =
      segment_offset_loop cfg (sc_vmaddr ?c) (segment_cmds b) (of_nat (segments_start b0))"
    using note_lookup [OF assms(1,2) n] last nb F(1) start sum
    by (simp add: GetOffsetForSegmentCommandPayload_def Let_def)
  also have "\<dots> = Inr (Some (of_nat (segments_start b0 + sum_list (map segment_size ?pre))))"
    using found split_at [OF i] by simp
  finally show ?thesis
    using strip_map_take(2) [OF eq, of i] by (simp add: segment_off_def)
qed

subsection \<open>Loops of steps\<close>

lemma for_each_steps:
  assumes "\<And>i st. \<lbrakk>i < length xs; I i st\<rbrakk> \<Longrightarrow> \<exists>st'. f (xs ! i) st = Inr (True, st') \<and> I (Suc i) st'"
    and "I 0 st"
  shows "\<exists>st'. for_each f xs st = Inr (True, st') \<and> I (length xs) st'"
  using assms
proof (induction xs arbitrary: I st)
  case (Cons x xs)
  obtain st1 where st1: "f x st = Inr (True, st1)" "I (Suc 0) st1"
    using Cons.prems(1) [of 0 st] Cons.prems(2) by auto
  have "\<exists>st'. for_each f xs st1 = Inr (True, st') \<and> I (Suc (length xs)) st'"
  proof (rule Cons.IH [of "\<lambda>i. I (Suc i)"])
    show "\<exists>st'. f (xs ! i) st = Inr (True, st') \<and> I (Suc (Suc i)) st'"
      if "i < length xs" "I (Suc i) st" for i st
      using Cons.prems(1) [of "Suc i" st] that by auto
  qed (rule st1(2))
  with st1(1) show ?case by (auto simp: and_then_def)
qed auto

lemma for_each_upt:
  assumes "\<And>i st. \<lbrakk>i < n; I i st\<rbrakk> \<Longrightarrow> \<exists>st'. f i st = Inr (True, st') \<and> I (Suc i) st'"
    and "I 0 st"
  shows "\<exists>st'. for_each f [0..<n] st = Inr (True, st') \<and> I n st'"
  using for_each_steps [of "[0..<n]" I f st] assms by simp

lemma and_then_step:
  assumes "\<exists>st'. f st = Inr (True, st') \<and> I st'"
    and "\<And>st'. I st' \<Longrightarrow> \<exists>st''. g st' = Inr (True, st'') \<and> J st''"
  shows "\<exists>st''. and_then f g st = Inr (True, st'') \<and> J st''"
  using assms by (fastforce simp: and_then_def)

subsection \<open>Lengths of the parts\<close>

lemma length_concat_const: "\<forall>x \<in> set xs. length x = k \<Longrightarrow> length (concat xs) = k * length xs"
  by (induction xs) auto

lemma length_note_commands_image:
  assumes "structured b" and "i \<le> length (note_cmds b)"
  shows "length (note_commands_image b i) = 40 * i"
proof -
  have "length (enc_note (final_note b j)) = 40" if "j < i" for j
  proof -
    have "note_cmds b ! j \<in> set (note_cmds b)" using that assms(2) by simp
    then show ?thesis using assms(1) by (simp add: structured_def final_note_def)
  qed
  then show ?thesis
    unfolding note_commands_image_def by (subst length_concat_const [of _ 40]) auto
qed

lemma length_segment_commands_image:
  assumes "structured b" and "i \<le> length (segment_cmds b)"
  shows "length (segment_commands_image b i) = 72 * i"
proof -
  have "length (enc_segment (final_segment b j)) = 72" if "j < i" for j
  proof -
    have "segment_cmds b ! j \<in> set (segment_cmds b)" using that assms(2) by simp
    then show ?thesis using assms(1) by (simp add: structured_def final_segment_def)
  qed
  then show ?thesis
    unfolding segment_commands_image_def by (subst length_concat_const [of _ 72]) auto
qed

lemma length_concat_take:
  "length (concat (take i xs)) \<le> sum_list (map length xs)" for xs :: "'a list list"
proof -
  have "sum_list (map length (take i xs)) + sum_list (map length (drop i xs)) = sum_list (map length xs)"
    by (metis append_take_drop_id map_append sum_list_append)
  then show ?thesis by (simp add: length_concat)
qed

lemma length_commands_image:
  "structured b \<Longrightarrow> length (commands_image b) = 32 + commands_size b"
  by (simp add: commands_image_def length_note_commands_image length_segment_commands_image
      length_concat commands_size_def)

lemma list_all2_note_sizes:
  assumes "list_all2 note_payload ncs ns"
  shows "map length (take i ns) = map note_size (take i ncs)"
proof -
  have "map length ns = map note_size ncs"
    using assms by (induction rule: list_all2_induct) (auto simp: note_payload_def)
  then show ?thesis by (metis take_map)
qed

lemma list_all2_segment_sizes:
  assumes "list_all2 (segment_payload K) scs ss"
  shows "map length (take i ss) = map segment_size (take i scs)"
proof -
  have "map length ss = map segment_size scs"
    using assms by (induction rule: list_all2_induct) (auto simp: segment_payload_def)
  then show ?thesis by (metis take_map)
qed

lemma length_notes_image:
  assumes "ready K b ns ss"
  shows "length (notes_image b ns i) = note_off b i"
proof -
  have "structured b" "list_all2 note_payload (note_cmds b) ns"
    using assms by (simp_all add: ready_def)
  then show ?thesis
    using list_all2_note_sizes [of "note_cmds b" ns i] bounds_chain(1) [of 0 b]
    by (simp add: notes_image_def length_commands_image length_concat note_off_def)
qed

definition segments_image :: "builder \<Rightarrow> bytes list \<Rightarrow> bytes list \<Rightarrow> nat \<Rightarrow> bytes" where
  "segments_image b ns ss i =
     notes_image b ns (length ns) @ replicate (segments_start b - notes_end b) 0 @ concat (take i ss)"

lemma length_segments_image:
  assumes "ready K b ns ss"
  shows "length (segments_image b ns ss i) = segment_off b i"
proof -
  have "list_all2 (segment_payload K) (segment_cmds b) ss" "length ns = length (note_cmds b)"
    using assms by (auto simp: ready_def dest: list_all2_lengthD)
  then show ?thesis
    using list_all2_segment_sizes [of K "segment_cmds b" ss i] bounds_chain(4) [of 0 b]
    by (simp add: segments_image_def length_notes_image [OF assms] notes_end_def [symmetric]
        length_concat segment_off_def)
qed

lemma file_image_segments: "file_image b ns ss = segments_image b ns ss (length ss)"
  by (simp add: file_image_def segments_image_def)

end
