(* ===== verification/BuilderOps.thy ===== *)
theory BuilderOps
  imports CoreFile
begin

text \<open>
  What the operations that add commands guarantee: the layout of a thread command, the
  invariant \<open>structured\<close>, which \<open>Build\<close> relies on, and what is refused after the load
  commands have been finalized.
\<close>

subsection \<open>Thread commands\<close>

lemma pad_to_8_id: "8 dvd length d \<Longrightarrow> pad_to_8 u d = d"
  by (simp add: pad_to_8_def dvd_eq_mod_eq_0)

lemma ThreadStatesPacked_concat:
  assumes "states \<noteq> []" and "\<forall>s \<in> set states. 8 dvd length s"
  shows "ThreadStatesPacked u states = concat states @ replicate 8 u"
  using assms
proof (induction states rule: list_nonempty_induct)
  case (single s)
  then have "length (s @ [u]) mod 8 = 1" by (auto elim!: dvdE)
  then have "pad_to_8 u (s @ [u]) = (s @ [u]) @ replicate 7 u" by (simp add: pad_to_8_def)
  moreover have "replicate 8 u = u # replicate 7 u" by (simp add: numeral_eq_Suc)
  ultimately show ?case by simp
next
  case (cons s states)
  then have IH: "ThreadStatesPacked u states = concat states @ replicate 8 u" by simp
  have states: "8 dvd length (concat states)" if "\<forall>s \<in> set states. 8 dvd length s" for states :: "bytes list"
    using that by (induction states) (auto intro: dvd_add)
  then have "8 dvd length (concat states)" using cons.prems by simp
  then have "8 dvd length (s @ concat states @ replicate 8 u)"
    using cons.prems by (auto intro!: dvd_add)
  then show ?case by (simp add: IH pad_to_8_id)
qed

text \<open>The command holds the states one after another and none of the padding.\<close>

lemma AddThreadCommand_bytes:
  assumes "AddThreadCommand K u states b = Inr (ok, b')"
    and "states \<noteq> []" and "\<forall>s \<in> set states. 8 dvd length s"
  shows "ok \<and> b' = b\<lparr>thread_cmds := thread_cmds b @
    [le32 LC_THREAD @ le32 (of_nat (8 + length (concat states))) @ concat states]\<rparr>"
  using assms(1) ThreadStatesPacked_concat [OF assms(2,3), of u]
  by (auto simp: AddThreadCommand_def Let_def rbind_eq_Inr ac_simps)

subsection \<open>Sequences of operations\<close>

datatype builder_op =
    AddNote bytes "DataProvider option"
  | AddSegment u64 u32 "DataProvider option"
  | AddThread "bytes list"
  | AddProvider bytes DataProvider
  | Finalize

fun apply_op ::
  "'z mem_kernel_scheme \<Rightarrow> config \<Rightarrow> u8 \<Rightarrow> builder_op \<Rightarrow> builder \<Rightarrow> builder res"
where
  "apply_op K cfg u (AddNote owner p) b = Inr (snd (AddNoteCommand owner p b))"
| "apply_op K cfg u (AddSegment vmaddr prot p) b = Inr (snd (AddSegmentCommand vmaddr prot p b))"
| "apply_op K cfg u (AddThread states) b =
     rbind (AddThreadCommand K u states b) (\<lambda>(ok, b). Inr b)"
| "apply_op K cfg u (AddProvider owner p) b =
     rbind (AddDataProviderForNoteCommand cfg owner p b) (\<lambda>(ok, b). Inr b)"
| "apply_op K cfg u Finalize b = Inr (FinalizeLoadCommands b)"

fun op_ok :: "builder_op \<Rightarrow> bool" where
  "op_ok (AddThread states) \<longleftrightarrow> states \<noteq> [] \<and> (\<forall>s \<in> set states. 8 dvd length s) \<and>
     8 + length (concat states) < 2 ^ 32"
| "op_ok _ \<longleftrightarrow> True"

definition note_ok :: "note_entry \<Rightarrow> bool" where
  "note_ok nc \<longleftrightarrow> nc_cmd (fst nc) = LC_NOTE \<and> nc_cmdsize (fst nc) = 40 \<and> length (data_owner (fst nc)) = 16"

definition thread_ok :: "bytes \<Rightarrow> bool" where
  "thread_ok tc \<longleftrightarrow> 8 \<le> length tc \<and> cmd_of tc = LC_THREAD \<and> unat (cmdsize_of tc) = length tc"

definition segment_ok :: "segment_entry \<Rightarrow> bool" where
  "segment_ok sc \<longleftrightarrow> sc_cmd (fst sc) = LC_SEGMENT_64 \<and> sc_cmdsize (fst sc) = 72 \<and>
     length (sc_segname (fst sc)) = 16"

lemma structured_iff:
  "structured b \<longleftrightarrow> (\<forall>nc \<in> set (note_cmds b). note_ok nc) \<and>
     (\<forall>tc \<in> set (thread_cmds b). thread_ok tc) \<and> (\<forall>sc \<in> set (segment_cmds b). segment_ok sc)"
  by (simp add: structured_def note_ok_def thread_ok_def segment_ok_def)

lemma AddNoteCommand_structured:
  "structured b \<Longrightarrow> structured (snd (AddNoteCommand owner p b))"
  by (cases p) (auto simp: structured_iff AddNoteCommand_def Let_def note_ok_def sizeofs)

lemma AddSegmentCommand_structured:
  "structured b \<Longrightarrow> structured (snd (AddSegmentCommand vmaddr prot p b))"
  by (auto simp: structured_iff AddSegmentCommand_def Let_def segment_ok_def sizeofs)

lemma thread_ok_bytes:
  assumes "8 + length d < 2 ^ 32"
  shows "thread_ok (le32 LC_THREAD @ le32 (of_nat (8 + length d)) @ d)"
proof -
  have "chunk 0 4 (le32 LC_THREAD @ le32 (of_nat (8 + length d)) @ d) = le32 LC_THREAD"
    "chunk 4 4 (le32 LC_THREAD @ le32 (of_nat (8 + length d)) @ d) = le32 (of_nat (8 + length d))"
    by (simp_all add: chunk_def)
  moreover have "unat (of_nat (8 + length d) :: u32) = 8 + length d"
    using assms by (simp add: unsigned_of_nat take_bit_nat_eq_self del: of_nat_add)
  ultimately show ?thesis
    by (simp add: thread_ok_def cmd_of_def cmdsize_of_def)
qed

lemma AddThreadCommand_structured:
  assumes "AddThreadCommand K u states b = Inr (ok, b')" and "op_ok (AddThread states)" and "structured b"
  shows "structured b'"
  using AddThreadCommand_bytes [OF assms(1)] assms(2,3) thread_ok_bytes [of "concat states"]
  by (auto simp: structured_iff)

lemma AddDataProvider_structured:
  assumes "AddDataProviderForNoteCommand cfg owner p b = Inr (ok, b')" and "structured b"
  shows "structured b'"
proof -
  from assms(1) obtain found where
    "(case found of None \<Rightarrow> Inr (False, b) | Some i \<Rightarrow>
       rbind (cpp_assert cfg (snd (note_cmds b ! i) = None)) (\<lambda>_.
         Inr (True, b\<lparr>note_cmds := (note_cmds b)[i :=
           ((fst (note_cmds b ! i))\<lparr>nc_size := dp_size p\<rparr>, Some p)]\<rparr>))) = Inr (ok, b')"
    by (auto simp: AddDataProviderForNoteCommand_def rbind_eq_Inr)
  then have "b' = b \<or> (\<exists>i. b' = b\<lparr>note_cmds := (note_cmds b)[i :=
      ((fst (note_cmds b ! i))\<lparr>nc_size := dp_size p\<rparr>, Some p)]\<rparr>)"
    by (cases found) (auto simp: rbind_eq_Inr)
  then show ?thesis
  proof
    assume "\<exists>i. b' = b\<lparr>note_cmds := (note_cmds b)[i :=
      ((fst (note_cmds b ! i))\<lparr>nc_size := dp_size p\<rparr>, Some p)]\<rparr>"
    then obtain i where b': "b' = b\<lparr>note_cmds := (note_cmds b)[i :=
      ((fst (note_cmds b ! i))\<lparr>nc_size := dp_size p\<rparr>, Some p)]\<rparr>" ..
    have "note_ok nc" if "nc \<in> set (note_cmds b')" for nc
    proof (cases "i < length (note_cmds b)")
      case True
      then have "note_ok (note_cmds b ! i)" using assms(2) by (simp add: structured_iff)
      then have "note_ok ((fst (note_cmds b ! i))\<lparr>nc_size := dp_size p\<rparr>, Some p)"
        by (simp add: note_ok_def)
      moreover have "nc = ((fst (note_cmds b ! i))\<lparr>nc_size := dp_size p\<rparr>, Some p) \<or> nc \<in> set (note_cmds b)"
        using that set_update_subset_insert by (fastforce simp: b')
      ultimately show ?thesis using assms(2) by (auto simp: structured_iff)
    next
      case False
      with that assms(2) show ?thesis by (simp add: b' structured_iff list_update_beyond)
    qed
    then show ?thesis using assms(2) by (simp add: structured_iff b')
  qed (use assms(2) in simp)
qed

lemma apply_op_structured:
  assumes "apply_op K cfg u a b = Inr b'" and "op_ok a" and "structured b"
  shows "structured b'"
proof (cases a)
  case (AddNote owner p)
  with assms show ?thesis using AddNoteCommand_structured by auto
next
  case (AddSegment vmaddr prot p)
  with assms show ?thesis using AddSegmentCommand_structured by auto
next
  case (AddThread states)
  with assms show ?thesis using AddThreadCommand_structured by (fastforce simp: rbind_eq_Inr)
next
  case (AddProvider owner p)
  with assms show ?thesis using AddDataProvider_structured by (fastforce simp: rbind_eq_Inr)
next
  case Finalize
  with assms show ?thesis by (auto simp: structured_iff)
qed

lemma new_builder_structured [simp]: "structured (new_MachOCoreDumpBuilder cfg)"
  by (simp add: structured_def new_MachOCoreDumpBuilder_def)

subsection \<open>A small builder\<close>

text \<open>One note, one thread, one segment; the states the operations leave are written out.\<close>

definition demo_ops :: "builder_op list" where
  "demo_ops =
     [AddNote [97] (Some \<lparr>dp_size = 3, dp_ptr = PlainDataPtr [1, 2, 3]\<rparr>), AddThread [replicate 8 5],
      AddSegment 0x1000 3 (Some \<lparr>dp_size = 4, dp_ptr = PlainDataPtr [9, 8, 7, 6]\<rparr>)]"

definition debug_config :: config where
  "debug_config = \<lparr>target = Arm64, ndebug = False, debug_checks = True\<rparr>"

definition demo_memory_kernel :: mem_kernel where
  "demo_memory_kernel = flat_kernel 0x1000 [9, 8, 7, 6]"

definition demo_builder :: builder where
  "demo_builder = (new_MachOCoreDumpBuilder debug_config)
     \<lparr>note_cmds := [(\<lparr>nc_cmd = 49, nc_cmdsize = 40,
         data_owner = [97, 0, 0, 0, 0, 0, 0, 0, 0, 0, 0, 0, 0, 0, 0, 0], nc_offset = 0, nc_size = 3\<rparr>,
         Some \<lparr>dp_size = 3, dp_ptr = PlainDataPtr [1, 2, 3]\<rparr>)],
      thread_cmds := [[4, 0, 0, 0, 16, 0, 0, 0, 5, 5, 5, 5, 5, 5, 5, 5]],
      segment_cmds := [(\<lparr>sc_cmd = 25, sc_cmdsize = 72, sc_segname = replicate 16 0, sc_vmaddr = 4096,
         sc_vmsize = 4, sc_fileoff = 0, sc_filesize = 4, sc_maxprot = 3, sc_initprot = 3,
         sc_nsects = 0, sc_flags = 0\<rparr>,
         Some \<lparr>dp_size = 4, dp_ptr = PlainDataPtr [9, 8, 7, 6]\<rparr>)]\<rparr>"

lemma demo_builder_built:
  "rfold (apply_op demo_memory_kernel debug_config 0) demo_ops (new_MachOCoreDumpBuilder debug_config) =
   Inr demo_builder"
  by code_simp

subsection \<open>Properties\<close>

text \<open>C31. Whatever is added, in whatever order, the commands of a builder keep the sizes that their
  own fields state: notes of 40 bytes with an owner of 16, segments of 72 bytes, threads as long
  as their \<open>cmdsize\<close> says.\<close>

theorem builder_stays_structured:
  assumes "rfold (apply_op K cfg u) ops (new_MachOCoreDumpBuilder cfg) = Inr b" and "\<forall>a \<in> set ops. op_ok a"
  shows "structured b"
  by (rule rfold_invariant [OF assms(1), of structured])
    (use assms(2) in \<open>auto intro: apply_op_structured\<close>)

lemma builder_stays_structured_witness: "structured demo_builder"
  by (rule builder_stays_structured [OF demo_builder_built]) (simp add: demo_ops_def)

text \<open>A thread command is the command header followed by the register states and nothing else:
  subtracting 8 from the size of the C++ object takes off exactly the padding behind the last
  state, for any number of states whose sizes are multiples of 8.\<close>

theorem thread_command_layout:
  assumes "AddThreadCommand K u states b = Inr (ok, b')"
    and "states \<noteq> []" and "\<forall>s \<in> set states. 8 dvd length s" and "8 + length (concat states) < 2 ^ 32"
  shows "ok \<and> (\<exists>tc. thread_cmds b' = thread_cmds b @ [tc] \<and> drop 8 tc = concat states \<and>
    cmd_of tc = LC_THREAD \<and> unat (cmdsize_of tc) = 8 + length (concat states))"
proof -
  note bytes = AddThreadCommand_bytes [OF assms(1-3)]
  note ok = thread_ok_bytes [OF assms(4)]
  show ?thesis
    using bytes ok by (auto simp: thread_ok_def)
qed

lemma thread_command_layout_witness:
  "\<exists>b'. AddThreadCommand demo_memory_kernel 0xAA [replicate 16 1, replicate 24 2] demo_builder = Inr (True, b') \<and>
     drop 8 (last (thread_cmds b')) = replicate 16 1 @ replicate 24 2"
proof -
  have "malloc_ok demo_memory_kernel n" for n by (simp add: demo_memory_kernel_def flat_kernel_def)
  then obtain ok b' where add:
    "AddThreadCommand demo_memory_kernel 0xAA [replicate 16 1, replicate 24 2] demo_builder = Inr (ok, b')"
    by (auto simp: AddThreadCommand_def Let_def MakeUniqueArrayAligned_def simp del: ThreadStatesPacked.simps)
  from thread_command_layout [OF this] show ?thesis using add by auto
qed

text \<open>After the load commands are finalized, notes and segments are refused and leave the
  builder as it was; but a thread command is still accepted, and the counts in the header are
  then those of before.\<close>

theorem finalized_builder_accepts_threads_only:
  assumes "finalized b" and "malloc_ok K (ucast (of_nat (length (ThreadStatesPacked u states)) :: u32))"
  shows "AddNoteCommand owner p b = (False, b) \<and> AddSegmentCommand vmaddr prot p b = (False, b) \<and>
    (\<exists>b'. AddThreadCommand K u states b = Inr (True, b') \<and>
      length (thread_cmds b') = Suc (length (thread_cmds b)) \<and>
      header (FinalizeLoadCommands b') = header b)"
  using assms
  by (auto simp: AddNoteCommand_def AddSegmentCommand_def AddThreadCommand_def Let_def
      MakeUniqueArrayAligned_def FinalizeLoadCommands_def)

lemma finalized_builder_accepts_threads_only_witness:
  "\<exists>b'. AddThreadCommand demo_memory_kernel 0 [replicate 8 1] (FinalizeLoadCommands demo_builder) = Inr (True, b') \<and>
     length (thread_cmds b') = 2 \<and> ncmds (header (FinalizeLoadCommands b')) = 3"
proof -
  have m: "malloc_ok demo_memory_kernel n" for n by (simp add: demo_memory_kernel_def flat_kernel_def)
  have "ncmds (header (FinalizeLoadCommands demo_builder)) = 3"
    "length (thread_cmds (FinalizeLoadCommands demo_builder)) = 1"
    by (simp_all add: FinalizeLoadCommands_def demo_builder_def new_MachOCoreDumpBuilder_def)
  with finalized_builder_accepts_threads_only [OF Finalize_fields(4) m] show ?thesis by fastforce
qed

end
