(* ===== verification/Payloads.thy ===== *)
theory Payloads
  imports CoreInternal ModuleList
begin

text \<open>
  The payloads of the notes: the process metadata (JSON with the thread ids), the list of all
  images, and the specification of the main binary.
\<close>

subsection \<open>Process metadata\<close>

function to_string :: "nat \<Rightarrow> bytes" where \<comment> \<open>\<open>std::to_string\<close>\<close>
  "to_string n = (if n < 10 then [48 + of_nat n] else to_string (n div 10) @ [48 + of_nat (n mod 10)])"
  by pat_completeness auto
termination
  by (relation "measure id") auto

declare to_string.simps [simp del]

definition ascii :: "string \<Rightarrow> bytes" where
  "ascii s = map of_char s"

fun metadata_loop :: "nat \<Rightarrow> u64 list \<Rightarrow> bytes \<Rightarrow> bytes" where
  "metadata_loop i [] result = result"
| "metadata_loop i (t # ts) result =
     (let result = (if i > 0 then result @ ascii '','' else result);
          result = result @ ascii ''{\"thread_id\":'';
          result = result @ to_string (unat t);
          result = result @ ascii ''}''
      in metadata_loop (Suc i) ts result)"

definition CreateProcessMetadataPayload :: "u64 list \<Rightarrow> bytes" where
  "CreateProcessMetadataPayload threadIds =
     metadata_loop 0 threadIds (ascii ''{\"threads\":['') @ ascii '']}''"

text \<open>A reader of the payload: the punctuation as it must be, the numbers in between.\<close>

definition is_digit :: "u8 \<Rightarrow> bool" where
  "is_digit b \<longleftrightarrow> 48 \<le> b \<and> b \<le> 57"

definition number_of :: "bytes \<Rightarrow> nat" where
  "number_of ds = foldl (\<lambda>acc b. 10 * acc + unat (b - 48)) 0 ds"

definition expect :: "bytes \<Rightarrow> bytes \<Rightarrow> bytes option" where
  "expect p d = (if take (length p) d = p then Some (drop (length p) d) else None)"

function read_threads :: "bytes \<Rightarrow> nat list option" where
  "read_threads d =
     (case expect (ascii ''{\"thread_id\":'') d of
        None \<Rightarrow> None
      | Some d1 \<Rightarrow>
          let ds = takeWhile is_digit d1; d2 = dropWhile is_digit d1 in
          case expect (ascii ''},'') d2 of
            Some d3 \<Rightarrow> map_option (\<lambda>ns. number_of ds # ns) (read_threads d3)
          | None \<Rightarrow> if d2 = ascii ''}]}'' then Some [number_of ds] else None)"
  by pat_completeness auto
termination
proof (relation "measure length", goal_cases)
  case (2 d d1 ds d2 d3)
  have "length d1 < length d"
    using 2(1) by (auto simp: expect_def ascii_def split: if_splits dest!: arg_cong [of _ _ length])
  moreover have "length d2 \<le> length d1" using 2(3) by (simp add: length_dropWhile_le)
  moreover have "length d3 \<le> length d2" using 2(4) by (auto simp: expect_def split: if_splits)
  ultimately show ?case by simp
qed simp

declare read_threads.simps [simp del]

definition read_metadata :: "bytes \<Rightarrow> nat list option" where
  "read_metadata d =
     (if d = ascii ''{\"threads\":[]}'' then Some []
      else case expect (ascii ''{\"threads\":['') d of None \<Rightarrow> None | Some d \<Rightarrow> read_threads d)"

lemma of_nat_digit:
  assumes "n < 10"
  shows "is_digit (48 + of_nat n)" and "unat (48 + of_nat n - 48 :: u8) = n"
proof -
  have "unat (of_nat n :: u8) = n" using assms by (simp add: unsigned_of_nat take_bit_nat_eq_self)
  then show "unat (48 + of_nat n - 48 :: u8) = n" by simp
  have "n \<in> {0, 1, 2, 3, 4, 5, 6, 7, 8, 9}" using assms by auto
  then show "is_digit (48 + of_nat n)" by (auto simp: is_digit_def)
qed

lemma to_string_digits: "\<forall>b \<in> set (to_string n). is_digit b"
proof (induction n rule: to_string.induct)
  case (1 n)
  then show ?case
    using of_nat_digit(1) [of n] of_nat_digit(1) [of "n mod 10"]
    by (subst to_string.simps) auto
qed

lemma number_of_to_string: "number_of (to_string n) = n"
proof (induction n rule: to_string.induct)
  case (1 n)
  show ?case
  proof (cases "n < 10")
    case True
    then show ?thesis
      using of_nat_digit(2) [of n] by (subst to_string.simps) (simp add: number_of_def)
  next
    case False
    then have "number_of (to_string (n div 10)) = n div 10" using 1 by simp
    then show ?thesis
      using of_nat_digit(2) [of "n mod 10"] False
      by (subst to_string.simps) (simp add: number_of_def)
  qed
qed

definition entry_json :: "u64 \<Rightarrow> bytes" where
  "entry_json t = ascii ''{\"thread_id\":'' @ to_string (unat t) @ ascii ''}''"

primrec threads_json :: "u64 list \<Rightarrow> bytes" where
  "threads_json [] = []"
| "threads_json (t # ts) = entry_json t @ (if ts = [] then [] else ascii '','' @ threads_json ts)"

lemma metadata_loop_later:
  "metadata_loop (Suc i) ts r = (if ts = [] then r else r @ ascii '','' @ threads_json ts)"
  by (induction ts arbitrary: i r) (simp_all add: Let_def entry_json_def)

lemma metadata_json:
  "CreateProcessMetadataPayload ts = ascii ''{\"threads\":['' @ threads_json ts @ ascii '']}''"
  by (cases ts) (simp_all add: CreateProcessMetadataPayload_def Let_def metadata_loop_later entry_json_def)

lemma expect_append [simp]: "expect p (p @ d) = Some d"
  by (simp add: expect_def)

lemma digits_then:
  assumes "\<not> is_digit b"
  shows "takeWhile is_digit (to_string n @ b # d) = to_string n"
    and "dropWhile is_digit (to_string n @ b # d) = b # d"
  using to_string_digits [of n] assms by (simp_all add: takeWhile_append2 dropWhile_append2)

lemma read_threads_json:
  assumes "ts \<noteq> []"
  shows "read_threads (threads_json ts @ ascii '']}'') = Some (map unat ts)"
  using assms
proof (induction ts rule: list_nonempty_induct)
  case (single t)
  have close: "ascii ''}'' @ ascii '']}'' = 125 # ascii '']}''" "ascii ''}]}'' = 125 # ascii '']}''"
    "\<not> is_digit 125" "expect (ascii ''},'') (125 # ascii '']}'') = None"
    by (simp_all add: ascii_def is_digit_def expect_def)
  show ?case
    by (subst read_threads.simps)
      (simp add: close entry_json_def digits_then number_of_to_string Let_def)
next
  case (cons t ts)
  have brace: "ascii ''}'' = [125]" "\<not> is_digit 125" by (simp_all add: ascii_def is_digit_def)
  have comma: "expect (ascii ''},'') (125 # ascii '','' @ d) = Some d" for d
    by (simp add: ascii_def expect_def)
  have "read_threads (threads_json (t # ts) @ ascii '']}'') =
      map_option (\<lambda>ns. unat t # ns) (read_threads (threads_json ts @ ascii '']}''))"
    by (subst read_threads.simps)
      (simp add: cons.hyps entry_json_def brace comma digits_then [OF brace(2)] number_of_to_string Let_def)
  then show ?case using cons by simp
qed

lemma read_metadata_payload: "read_metadata (CreateProcessMetadataPayload ts) = Some (map unat ts)"
proof (cases "ts = []")
  case True
  then show ?thesis by (simp add: metadata_json read_metadata_def ascii_def)
next
  case False
  have "CreateProcessMetadataPayload ts \<noteq> ascii ''{\"threads\":[]}''"
  proof
    assume eq: "CreateProcessMetadataPayload ts = ascii ''{\"threads\":[]}''"
    have "ascii ''{\"threads\":[]}'' = ascii ''{\"threads\":['' @ ascii '']}''" by (simp add: ascii_def)
    with eq have "threads_json ts @ ascii '']}'' = ascii '']}''" by (simp add: metadata_json)
    then have "threads_json ts = []" by simp
    with False show False by (cases ts) (simp_all add: entry_json_def ascii_def)
  qed
  then show ?thesis using read_threads_json [OF False] by (simp add: metadata_json read_metadata_def)
qed

subsection \<open>The main executable\<close>

definition IsMainExecutable :: "ModuleInfo \<Rightarrow> bool res" where
  "IsMainExecutable mi =
     rbind (rd32 (headerAndLoadCommandBytes mi) 12) (\<lambda>ft. Inr (ft = MH_EXECUTE))"

fun preferred_text_loop :: "nat \<Rightarrow> bytes \<Rightarrow> nat \<Rightarrow> u64 res" where
  "preferred_text_loop 0 buf p = Inr 0"
| "preferred_text_loop (Suc n) buf p =
     rbind (rd32 buf p) (\<lambda>cmd.
     rbind (if cmd = LC_SEGMENT_64
            then rbind (read_at buf (p + 8) 16) (\<lambda>segname. Inr (name_is_n 16 segname ''__TEXT''))
            else Inr False) (\<lambda>is_text.
     if is_text then rd64 buf (p + 24)
     else rbind (rd32 buf (p + 4)) (\<lambda>cmdsize. preferred_text_loop n buf (p + unat cmdsize))))"

definition GetPreferredTextAddress :: "ModuleInfo \<Rightarrow> u64 res" where
  "GetPreferredTextAddress mi =
     (let pRaw = headerAndLoadCommandBytes mi in
      rbind (rd32 pRaw 16) (\<lambda>n. preferred_text_loop (unat n) pRaw sizeof_mach_header_64))"

fun CreateMainBinSpecPayload :: "config \<Rightarrow> ModuleInfos \<Rightarrow> MainBinSpec res" where
  "CreateMainBinSpecPayload cfg [] =
     rbind (cpp_assert cfg False) (\<lambda>_. Inr default_MainBinSpec)"
| "CreateMainBinSpecPayload cfg ((loadAddr, moduleInfo) # ms) =
     rbind (IsMainExecutable moduleInfo) (\<lambda>is_main.
       if \<not> is_main then CreateMainBinSpecPayload cfg ms
       else rbind (GetPreferredTextAddress moduleInfo) (\<lambda>preferred.
         Inr (default_MainBinSpec
           \<lparr>mb_version := 2, mb_type := 0, mb_address := UINT64_MAX, mb_slide := loadAddr - preferred,
            mb_uuid := uuid moduleInfo, log2_pagesize := 0, platform := 0\<rparr>)))"

definition is_text_command :: "bytes \<Rightarrow> bool" where
  "is_text_command c \<longleftrightarrow> is_segment c \<and> name_is_n 16 (chunk 8 16 c) ''__TEXT''"

interpretation texts: command_search preferred_text_loop is_text_command "\<lambda>c. le_word (chunk 24 8 c)" 0
proof
  fix c buf p n
  assume c: "load_command c" and at: "at_offset buf p c"
  have segname: "read_at buf (p + 8) 16 = Inr (chunk 8 16 c)" "rd64 buf (p + 24) = Inr (le_word (chunk 24 8 c))"
    if "cmd_of c = LC_SEGMENT_64"
    using c that at_offset_read [OF at, of 8 16] at_offset_rd64 [OF at, of 24]
    by (simp_all add: load_command_def)
  show "preferred_text_loop (Suc n) buf p = Inr (le_word (chunk 24 8 c))" if "is_text_command c"
    using that segname by (simp add: is_text_command_def is_segment_def at_offset_cmd [OF c at])
  show "preferred_text_loop (Suc n) buf p = preferred_text_loop n buf (p + length c)"
    if "\<not> is_text_command c"
    using that segname c
    by (cases "cmd_of c = LC_SEGMENT_64")
      (simp_all add: is_text_command_def is_segment_def at_offset_cmd [OF c at] load_command_def)
qed simp

lemma GetPreferredTextAddress_image:
  assumes "wf_image h cs" and "headerAndLoadCommandBytes mi = image_bytes h cs"
  shows "GetPreferredTextAddress mi =
    Inr (case find is_text_command cs of None \<Rightarrow> 0 | Some c \<Rightarrow> le_word (chunk 24 8 c))"
  using assms texts.search_first [of cs sizeof_mach_header_64 "enc_header h" "[]"] header_fields(2) [of h "concat cs"]
  by (simp add: wf_image_def GetPreferredTextAddress_def image_bytes_def sizeofs)

lemma IsMainExecutable_image:
  "headerAndLoadCommandBytes mi = image_bytes h cs \<Longrightarrow> IsMainExecutable mi = Inr (filetype h = MH_EXECUTE)"
  using header_fields(1) [of h "concat cs"] by (simp add: IsMainExecutable_def image_bytes_def)

subsection \<open>All image infos\<close>

text \<open>
  The loops over \<open>modules\<close> skip the main executable; the sizes and offsets are \<open>size_t\<close>.
  \<open>memcpy\<close> and \<open>strcpy\<close> into the vector are bounds-checked.
\<close>

fun others :: "ModuleInfos \<Rightarrow> ModuleInfo list res" where
  "others [] = Inr []"
| "others ((k, mi) # ms) =
     rbind (IsMainExecutable mi) (\<lambda>is_main. rbind (others ms) (\<lambda>os.
       Inr (if is_main then os else mi # os)))"

definition segment_vmaddr :: "SegmentInfo \<Rightarrow> SegmentVMAddr" where
  "segment_vmaddr si = \<lparr>segname = strncpy 16 (segmentName si), vmaddr_of = address si, sv_unused = 0\<rparr>"

definition string_size :: "bytes \<Rightarrow> u64" where \<comment> \<open>\<open>length () + sizeof '\0'\<close>\<close>
  "string_size s = of_nat (length s) + 1"

definition c_string :: "bytes \<Rightarrow> bytes" where \<comment> \<open>what \<open>strcpy\<close> copies\<close>
  "c_string s = c_str s @ [0]"

record layout_state =
  buffer :: bytes
  currModulePathOffset :: u64
  currSegAddrsOffset :: u64
  currMemOffset :: u64

definition put_entry :: "ModuleInfo \<Rightarrow> layout_state \<Rightarrow> layout_state res" where
  "put_entry mi s =
     (let imageEntry =
           \<lparr>filepath_offset = currModulePathOffset s, ie_uuid = uuid mi, load_address = loadAddress mi,
            seg_addrs_offset = currSegAddrsOffset s,
            segment_count = of_nat (length (segments mi)),
            ie_reserved = (if executing mi then 1 else 0)\<rparr>
      in rbind (poke (buffer s) (unat (currMemOffset s)) (enc_ImageEntry imageEntry)) (\<lambda>buf.
         Inr \<lparr>buffer = buf,
              currModulePathOffset = currModulePathOffset s + string_size (filePath mi),
              currSegAddrsOffset = currSegAddrsOffset s + ucast (segment_count imageEntry) * sizeof_SegmentVMAddr,
              currMemOffset = currMemOffset s + sizeof_ImageEntry\<rparr>))"

definition put_segment :: "SegmentVMAddr \<Rightarrow> bytes \<times> u64 \<Rightarrow> (bytes \<times> u64) res" where
  "put_segment sv = (\<lambda>(buf, off).
     rbind (poke buf (unat off) (enc_SegmentVMAddr sv)) (\<lambda>buf. Inr (buf, off + sizeof_SegmentVMAddr)))"

definition put_path :: "ModuleInfo \<Rightarrow> bytes \<times> u64 \<Rightarrow> (bytes \<times> u64) res" where
  "put_path mi = (\<lambda>(buf, off).
     rbind (poke buf (unat off) (c_string (filePath mi))) (\<lambda>buf. Inr (buf, off + string_size (filePath mi))))"

definition CreateAllImageInfosPayload :: "u64 \<Rightarrow> ModuleInfos \<Rightarrow> bytes res" where
  "CreateAllImageInfosPayload payloadOffset modules =
     (if \<not> IsValid modules then Inr []
      else
        rbind (others modules) (\<lambda>ms.
        let nModules = of_nat (GetSize modules) - 1;
            header = \<lparr>ai_version = 1, imgcount = ucast nModules,
              entries_fileoff = payloadOffset + sizeof_AllImageInfosHeader,
              entries_size = ucast sizeof_ImageEntry, ai_reserved = 0\<rparr>;
            segmentListList = map (\<lambda>mi. map segment_vmaddr (segments mi)) ms;
            nSegments = of_nat (length (concat segmentListList));
            modulePathsSize = sum_list (map (\<lambda>mi. string_size (filePath mi)) ms);
            imageEntriesSize = nModules * sizeof_ImageEntry;
            segmentEntriesSize = nSegments * sizeof_SegmentVMAddr;
            payloadSize = sizeof_AllImageInfosHeader + imageEntriesSize + segmentEntriesSize + modulePathsSize;
            pathsOffset = payloadOffset + payloadSize - modulePathsSize
        in rbind (poke (replicate (unat payloadSize) 0) 0 (enc_AllImageInfosHeader header)) (\<lambda>result.
           rbind (rfold put_entry ms
             \<lparr>buffer = result, currModulePathOffset = pathsOffset,
              currSegAddrsOffset = pathsOffset - segmentEntriesSize,
              currMemOffset = sizeof_AllImageInfosHeader\<rparr>) (\<lambda>s.
           rbind (rfold put_segment (concat segmentListList)
             (buffer s, sizeof_AllImageInfosHeader + imageEntriesSize)) (\<lambda>(result, _).
           rbind (rfold put_path ms (result, payloadSize - modulePathsSize)) (\<lambda>(result, _).
             Inr result))))))"

end
