(* ===== verification/ImageInfos.thy ===== *)
theory ImageInfos
  imports Payloads
begin

text \<open>
  The payload of the "all image infos" note, whose parts refer to one another by offsets in the
  core file: for modules with exactly one main executable the layout is filled without a gap,
  and every offset leads to what it should.
\<close>

subsection \<open>Filling a buffer from the front\<close>

lemma poke_next:
  "length d \<le> length junk \<Longrightarrow> poke (pre @ junk) (length pre) d = Inr (pre @ d @ drop (length d) junk)"
  by (simp add: poke_def patch_def)

lemma poke_next_at:
  assumes "unat off = length pre" and "length d \<le> length junk"
  shows "poke (pre @ junk) (unat off) d = Inr ((pre @ d) @ drop (length d) junk)"
  using poke_next [OF assms(2), of pre] by (simp add: assms(1))

lemma unat_plus_small:
  fixes x y :: u64
  assumes "unat x = n" and "n + unat y < 2 ^ 64"
  shows "unat (x + y) = n + unat y"
  using assms no_wrap_unat [of x y] by (simp add: no_wrap_def)

subsection \<open>Positions\<close>

definition all_segments :: "ModuleInfo list \<Rightarrow> SegmentVMAddr list" where
  "all_segments ms = concat (map (\<lambda>mi. map segment_vmaddr (segments mi)) ms)"

definition paths_size :: "ModuleInfo list \<Rightarrow> nat" where
  "paths_size ms = sum_list (map (\<lambda>mi. length (filePath mi) + 1) ms)"

definition segments_pos :: "ModuleInfo list \<Rightarrow> nat" where
  "segments_pos ms = 24 + 48 * length ms"

definition paths_pos :: "ModuleInfo list \<Rightarrow> nat" where
  "paths_pos ms = segments_pos ms + 32 * length (all_segments ms)"

definition payload_size :: "ModuleInfo list \<Rightarrow> nat" where
  "payload_size ms = paths_pos ms + paths_size ms"

definition image_entry :: "u64 \<Rightarrow> ModuleInfo list \<Rightarrow> nat \<Rightarrow> ImageEntry" where
  "image_entry off ms i =
     \<lparr>filepath_offset = off + of_nat (paths_pos ms + paths_size (take i ms)),
      ie_uuid = uuid (ms ! i), load_address = loadAddress (ms ! i),
      seg_addrs_offset = off + of_nat (segments_pos ms + 32 * length (all_segments (take i ms))),
      segment_count = of_nat (length (segments (ms ! i))),
      ie_reserved = (if executing (ms ! i) then 1 else 0)\<rparr>"

definition entries_image :: "u64 \<Rightarrow> ModuleInfo list \<Rightarrow> nat \<Rightarrow> bytes" where
  "entries_image off ms n = concat (map (\<lambda>i. enc_ImageEntry (image_entry off ms i)) [0..<n])"

definition image_infos_header :: "u64 \<Rightarrow> ModuleInfo list \<Rightarrow> AllImageInfosHeader" where
  "image_infos_header off ms =
     \<lparr>ai_version = 1, imgcount = of_nat (length ms), entries_fileoff = off + 24, entries_size = 48,
      ai_reserved = 0\<rparr>"

definition image_infos :: "u64 \<Rightarrow> ModuleInfo list \<Rightarrow> bytes" where
  "image_infos off ms =
     enc_AllImageInfosHeader (image_infos_header off ms) @ entries_image off ms (length ms) @
     concat (map enc_SegmentVMAddr (all_segments ms)) @ concat (map (\<lambda>mi. filePath mi @ [0]) ms)"

text \<open>Modules as the constructor of the list makes them, and a payload that fits.\<close>

definition payload_ok :: "ModuleInfo list \<Rightarrow> bool" where
  "payload_ok ms \<longleftrightarrow>
     (\<forall>mi \<in> set ms. length (uuid mi) = 16 \<and> 0 \<notin> set (filePath mi) \<and> length (segments mi) < 2 ^ 32) \<and>
     length ms < 2 ^ 32 \<and> payload_size ms < 2 ^ 63"

lemma segname_16 [simp]: "length (segname (segment_vmaddr si)) = 16"
  by (simp add: segment_vmaddr_def)

lemma length_segments_part [simp]:
  "length (concat (map enc_SegmentVMAddr (all_segments ms))) = 32 * length (all_segments ms)"
proof -
  have "\<forall>x \<in> set (map enc_SegmentVMAddr (all_segments ms)). length x = 32"
    by (auto simp: all_segments_def)
  then have "length (concat (map enc_SegmentVMAddr (all_segments ms))) =
      32 * length (map enc_SegmentVMAddr (all_segments ms))"
    by (induction "all_segments ms") (auto simp: length_concat sum_list_triv cong: map_cong)
  then show ?thesis by simp
qed

lemma length_paths_part: "length (concat (map (\<lambda>mi. filePath mi @ [0]) ms)) = paths_size ms"
  by (induction ms) (simp_all add: paths_size_def)

lemma length_entries_image:
  assumes "\<forall>mi \<in> set ms. length (uuid mi) = 16" and "n \<le> length ms"
  shows "length (entries_image off ms n) = 48 * n"
  using assms(2)
proof (induction n)
  case (Suc n)
  then have "length (uuid (ms ! n)) = 16" using assms(1) by simp
  then have "length (enc_ImageEntry (image_entry off ms n)) = 48" by (simp add: image_entry_def)
  with Suc show ?case by (simp add: entries_image_def)
qed (simp add: entries_image_def)

lemma all_segments_take_Suc:
  "i < length ms \<Longrightarrow>
     length (all_segments (take (Suc i) ms)) = length (all_segments (take i ms)) + length (segments (ms ! i))"
  by (simp add: all_segments_def take_Suc_conv_app_nth)

lemma paths_size_take_Suc:
  "i < length ms \<Longrightarrow> paths_size (take (Suc i) ms) = paths_size (take i ms) + (length (filePath (ms ! i)) + 1)"
  by (simp add: paths_size_def take_Suc_conv_app_nth)

subsection \<open>The three loops\<close>

lemma put_entry_step:
  assumes "buffer s = b1 @ b2" and "unat (currMemOffset s) = length b1" and "48 \<le> length b2"
    and "length (uuid mi) = 16" and "length (segments mi) < 2 ^ 32"
    and "e = \<lparr>filepath_offset = currModulePathOffset s, ie_uuid = uuid mi, load_address = loadAddress mi,
            seg_addrs_offset = currSegAddrsOffset s, segment_count = of_nat (length (segments mi)),
            ie_reserved = (if executing mi then 1 else 0)\<rparr>"
  shows "put_entry mi s = Inr
    \<lparr>buffer = (b1 @ enc_ImageEntry e) @ drop 48 b2,
     currModulePathOffset = currModulePathOffset s + of_nat (length (filePath mi) + 1),
     currSegAddrsOffset = currSegAddrsOffset s + of_nat (32 * length (segments mi)),
     currMemOffset = currMemOffset s + 48\<rparr>"
proof -
  have len: "length (enc_ImageEntry e) = 48" using assms(4) by (simp add: assms(6))
  have poke: "poke (buffer s) (unat (currMemOffset s)) (enc_ImageEntry e) = Inr ((b1 @ enc_ImageEntry e) @ drop 48 b2)"
    using poke_next_at [OF assms(2), of "enc_ImageEntry e" b2] assms(1,3) by (simp add: len)
  have seg: "(ucast (of_nat (length (segments mi)) :: u32) :: u64) = of_nat (length (segments mi))"
    using assms(5) by (simp add: unsigned_of_nat take_bit_nat_eq_self unsigned_ucast_eq)
  show ?thesis
    unfolding put_entry_def Let_def assms(6) [symmetric] poke
    by (simp add: assms(6) seg string_size_def payload_sizeofs add.commute mult.commute)
qed

definition entries_state :: "u64 \<Rightarrow> ModuleInfo list \<Rightarrow> bytes \<Rightarrow> bytes \<Rightarrow> nat \<Rightarrow> layout_state" where
  "entries_state off ms pre junk i =
     \<lparr>buffer = (pre @ entries_image off ms i) @ drop (48 * i) junk,
      currModulePathOffset = off + of_nat (paths_pos ms + paths_size (take i ms)),
      currSegAddrsOffset = off + of_nat (segments_pos ms + 32 * length (all_segments (take i ms))),
      currMemOffset = of_nat (24 + 48 * i)\<rparr>"

lemma put_entries_one:
  assumes "payload_ok ms" and "length pre = 24" and "48 * length ms \<le> length junk" and "i < length ms"
  shows "put_entry (ms ! i) (entries_state off ms pre junk i) = Inr (entries_state off ms pre junk (Suc i))"
proof -
  let ?s = "entries_state off ms pre junk i" and ?e = "image_entry off ms i"
  have mi: "length (uuid (ms ! i)) = 16" "length (segments (ms ! i)) < 2 ^ 32"
    and uuids: "\<forall>mi \<in> set ms. length (uuid mi) = 16"
    using assms(1,4) by (simp_all add: payload_ok_def)
  have "24 + 48 * i < 2 ^ 64" using assms(1,4) by (simp add: payload_ok_def)
  then have mem: "unat (currMemOffset ?s) = length (pre @ entries_image off ms i)"
    using length_entries_image [OF uuids, of i off] assms(2,4)
    by (simp add: entries_state_def unsigned_of_nat take_bit_nat_eq_self del: of_nat_add of_nat_mult)
  have e: "?e = \<lparr>filepath_offset = currModulePathOffset ?s, ie_uuid = uuid (ms ! i),
      load_address = loadAddress (ms ! i), seg_addrs_offset = currSegAddrsOffset ?s,
      segment_count = of_nat (length (segments (ms ! i))),
      ie_reserved = (if executing (ms ! i) then 1 else 0)\<rparr>"
    by (simp add: entries_state_def image_entry_def)
  have buf: "buffer ?s = (pre @ entries_image off ms i) @ drop (48 * i) junk"
    by (simp add: entries_state_def)
  have room: "48 \<le> length (drop (48 * i) junk)" using assms(3,4) by simp
  have "entries_image off ms (Suc i) = entries_image off ms i @ enc_ImageEntry ?e"
    by (simp add: entries_image_def)
  then have "entries_state off ms pre junk (Suc i) =
      \<lparr>buffer = ((pre @ entries_image off ms i) @ enc_ImageEntry ?e) @ drop 48 (drop (48 * i) junk),
       currModulePathOffset = currModulePathOffset ?s + of_nat (length (filePath (ms ! i)) + 1),
       currSegAddrsOffset = currSegAddrsOffset ?s + of_nat (32 * length (segments (ms ! i))),
       currMemOffset = currMemOffset ?s + 48\<rparr>"
    by (simp add: entries_state_def all_segments_take_Suc [OF assms(4)] paths_size_take_Suc [OF assms(4)]
        distrib_left add.commute add.left_commute)
  then show ?thesis
    using put_entry_step [OF buf mem room mi e] by simp
qed

lemma rfold_indexed:
  assumes "\<And>i. i < length xs \<Longrightarrow> f (xs ! i) (st i) = Inr (st (Suc i))"
  shows "rfold f xs (st 0) = Inr (st (length xs))"
  using assms
proof (induction xs arbitrary: st)
  case (Cons x xs)
  have "f x (st 0) = Inr (st (Suc 0))" using Cons.prems [of 0] by simp
  moreover have "rfold f xs (st (Suc 0)) = Inr (st (Suc (length xs)))"
    using Cons.IH [of "\<lambda>i. st (Suc i)"] Cons.prems [of "Suc _"] by simp
  ultimately show ?case by simp
qed simp

lemma put_entries:
  assumes "payload_ok ms" and "length pre = 24" and "48 * length ms \<le> length junk"
  shows "rfold put_entry ms (entries_state off ms pre junk 0) = Inr (entries_state off ms pre junk (length ms))"
  by (rule rfold_indexed) (rule put_entries_one [OF assms])

lemma put_segments:
  assumes "length (concat (map enc_SegmentVMAddr svs)) \<le> length junk" and "\<forall>sv \<in> set svs. length (segname sv) = 16"
    and "unat off = length pre" and "length pre + length junk < 2 ^ 64"
  shows "\<exists>off'. rfold put_segment svs (pre @ junk, off) =
    Inr (pre @ concat (map enc_SegmentVMAddr svs) @ drop (32 * length svs) junk, off')"
  using assms
proof (induction svs arbitrary: pre junk off)
  case (Cons sv svs)
  have len: "length (enc_SegmentVMAddr sv) = 32" using Cons.prems(2) by simp
  have "32 \<le> length junk" using Cons.prems(1) len by simp
  then have "put_segment sv (pre @ junk, off) =
      Inr ((pre @ enc_SegmentVMAddr sv) @ drop 32 junk, off + 32)"
    using poke_next_at [OF Cons.prems(3), of "enc_SegmentVMAddr sv" junk]
    by (simp add: put_segment_def len payload_sizeofs)
  moreover have "unat (off + 32) = length (pre @ enc_SegmentVMAddr sv)"
    using unat_plus_small [OF Cons.prems(3), of 32] Cons.prems(4) \<open>32 \<le> length junk\<close> by (simp add: len)
  then have "\<exists>off'. rfold put_segment svs ((pre @ enc_SegmentVMAddr sv) @ drop 32 junk, off + 32) =
      Inr ((pre @ enc_SegmentVMAddr sv) @ concat (map enc_SegmentVMAddr svs) @ drop (32 * length svs) (drop 32 junk), off')"
    by (intro Cons.IH) (use Cons.prems len \<open>32 \<le> length junk\<close> in auto)
  ultimately show ?case by (auto simp: add.commute)
qed auto

lemma put_paths:
  assumes "paths_size ms \<le> length junk" and "\<forall>mi \<in> set ms. 0 \<notin> set (filePath mi)"
    and "unat off = length pre" and "length pre + length junk < 2 ^ 64"
  shows "\<exists>off'. rfold put_path ms (pre @ junk, off) =
    Inr (pre @ concat (map (\<lambda>mi. filePath mi @ [0]) ms) @ drop (paths_size ms) junk, off')"
  using assms
proof (induction ms arbitrary: pre junk off)
  case Nil
  then show ?case by (simp add: paths_size_def)
next
  case (Cons mi ms)
  let ?d = "filePath mi @ [0]"
  have size: "paths_size (mi # ms) = length ?d + paths_size ms" by (simp add: paths_size_def)
  have "c_str (filePath mi) = filePath mi"
    using Cons.prems(2) by (auto simp: c_str_def takeWhile_eq_all_conv)
  then have d: "c_string (filePath mi) = ?d" by (simp add: c_string_def)
  have room: "length ?d \<le> length junk" using Cons.prems(1) size by simp
  then have "put_path mi (pre @ junk, off) = Inr ((pre @ ?d) @ drop (length ?d) junk, off + string_size (filePath mi))"
    using poke_next_at [OF Cons.prems(3), of ?d junk] by (simp add: put_path_def d)
  moreover have "length ?d < 2 ^ 64" using room Cons.prems(4) by simp
  then have "unat (string_size (filePath mi)) = length ?d"
    using unat_plus_small [of "of_nat (length (filePath mi))" "length (filePath mi)" 1]
    by (simp add: string_size_def unsigned_of_nat take_bit_nat_eq_self)
  then have "unat (off + string_size (filePath mi)) = length (pre @ ?d)"
    using unat_plus_small [OF Cons.prems(3), of "string_size (filePath mi)"] Cons.prems(4) room by simp
  then have "\<exists>off'. rfold put_path ms ((pre @ ?d) @ drop (length ?d) junk, off + string_size (filePath mi)) =
      Inr ((pre @ ?d) @ concat (map (\<lambda>mi. filePath mi @ [0]) ms) @ drop (paths_size ms) (drop (length ?d) junk), off')"
    by (intro Cons.IH) (use Cons.prems size room in auto)
  ultimately show ?case using size by (auto simp: add.commute)
qed

subsection \<open>The whole payload\<close>

lemma string_sizes: "sum_list (map (\<lambda>mi. string_size (filePath mi)) ms) = of_nat (paths_size ms)"
  by (induction ms) (simp_all add: paths_size_def string_size_def)

lemma CreateAllImageInfosPayload_fills:
  assumes "others modules = Inr ms" and "length modules = Suc (length ms)" and "payload_ok ms"
  shows "CreateAllImageInfosPayload off modules = Inr (image_infos off ms)"
proof -
  let ?n = "length ms" and ?svs = "all_segments ms"
  have valid: "IsValid modules" using assms(2) by (auto simp: IsValid_def)
  have n: "(of_nat (GetSize modules) - 1 :: u64) = of_nat ?n"
    using assms(2) by (simp add: GetSize_def)
  have counts: "ucast (of_nat ?n :: u64) = (of_nat ?n :: u32)"
    using assms(3) by (simp add: payload_ok_def unsigned_of_nat take_bit_nat_eq_self)
  have size: "sizeof_AllImageInfosHeader + of_nat ?n * sizeof_ImageEntry +
      of_nat (length ?svs) * sizeof_SegmentVMAddr + of_nat (paths_size ms) = (of_nat (payload_size ms) :: u64)"
    by (simp add: payload_sizeofs payload_size_def paths_pos_def segments_pos_def algebra_simps)
  have small: "payload_size ms < 2 ^ 64" and uuids: "\<forall>mi \<in> set ms. length (uuid mi) = 16"
    and paths: "\<forall>mi \<in> set ms. 0 \<notin> set (filePath mi)"
    using assms(3) by (simp_all add: payload_ok_def)
  have unat_size: "unat (of_nat (payload_size ms) :: u64) = payload_size ms"
    using small by (simp add: unsigned_of_nat take_bit_nat_eq_self)
  have parts: "payload_size ms = 24 + 48 * ?n + 32 * length ?svs + paths_size ms"
    by (simp add: payload_size_def paths_pos_def segments_pos_def)
  have svs16: "\<forall>sv \<in> set ?svs. length (segname sv) = 16" by (auto simp: all_segments_def)
  let ?h = "enc_AllImageInfosHeader (image_infos_header off ms)"
  let ?junk = "replicate (payload_size ms - 24) (0 :: u8)"
  let ?e = "entries_image off ms ?n" and ?s = "concat (map enc_SegmentVMAddr ?svs)"
    and ?p = "concat (map (\<lambda>mi. filePath mi @ [0]) ms)"
  have header: "poke (replicate (payload_size ms) 0) 0 ?h = Inr (?h @ ?junk)"
    using parts by (simp add: poke_def patch_def)
  have pathsOffset: "off + of_nat (payload_size ms) - of_nat (paths_size ms) = off + of_nat (paths_pos ms)"
    by (simp add: payload_size_def)
  have segsOffset: "off + of_nat (paths_pos ms) - of_nat (length ?svs) * sizeof_SegmentVMAddr =
      off + of_nat (segments_pos ms)"
    by (simp add: paths_pos_def payload_sizeofs)
  have start: "\<lparr>buffer = ?h @ ?junk, currModulePathOffset = off + of_nat (paths_pos ms),
      currSegAddrsOffset = off + of_nat (segments_pos ms), currMemOffset = sizeof_AllImageInfosHeader\<rparr> =
      entries_state off ms ?h ?junk 0"
    by (simp add: entries_state_def entries_image_def paths_size_def all_segments_def payload_sizeofs)
  have entries: "rfold put_entry ms (entries_state off ms ?h ?junk 0) = Inr (entries_state off ms ?h ?junk ?n)"
    by (rule put_entries [OF assms(3)]) (use parts in simp_all)
  have e: "length ?e = 48 * ?n" by (rule length_entries_image [OF uuids le_refl])
  let ?junk1 = "drop (48 * ?n) ?junk"
  have "unat (sizeof_AllImageInfosHeader + of_nat ?n * sizeof_ImageEntry) = 24 + 48 * ?n"
  proof -
    have "sizeof_AllImageInfosHeader + of_nat ?n * sizeof_ImageEntry = (of_nat (24 + 48 * ?n) :: u64)"
      by (simp add: payload_sizeofs mult.commute)
    then show ?thesis
      using small parts by (simp add: unsigned_of_nat take_bit_nat_eq_self del: of_nat_add of_nat_mult)
  qed
  then obtain off1 where segs: "rfold put_segment ?svs ((?h @ ?e) @ ?junk1,
        sizeof_AllImageInfosHeader + of_nat ?n * sizeof_ImageEntry) =
      Inr ((?h @ ?e) @ ?s @ drop (32 * length ?svs) ?junk1, off1)"
    using put_segments [of ?svs ?junk1 "sizeof_AllImageInfosHeader + of_nat ?n * sizeof_ImageEntry" "?h @ ?e"]
      parts small e svs16 by auto
  let ?junk2 = "drop (32 * length ?svs) ?junk1"
  have "unat (of_nat (payload_size ms) - of_nat (paths_size ms) :: u64) = paths_pos ms"
  proof -
    have "of_nat (payload_size ms) - of_nat (paths_size ms) = (of_nat (paths_pos ms) :: u64)"
      by (simp add: payload_size_def)
    moreover have "paths_pos ms < 2 ^ 64" using small by (simp add: payload_size_def)
    ultimately show ?thesis by (simp add: unsigned_of_nat take_bit_nat_eq_self)
  qed
  moreover have "paths_pos ms = length ((?h @ ?e) @ ?s)"
    using e by (simp add: paths_pos_def segments_pos_def)
  ultimately obtain off2 where path_run: "rfold put_path ms (((?h @ ?e) @ ?s) @ ?junk2,
        of_nat (payload_size ms) - of_nat (paths_size ms)) =
      Inr (((?h @ ?e) @ ?s) @ ?p @ drop (paths_size ms) ?junk2, off2)"
    using put_paths [of ms ?junk2 "of_nat (payload_size ms) - of_nat (paths_size ms)" "(?h @ ?e) @ ?s"]
      paths parts small e by auto
  have rest: "drop (paths_size ms) ?junk2 = []" using parts by simp
  have lists: "map (\<lambda>mi. map segment_vmaddr (segments mi)) ms = map (\<lambda>mi. map segment_vmaddr (segments mi)) ms \<and>
      concat (map (\<lambda>mi. map segment_vmaddr (segments mi)) ms) = ?svs"
    by (simp add: all_segments_def)
  have hdr: "\<lparr>ai_version = 1, imgcount = of_nat ?n, entries_fileoff = off + sizeof_AllImageInfosHeader,
      entries_size = ucast sizeof_ImageEntry, ai_reserved = 0\<rparr> = image_infos_header off ms"
    by (simp add: image_infos_header_def payload_sizeofs)
  show ?thesis
    unfolding CreateAllImageInfosPayload_def Let_def assms(1) rbind_Inr n counts string_sizes
      conjunct2 [OF lists] size unat_size hdr header pathsOffset segsOffset start entries
    using valid segs path_run rest by (simp add: entries_state_def image_infos_def)
qed

subsection \<open>What the offsets lead to\<close>

lemma entry_in_image:
  assumes "payload_ok ms" and "i < length ms"
  shows "chunk (24 + 48 * i) 48 (image_infos off ms) = enc_ImageEntry (image_entry off ms i)"
proof -
  have uuids: "\<forall>mi \<in> set ms. length (uuid mi) = 16" using assms(1) by (simp add: payload_ok_def)
  let ?xs = "map (\<lambda>i. enc_ImageEntry (image_entry off ms i)) [0..<length ms]"
  let ?h = "enc_AllImageInfosHeader (image_infos_header off ms)"
  have "take i ?xs = map (\<lambda>i. enc_ImageEntry (image_entry off ms i)) [0..<i]"
    using assms(2) by (simp add: take_map)
  then have "length (concat (take i ?xs)) = 48 * i"
    using length_entries_image [OF uuids, of i off] assms(2) by (simp add: entries_image_def)
  moreover have "length (?xs ! i) = 48"
    using assms(2) uuids by (simp add: image_entry_def)
  ultimately show ?thesis
    using chunk_concat [of i ?xs "24 + 48 * i" ?h] assms(2)
    by (simp add: image_infos_def entries_image_def)
qed

lemma path_in_image:
  assumes "payload_ok ms" and "i < length ms"
  shows "chunk (paths_pos ms + paths_size (take i ms)) (length (filePath (ms ! i)) + 1) (image_infos off ms) =
    filePath (ms ! i) @ [0]"
proof -
  have uuids: "\<forall>mi \<in> set ms. length (uuid mi) = 16" using assms(1) by (simp add: payload_ok_def)
  let ?xs = "map (\<lambda>mi. filePath mi @ [0]) ms"
  let ?pre = "enc_AllImageInfosHeader (image_infos_header off ms) @ entries_image off ms (length ms) @
     concat (map enc_SegmentVMAddr (all_segments ms))"
  have "length ?pre = paths_pos ms"
    by (simp add: length_entries_image [OF uuids] paths_pos_def segments_pos_def)
  moreover have "length (concat (take i ?xs)) = paths_size (take i ms)"
    using length_paths_part [of "take i ms"] by (simp add: take_map)
  ultimately have "chunk (paths_pos ms + paths_size (take i ms)) (length (?xs ! i)) (?pre @ concat ?xs @ []) = ?xs ! i"
    using assms(2) by (intro chunk_concat) simp_all
  then show ?thesis using assms(2) by (simp add: image_infos_def)
qed

lemma length_concat_segments:
  "length (concat (map (enc_SegmentVMAddr \<circ> segment_vmaddr) xs)) = 32 * length xs"
  by (induction xs) simp_all

lemma segments_in_image:
  assumes "payload_ok ms" and "i < length ms"
  shows "chunk (segments_pos ms + 32 * length (all_segments (take i ms))) (32 * length (segments (ms ! i)))
      (image_infos off ms) = concat (map (enc_SegmentVMAddr \<circ> segment_vmaddr) (segments (ms ! i)))"
proof -
  have uuids: "\<forall>mi \<in> set ms. length (uuid mi) = 16" using assms(1) by (simp add: payload_ok_def)
  let ?xs = "map (\<lambda>mi. concat (map (enc_SegmentVMAddr \<circ> segment_vmaddr) (segments mi))) ms"
  let ?pre = "enc_AllImageInfosHeader (image_infos_header off ms) @ entries_image off ms (length ms)"
  have all: "concat (map enc_SegmentVMAddr (all_segments ms)) =
      concat (map (\<lambda>mi. concat (map (enc_SegmentVMAddr \<circ> segment_vmaddr) (segments mi))) ms)" for ms
    by (induction ms) (simp_all add: all_segments_def comp_def)
  have "length ?pre = segments_pos ms"
    by (simp add: length_entries_image [OF uuids] segments_pos_def)
  moreover have "length (concat (take i ?xs)) = 32 * length (all_segments (take i ms))"
    using length_segments_part [of "take i ms"] all [of "take i ms"] by (simp add: take_map)
  ultimately have "chunk (segments_pos ms + 32 * length (all_segments (take i ms))) (length (?xs ! i))
      (?pre @ concat ?xs @ concat (map (\<lambda>mi. filePath mi @ [0]) ms)) = ?xs ! i"
    using assms(2) by (intro chunk_concat) simp_all
  then show ?thesis
    using assms(2) by (simp add: image_infos_def all length_concat_segments)
qed

lemma length_image_infos: "payload_ok ms \<Longrightarrow> length (image_infos off ms) = payload_size ms"
  by (simp add: image_infos_def payload_ok_def length_entries_image length_paths_part payload_size_def
      paths_pos_def segments_pos_def)

lemma entry_positions:
  assumes "payload_ok ms" and "i < length ms"
  shows "unat (filepath_offset (image_entry off ms i) - off) = paths_pos ms + paths_size (take i ms)"
    and "unat (seg_addrs_offset (image_entry off ms i) - off) =
      segments_pos ms + 32 * length (all_segments (take i ms))"
proof -
  have small: "payload_size ms < 2 ^ 63" using assms(1) by (simp add: payload_ok_def)
  have "paths_size (take i ms) + paths_size (drop i ms) = paths_size ms"
    unfolding paths_size_def by (metis append_take_drop_id map_append sum_list_append)
  moreover have "all_segments (take i ms) @ all_segments (drop i ms) = all_segments ms"
    unfolding all_segments_def by (metis append_take_drop_id concat_append map_append)
  then have "length (all_segments (take i ms)) \<le> length (all_segments ms)"
    by (metis length_append le_add1)
  ultimately have "paths_pos ms + paths_size (take i ms) < 2 ^ 64"
    "segments_pos ms + 32 * length (all_segments (take i ms)) < 2 ^ 64"
    using small by (simp_all add: payload_size_def paths_pos_def)
  then show "unat (filepath_offset (image_entry off ms i) - off) = paths_pos ms + paths_size (take i ms)"
    "unat (seg_addrs_offset (image_entry off ms i) - off) = segments_pos ms + 32 * length (all_segments (take i ms))"
    by (simp_all add: image_entry_def unsigned_of_nat take_bit_nat_eq_self del: of_nat_add of_nat_mult)
qed

subsection \<open>Properties\<close>

text \<open>C25. For modules with exactly one main executable the payload of "all image infos" has the size
  that was allocated, starts with the header and one entry per other module in order, and the
  two file offsets of each entry lead, from the start of the payload, to the zero-terminated path
  of the module and to its segment addresses.\<close>

theorem all_image_infos_layout:
  assumes "others modules = Inr ms" and "length modules = Suc (length ms)" and "payload_ok ms"
  shows "\<exists>p. CreateAllImageInfosPayload off modules = Inr p \<and> length p = payload_size ms \<and>
    take 24 p = enc_AllImageInfosHeader (image_infos_header off ms) \<and>
    (\<forall>i < length ms. \<exists>e. chunk (24 + 48 * i) 48 p = enc_ImageEntry e \<and>
       load_address e = loadAddress (ms ! i) \<and> ie_uuid e = uuid (ms ! i) \<and>
       segment_count e = of_nat (length (segments (ms ! i))) \<and>
       (ie_reserved e = 1 \<longleftrightarrow> executing (ms ! i)) \<and>
       chunk (unat (filepath_offset e - off)) (length (filePath (ms ! i)) + 1) p = filePath (ms ! i) @ [0] \<and>
       chunk (unat (seg_addrs_offset e - off)) (32 * length (segments (ms ! i))) p =
         concat (map (enc_SegmentVMAddr \<circ> segment_vmaddr) (segments (ms ! i))))"
proof (intro exI [of _ "image_infos off ms"] conjI allI impI)
  show "CreateAllImageInfosPayload off modules = Inr (image_infos off ms)"
    by (rule CreateAllImageInfosPayload_fills [OF assms])
  show "length (image_infos off ms) = payload_size ms" by (rule length_image_infos [OF assms(3)])
  show "take 24 (image_infos off ms) = enc_AllImageInfosHeader (image_infos_header off ms)"
    by (simp add: image_infos_def)
  fix i assume i: "i < length ms"
  show "\<exists>e. chunk (24 + 48 * i) 48 (image_infos off ms) = enc_ImageEntry e \<and>
       load_address e = loadAddress (ms ! i) \<and> ie_uuid e = uuid (ms ! i) \<and>
       segment_count e = of_nat (length (segments (ms ! i))) \<and>
       (ie_reserved e = 1 \<longleftrightarrow> executing (ms ! i)) \<and>
       chunk (unat (filepath_offset e - off)) (length (filePath (ms ! i)) + 1) (image_infos off ms) = filePath (ms ! i) @ [0] \<and>
       chunk (unat (seg_addrs_offset e - off)) (32 * length (segments (ms ! i))) (image_infos off ms) =
         concat (map (enc_SegmentVMAddr \<circ> segment_vmaddr) (segments (ms ! i)))"
    using entry_in_image [OF assms(3) i, of off] path_in_image [OF assms(3) i, of off]
      segments_in_image [OF assms(3) i, of off] entry_positions [OF assms(3) i, of off]
    by (intro exI [of _ "image_entry off ms i"]) (simp add: image_entry_def)
qed

lemma all_image_infos_layout_witness:
  "\<exists>p. CreateAllImageInfosPayload 0x200 demo_modules = Inr p \<and> length p = 107 \<and>
     take 24 p = enc_AllImageInfosHeader (image_infos_header 0x200 [demo_entry 0x1000 0 0x60 demo_dyld_bytes])"
proof -
  let ?m = "demo_entry 0x1000 0 0x60 demo_dyld_bytes"
  have "others demo_modules = Inr [?m]" by code_simp
  moreover have "length demo_modules = Suc (length [?m])" by (simp add: demo_modules_def)
  moreover have "payload_ok [?m]" and size: "payload_size [?m] = 107"
    by (simp_all add: payload_ok_def payload_size_def paths_pos_def segments_pos_def all_segments_def
        paths_size_def demo_entry_def)
  ultimately show ?thesis
    using all_image_infos_layout [of demo_modules "[?m]" "0x200"] by auto
qed

text \<open>C26. The specification of the main binary carries the UUID of the first main executable and
  the slide by which its \<open>__TEXT\<close> segment moved: added to the address in the load commands it
  gives the key under which the module is listed.\<close>

theorem main_bin_spec_slide:
  assumes "modules = pre @ (k, mi) # post" and "\<forall>(k', mi') \<in> set pre. IsMainExecutable mi' = Inr False"
    and "headerAndLoadCommandBytes mi = image_bytes h cs" and "wf_image h cs" and "filetype h = MH_EXECUTE"
    and "find is_text_command cs = Some c"
  shows "\<exists>spec. CreateMainBinSpecPayload cfg modules = Inr spec \<and>
    mb_slide spec + le_word (chunk 24 8 c) = k \<and> mb_uuid spec = uuid mi \<and>
    mb_version spec = 2 \<and> mb_type spec = 0 \<and> mb_address spec = UINT64_MAX"
proof -
  have skip: "CreateMainBinSpecPayload cfg (pre @ ms) = CreateMainBinSpecPayload cfg ms" for ms
    using assms(2) by (induction pre) auto
  show ?thesis
    unfolding assms(1) skip
    using IsMainExecutable_image [OF assms(3)] GetPreferredTextAddress_image [OF assms(4,3)] assms(5,6)
    by simp
qed

lemma main_bin_spec_slide_witness:
  "\<exists>spec. CreateMainBinSpecPayload demo_config demo_modules = Inr spec \<and>
     mb_slide spec + 0x100000000 = 0x10A0 \<and> mb_uuid spec = replicate 16 7"
proof -
  let ?d = "demo_entry 0x1000 0 0x60 demo_dyld_bytes" and ?m = "demo_entry 0x10A0 7 0x80 demo_image_bytes"
  have "demo_modules = [(0x1000, ?d)] @ (0x10A0, ?m) # []" by (simp add: demo_modules_def)
  moreover have "\<forall>(k', mi') \<in> set [(0x1000 :: u64, ?d)]. IsMainExecutable mi' = Inr False"
  proof -
    have "IsMainExecutable ?d = Inr False" by code_simp
    then show ?thesis by simp
  qed
  moreover have "headerAndLoadCommandBytes ?m = image_bytes (demo_header MH_EXECUTE 2 96) [demo_text 0x100000000 0x80, demo_uuid]"
    by (simp add: demo_entry_def demo_image(2))
  moreover note demo_image(1)
  moreover have "filetype (demo_header MH_EXECUTE 2 96) = MH_EXECUTE" by (simp add: demo_header_def)
  moreover have "find is_text_command [demo_text 0x100000000 0x80, demo_uuid] = Some (demo_text 0x100000000 0x80)"
    by code_simp
  ultimately have "\<exists>spec. CreateMainBinSpecPayload demo_config demo_modules = Inr spec \<and>
    mb_slide spec + le_word (chunk 24 8 (demo_text 0x100000000 0x80)) = 0x10A0 \<and> mb_uuid spec = uuid ?m \<and>
    mb_version spec = 2 \<and> mb_type spec = 0 \<and> mb_address spec = UINT64_MAX"
    by (rule main_bin_spec_slide)
  moreover have "le_word (chunk 24 8 (demo_text 0x100000000 0x80)) = (0x100000000 :: u64)" by code_simp
  moreover have "uuid ?m = replicate 16 7" by (simp add: demo_entry_def)
  ultimately show ?thesis by auto
qed

text \<open>C27. The process metadata is JSON that reads back as the thread ids, in order.\<close>

theorem process_metadata_reads_back:
  "read_metadata (CreateProcessMetadataPayload threadIds) = Some (map unat threadIds)"
  by (rule read_metadata_payload)

end
