(* ===== verification/MiniDump.thy ===== *)
theory MiniDump
  imports StackWalk PortRef IntervalSet BuilderOps ImageInfos
begin

text \<open>
  \<open>MacMiniDump.cpp\<close>: from the request for a dump to the core file. The functions here
  return what they return in the code, together with the calls they make on threads, tasks
  and ports, in order; a fault keeps the calls made before it. An exception
  (\<open>std::bad_alloc\<close>) runs the destructors of the scopes it leaves, every other fault ends
  the process where it is.
\<close>

subsection \<open>The kernel and the build\<close>

text \<open>
  The answers about threads, after the ones about memory and the dynamic linker. Answers that
  may differ from one call to the next depend on the calls made before.
\<close>

record dump_kernel = dyld_kernel +
  pid_for_task_ok :: bool
  mach_task_self :: port
  task_suspend_ok :: bool
  mach_thread_self :: port
  task_threads :: "event list \<Rightarrow> port list option"
  thread_suspend_ok :: "event list \<Rightarrow> port \<Rightarrow> bool"
  thread_identifier :: "port \<Rightarrow> u64 option"
  thread_get_gpr :: "port \<Rightarrow> thread_state option"
  thread_get_exc :: "port \<Rightarrow> exception_state option"
  virtual_address_size :: "u32 option" \<comment> \<open>\<open>machdep.virtual_address_size\<close>\<close>
  cpu_address_bits_virtual :: "u32 option" \<comment> \<open>\<open>machdep.cpu.address_bits.virtual\<close>\<close>

text \<open>
  What the build fixes: the target, the layouts of foreign structures, the instruction
  \<open>xpaci\<close>; and what memory that is never written holds.
\<close>

record dump_env =
  env_config :: config
  env_dyld :: dyld_abi
  env_unwind :: unwind_abi
  env_tags :: vm_tags
  env_xpaci :: "u64 \<Rightarrow> u64"
  env_junk :: bytes
  env_pad :: u8
  env_offset :: u64

record CrashContext = \<comment> \<open>\<open>MMDCrashContext\<close>: the thread and exception states of the machine context\<close>
  crash_ss :: thread_state
  crash_es :: exception_state
  crashedTID :: u64

text \<open>
  \<open>new\<close> of a class derived from \<open>ZoneAllocated\<close>: its \<open>operator new\<close> returns a null pointer when
  the zone has no block, and the object is then constructed at that pointer.
\<close>

definition zone_new :: "'z mem_kernel_scheme \<Rightarrow> u64 \<Rightarrow> unit res" where
  "zone_new K size_of_T = require OutOfBounds (malloc_ok K size_of_T)"

definition sizeof_ProcessMemoryReaderDataPtr :: u64 where "sizeof_ProcessMemoryReaderDataPtr = 40"
definition sizeof_CopiedDataPtr :: u64 where "sizeof_CopiedDataPtr = 16"
definition sizeof_DataProvider :: u64 where "sizeof_DataProvider = 24"

subsection \<open>Segments\<close>

definition GetMemoryProtection :: "'z mem_kernel_scheme \<Rightarrow> u64 \<Rightarrow> u64 \<Rightarrow> u8 option" where
  "GetMemoryProtection K addr sz = map_option ucast (short_protection K addr sz)"

definition AddSegmentCommandFromProcessMemoryProt ::
  "'z mem_kernel_scheme \<Rightarrow> u8 \<Rightarrow> u64 \<Rightarrow> u64 \<Rightarrow> builder \<Rightarrow> (bool \<times> builder) res" where
  "AddSegmentCommandFromProcessMemoryProt K pr start len b =
     rbind (zone_new K sizeof_ProcessMemoryReaderDataPtr) (\<lambda>_.
     rbind (zone_new K sizeof_DataProvider) (\<lambda>_.
       Inr (AddSegmentCommand start (ucast pr)
         (Some \<lparr>dp_size = len, dp_ptr = ProcessMemoryReaderDataPtr start len\<rparr>) b)))"

definition AddSegmentCommandFromProcessMemory ::
  "'z mem_kernel_scheme \<Rightarrow> u64 \<Rightarrow> u64 \<Rightarrow> builder \<Rightarrow> (bool \<times> builder) res" where
  "AddSegmentCommandFromProcessMemory K start len b =
     (case GetMemoryProtection K start len of
        None \<Rightarrow> Inr (False, b)
      | Some pr \<Rightarrow> AddSegmentCommandFromProcessMemoryProt K pr start len b)"

subsection \<open>Suspending and resuming the threads of the own task\<close>

text \<open>Destroying a vector of references, from its end.\<close>

definition delete_refs :: "port \<Rightarrow> SendRightRef list \<Rightarrow> event list" where
  "delete_refs self refs = concat (map (delete_SendRightRef self) (rev refs))"

text \<open>
  The loop over \<open>threadRefs\<close>: how it ended, the references with those moved from emptied, the
  suspended threads, the calls.
\<close>

fun suspend_loop ::
  "'z dump_kernel_scheme \<Rightarrow> port \<Rightarrow> SendRightRef list \<Rightarrow> SendRightRef list \<Rightarrow> event list \<Rightarrow>
     unit res \<times> SendRightRef list \<times> SendRightRef list \<times> event list"
where
  "suspend_loop K thisThread [] suspended tr = (Inr (), [], suspended, tr)"
| "suspend_loop K thisThread (threadRef # refs) suspended tr =
     (if PortRef.Get threadRef = thisThread then
        let (r, refs, suspended, tr) = suspend_loop K thisThread refs suspended tr
        in (r, threadRef # refs, suspended, tr)
      else if thread_suspend_ok K tr (PortRef.Get threadRef) then
        let tr = tr @ [ThreadSuspend (PortRef.Get threadRef)];
            (new, moved) = move_construct threadRef
        in case push_back K 8 suspended new of
             Inl e \<Rightarrow> (Inl e, threadRef # refs, suspended, tr)
           | Inr suspended \<Rightarrow>
               let (r, refs, suspended, tr) = suspend_loop K thisThread refs suspended tr
               in (r, moved # refs, suspended, tr)
      else
        let (r, refs, suspended, tr) = suspend_loop K thisThread refs suspended tr
        in (r, threadRef # refs, suspended, tr))"

text \<open>A scope is left by a return or by an exception.\<close>

fun unwinds :: "'a res \<Rightarrow> bool" where
  "unwinds (Inr x) \<longleftrightarrow> True"
| "unwinds (Inl e) \<longleftrightarrow> e = BadAlloc"

definition leave :: "event list \<Rightarrow> 'a res \<times> event list \<Rightarrow> 'a res \<times> event list" where
  "leave destructors = (\<lambda>(r, tr). (r, if unwinds r then tr @ destructors else tr))"

text \<open>\<open>reserve\<close>: no block for no elements.\<close>

definition reserve :: "'z mem_kernel_scheme \<Rightarrow> nat \<Rightarrow> nat \<Rightarrow> unit res" where
  "reserve K size_of_T n = require BadAlloc (n = 0 \<or> malloc_ok K (of_nat (size_of_T * n)))"

text \<open>
  The locals are destroyed in the order opposite to their declaration: the references, the
  own thread's, and last the suspended threads, which are empty once they were moved out.
\<close>

definition SuspendAllThreadsExceptCurrentOne ::
  "'z dump_kernel_scheme \<Rightarrow> event list \<Rightarrow> (bool \<times> SendRightRef list) res \<times> event list" where
  "SuspendAllThreadsExceptCurrentOne K tr =
     (let self = mach_task_self K;
          thisThreadRef = Wrap (mach_thread_self K) self;
          tr = tr @ [SendRight (mach_thread_self K)];
          delete_this = delete_SendRightRef self thisThreadRef
      in case task_threads K tr of
           None \<Rightarrow> leave delete_this (Inr (False, []), tr)
         | Some threads \<Rightarrow>
             let tr = tr @ map SendRight threads in
             (case reserve K 8 (length threads) of
                Inl e \<Rightarrow> leave delete_this (Inl e, tr)
              | Inr _ \<Rightarrow>
                  let threadRefs = map (\<lambda>p. Wrap p self) threads;
                      (r, threadRefs, suspendedThreads, tr) =
                        suspend_loop K (PortRef.Get thisThreadRef) threadRefs [] tr
                  in (case r of
                        Inl e \<Rightarrow> leave (delete_refs self threadRefs @ delete_this @ delete_refs self suspendedThreads)
                          (Inl e, tr)
                      | Inr _ \<Rightarrow> leave (delete_refs self threadRefs @ delete_this)
                          (Inr (True, suspendedThreads), tr @ [VmDeallocate]))))"

definition ResumeThreads :: "SendRightRef list \<Rightarrow> event list" where
  "ResumeThreads threads = map (ThreadResume \<circ> PortRef.Get) threads"

subsection \<open>Adding the threads\<close>

record thread_data = \<comment> \<open>what the loop over the threads changes\<close>
  td_builder :: builder
  td_modules :: ModuleInfos
  td_ids :: "u64 list"
  td_ranges :: intervals

definition SurroundingsRange :: u64 where
  "SurroundingsRange = 256"

definition add_ip :: "u64 \<Rightarrow> thread_data \<Rightarrow> thread_data" where
  "add_ip ip d =
     d\<lparr>td_ranges :=
         (if ip \<ge> SurroundingsRange \<and> ip \<le> UINT64_MAX - SurroundingsRange then
            InsertAndMergeIfNeeded (ip - SurroundingsRange) (2 * SurroundingsRange + 1) (td_ranges d)
          else td_ranges d),
       td_modules := snd (MarkAsExecuting ip (td_modules d))\<rparr>"

text \<open>The registers of a thread: from the crash context when it is the thread that crashed.\<close>

definition thread_tid :: "'z dump_kernel_scheme \<Rightarrow> port \<Rightarrow> u64" where
  "thread_tid K thread = (case thread_identifier K thread of None \<Rightarrow> 0 | Some tid \<Rightarrow> tid)"

definition thread_registers ::
  "'z dump_kernel_scheme \<Rightarrow> CrashContext option \<Rightarrow> port \<Rightarrow> (thread_state \<times> exception_state) option" where
  "thread_registers K crash thread =
     (case crash of
        Some c \<Rightarrow>
          if thread_tid K thread = crashedTID c then Some (crash_ss c, crash_es c)
          else (case thread_get_gpr K thread of
                  None \<Rightarrow> None
                | Some ts \<Rightarrow> map_option (Pair ts) (thread_get_exc K thread))
      | None \<Rightarrow>
          (case thread_get_gpr K thread of
             None \<Rightarrow> None
           | Some ts \<Rightarrow> map_option (Pair ts) (thread_get_exc K thread)))"

definition add_stack ::
  "CrashContext option \<Rightarrow> MemoryRegions \<Rightarrow> port \<Rightarrow> port \<Rightarrow> u64 \<Rightarrow> thread_data \<Rightarrow> thread_data" where
  "add_stack crash memoryRegions thisThread thread sp d =
     (case GetRegionInfoForAddress memoryRegions sp of
        None \<Rightarrow> d
      | Some regionInfo \<Rightarrow>
          let stackStart = vmaddr regionInfo + vmsize regionInfo;
              lengthInBytes = stackStart - sp
          in if thread \<noteq> thisThread \<or> crash \<noteq> None then
               d\<lparr>td_ranges := InsertAndMergeIfNeeded (stackStart - lengthInBytes) lengthInBytes (td_ranges d)\<rparr>
             else d)"

definition add_thread ::
  "dump_env \<Rightarrow> 'z dump_kernel_scheme \<Rightarrow> CrashContext option \<Rightarrow> MemoryRegions \<Rightarrow> port \<Rightarrow> port \<Rightarrow>
     thread_data \<Rightarrow> thread_data res"
where
  "add_thread E K crash memoryRegions thisThread thread d =
     (case thread_registers K crash thread of
        None \<Rightarrow> Inr d
      | Some (ts, es) \<Rightarrow>
          let cfg = env_config E;
              g = make_GPR (target cfg) ts;
              e = make_EXC (target cfg) es
          in rbind (AddThreadCommand K (env_pad E) [enc_GPR g, enc_EXC e] (td_builder d)) (\<lambda>(_, b).
             rbind (push_back K 8 (td_ids d) (thread_tid K thread)) (\<lambda>ids.
             rbind (WalkStack cfg K (env_unwind E) (env_xpaci E) (env_junk E) memoryRegions (td_modules d) g e)
               (\<lambda>callStack.
             let d = fold add_ip callStack (d\<lparr>td_builder := b, td_ids := ids\<rparr>) in
             rbind (StackPointer K g) (\<lambda>p. rbind (AsUIntPtr cfg (env_junk E) p) (\<lambda>sp.
               Inr (add_stack crash memoryRegions thisThread thread sp d)))))))"

definition add_segments :: "'z mem_kernel_scheme \<Rightarrow> intervals \<Rightarrow> builder \<Rightarrow> builder res" where
  "add_segments K ranges b =
     rfold (\<lambda>(start, len) b. rbind (AddSegmentCommandFromProcessMemory K start len b) (\<lambda>(_, b). Inr b))
       (ForEach ranges) b"

definition AddThreadsToCore ::
  "dump_env \<Rightarrow> 'z dump_kernel_scheme \<Rightarrow> CrashContext option \<Rightarrow> builder \<Rightarrow> ModuleInfos \<Rightarrow> u64 list \<Rightarrow> event list \<Rightarrow>
     (bool \<times> builder \<times> ModuleInfos \<times> u64 list) res \<times> event list"
where
  "AddThreadsToCore E K crash b modules threadIds tr =
     (let self = mach_task_self K;
          thisThreadRef = Wrap (mach_thread_self K) self;
          tr = tr @ [SendRight (mach_thread_self K)];
          delete_this = delete_SendRightRef self thisThreadRef
      in case task_threads K tr of
           None \<Rightarrow> leave delete_this (Inr (False, b, modules, []), tr)
         | Some threads \<Rightarrow>
             let tr = tr @ map SendRight threads in
             (case reserve K 8 (length threads) of
                Inl e \<Rightarrow> leave delete_this (Inl e, tr)
              | Inr _ \<Rightarrow>
                  let threadRefs = map (\<lambda>p. Wrap p self) threads;
                      added =
                        rbind (case new_MemoryRegionList K (env_tags E) of None \<Rightarrow> Inl Diverges | Some m \<Rightarrow> Inr m)
                          (\<lambda>memoryRegions.
                        rbind (rfold (\<lambda>threadRef. add_thread E K crash memoryRegions (PortRef.Get thisThreadRef) (PortRef.Get threadRef))
                                 threadRefs
                                 \<lparr>td_builder = b, td_modules = modules, td_ids = [], td_ranges = []\<rparr>) (\<lambda>d.
                        rbind (add_segments K (td_ranges d) (td_builder d)) (\<lambda>b.
                          Inr (True, b, td_modules d, td_ids d))))
                  in leave (delete_refs self threadRefs @ delete_this)
                       (added, case added of Inl e \<Rightarrow> tr | Inr _ \<Rightarrow> tr @ [VmDeallocate])))"

subsection \<open>Notes and payloads\<close>

definition AddNotesToCore :: "builder \<Rightarrow> bool \<times> builder" where
  "AddNotesToCore b =
     (let b = snd (AddNoteCommand AddrableBitsOwner None b);
          b = snd (AddNoteCommand AllImageInfosOwner None b);
          b = snd (AddNoteCommand MainBinSpecOwner None b);
          b = snd (AddNoteCommand ProcessMetadataOwner None b)
      in (True, b))"

definition address_bits :: "'z dump_kernel_scheme \<Rightarrow> u32 option" where
  "address_bits K =
     (case virtual_address_size K of Some n \<Rightarrow> Some n | None \<Rightarrow> cpu_address_bits_virtual K)"

text \<open>A note gets a provider that owns a copy of its payload.\<close>

definition add_payload :: "dump_env \<Rightarrow> 'z mem_kernel_scheme \<Rightarrow> bytes \<Rightarrow> bytes \<Rightarrow> builder \<Rightarrow> builder res" where
  "add_payload E K owner d b =
     rbind (zone_new K sizeof_CopiedDataPtr) (\<lambda>_.
     rbind (provider_of_copy K d (of_nat (length d))) (\<lambda>p.
     rbind (zone_new K sizeof_DataProvider) (\<lambda>_.
     rbind (AddDataProviderForNoteCommand (env_config E) owner p b) (\<lambda>(_, b). Inr b))))"

definition update_segment_offset :: "config \<Rightarrow> nat \<Rightarrow> builder \<Rightarrow> builder res" where
  "update_segment_offset cfg i b =
     rbind (GetSegmentCommand i b) (\<lambda>pSegment.
     rbind (GetOffsetForSegmentCommandPayload cfg (sc_vmaddr pSegment) b) (\<lambda>off.
       Inr (set_segment_offset i off b)))"

definition AddPayloadsAndWrite ::
  "dump_env \<Rightarrow> 'z dump_kernel_scheme \<Rightarrow> 's IRandomAccessBinaryOStream \<Rightarrow> ModuleInfos \<Rightarrow> u64 list \<Rightarrow>
     's build_step"
where
  "AddPayloadsAndWrite E K S modules threadIds = (\<lambda>(b, s).
     case address_bits K of
       None \<Rightarrow> Inr (False, b, s)
     | Some nAddrabbleBits \<Rightarrow>
         let cfg = env_config E;
             abInfo = \<lparr>ab_version = 3, nBits = nAddrabbleBits, ab_unused = 0\<rparr>
         in rbind (add_payload E K AddrableBitsOwner (enc_AddrableBitsInfo abInfo) b) (\<lambda>b.
            rbind (add_payload E K ProcessMetadataOwner (CreateProcessMetadataPayload threadIds) b) (\<lambda>b.
            let b = FinalizeLoadCommands b in
            rbind (GetOffsetForNoteCommandPayload cfg (AllImageInfosOwner @ [0]) b) (\<lambda>off.
            let imageInfosPayloadOffset = (case off of None \<Rightarrow> 0 | Some x \<Rightarrow> x) in
            rbind (CreateAllImageInfosPayload imageInfosPayloadOffset modules) (\<lambda>imageInfosPayload.
            if imageInfosPayload = [] then Inr (False, b, s)
            else
              rbind (add_payload E K AllImageInfosOwner imageInfosPayload b) (\<lambda>b.
              rbind (CreateMainBinSpecPayload cfg modules) (\<lambda>mainBinSpec.
              rbind (add_payload E K MainBinSpecOwner (enc_MainBinSpec mainBinSpec) b) (\<lambda>b.
              rbind (rfold (update_segment_offset cfg) [0..<GetNumberOfSegmentCommands b] b) (\<lambda>b.
                Build K cfg (env_offset E) S (b, s))))))))))"

subsection \<open>The dump\<close>

text \<open>
  What the request does between suspending and resuming. The stream is lost to the model when
  a fault ends it.
\<close>

definition dump_body ::
  "dump_env \<Rightarrow> 'z dump_kernel_scheme \<Rightarrow> 's IRandomAccessBinaryOStream \<Rightarrow> CrashContext option \<Rightarrow> 's \<Rightarrow>
     event list \<Rightarrow> (bool \<times> 's) res \<times> event list"
where
  "dump_body E K S crash s tr =
     (let coreBuilder = new_MachOCoreDumpBuilder (env_config E) in
      case new_ModuleList (env_config E) K (env_dyld E) of
        Inl e \<Rightarrow> (Inl e, tr)
      | Inr modules \<Rightarrow>
          (case AddThreadsToCore E K crash coreBuilder modules [] tr of
             (Inl e, tr) \<Rightarrow> (Inl e, tr)
           | (Inr (ok, coreBuilder, modules, threadIds), tr) \<Rightarrow>
               if \<not> ok then (Inr (False, s), tr)
               else
                 let (ok, coreBuilder) = AddNotesToCore coreBuilder in
                 if \<not> ok then (Inr (False, s), tr)
                 else (rbind (AddPayloadsAndWrite E K S modules threadIds (coreBuilder, s))
                         (\<lambda>(ok, _, s). Inr (ok, s)), tr)))"

text \<open>
  \<open>defer\<close> runs when the scope after it is left, by a return or by an exception, and before the
  references to the suspended threads are destroyed.
\<close>

definition MiniDumpWriteDumpImpl ::
  "dump_env \<Rightarrow> 'z dump_kernel_scheme \<Rightarrow> 's IRandomAccessBinaryOStream \<Rightarrow> port \<Rightarrow> CrashContext option \<Rightarrow> 's \<Rightarrow>
     event list \<Rightarrow> (bool \<times> 's) res \<times> event list"
where
  "MiniDumpWriteDumpImpl E K S taskPort crash s tr =
     (if \<not> pid_for_task_ok K then (Inr (False, s), tr)
      else
        let (ok, s) = os_SetSize S 0 s in
        if \<not> ok then (Inr (False, s), tr)
        else if taskPort \<noteq> mach_task_self K then
          (if \<not> task_suspend_ok K then (Inr (False, s), tr)
           else leave [TaskResume] (dump_body E K S crash s (tr @ [TaskSuspend])))
        else
          (case SuspendAllThreadsExceptCurrentOne K tr of
             (Inl e, tr) \<Rightarrow> (Inl e, tr)
           | (Inr (ok, suspendedThreads), tr) \<Rightarrow>
               if \<not> ok then (Inr (False, s), tr)
               else leave (ResumeThreads suspendedThreads @ delete_refs (mach_task_self K) suspendedThreads)
                      (dump_body E K S crash s tr)))"

text \<open>
  The entry point catches \<open>std::bad_alloc\<close>; the state that it leaves the stream in is then not
  modelled (\<open>None\<close>).
\<close>

definition MiniDumpWriteDump ::
  "dump_env \<Rightarrow> 'z dump_kernel_scheme \<Rightarrow> 's IRandomAccessBinaryOStream \<Rightarrow> port \<Rightarrow> CrashContext option \<Rightarrow> 's \<Rightarrow>
     (bool \<times> 's option) res \<times> event list"
where
  "MiniDumpWriteDump E K S taskPort crash s =
     (case MiniDumpWriteDumpImpl E K S taskPort crash s [] of
        (Inr (ok, s), tr) \<Rightarrow> (Inr (ok, Some s), tr)
      | (Inl e, tr) \<Rightarrow> (if e = BadAlloc then Inr (False, None) else Inl e, tr))"

text \<open>The C interface: a stream over the descriptor, which is closed at the end.\<close>

definition MiniDumpWriteDump_C ::
  "dump_env \<Rightarrow> 'z dump_kernel_scheme \<Rightarrow> 'f posix \<Rightarrow> port \<Rightarrow> int \<Rightarrow> CrashContext option \<Rightarrow> 'f \<Rightarrow>
     (bool \<times> 'f FileOStream option) res \<times> event list"
where
  "MiniDumpWriteDump_C E K P taskPort fd crash f =
     (case MiniDumpWriteDump E K (FileOStream_vtable P) taskPort crash (new_FileOStream_fd fd f) of
        (r, tr) \<Rightarrow> (rbind r (\<lambda>(ok, fos). Inr (ok, map_option (delete_FileOStream P) fos)), tr))"

end
