(* ===== verification/CoreBuild.thy ===== *)
theory CoreBuild
  imports CoreFile
begin

text \<open>
  \<open>Build\<close> on a stream that keeps the promises of \<open>byte_stream\<close>: step by step the stream
  comes to stand at the end of a longer prefix of \<open>file_image\<close>.
\<close>

lemma building_note:
  assumes "building b0 b" and "i < length (note_cmds b0)"
  shows "(fst (note_cmds b ! i))\<lparr>nc_offset := x\<rparr> = (fst (note_cmds b0 ! i))\<lparr>nc_offset := x\<rparr>"
    and "length (note_cmds b) = length (note_cmds b0)"
    and "snd (note_cmds b ! i) = snd (note_cmds b0 ! i)"
    and "note_size (note_cmds b ! i) = note_size (note_cmds b0 ! i)"
proof -
  have eq: "strip b = strip (FinalizeLoadCommands b0)" using assms(1) by (simp add: building_def)
  note N = strip_note [OF eq]
  show "(fst (note_cmds b ! i))\<lparr>nc_offset := x\<rparr> = (fst (note_cmds b0 ! i))\<lparr>nc_offset := x\<rparr>"
    "length (note_cmds b) = length (note_cmds b0)" "snd (note_cmds b ! i) = snd (note_cmds b0 ! i)"
    using N(1) N(2) [of i x] assms(2) by simp_all
  have "nc_size ((fst (note_cmds b ! i))\<lparr>nc_offset := 0\<rparr>) = nc_size ((fst (note_cmds b0 ! i))\<lparr>nc_offset := 0\<rparr>)"
    using N(2) [of i 0] assms(2) by simp
  then show "note_size (note_cmds b ! i) = note_size (note_cmds b0 ! i)"
    by (simp add: note_size_def)
qed

lemma building_segment:
  assumes "building b0 b" and "i < length (segment_cmds b0)"
  shows "(fst (segment_cmds b ! i))\<lparr>sc_fileoff := x\<rparr> = (fst (segment_cmds b0 ! i))\<lparr>sc_fileoff := x\<rparr>"
    and "length (segment_cmds b) = length (segment_cmds b0)"
    and "snd (segment_cmds b ! i) = snd (segment_cmds b0 ! i)"
    and "sc_filesize (fst (segment_cmds b ! i)) = sc_filesize (fst (segment_cmds b0 ! i))"
proof -
  have eq: "strip b = strip (FinalizeLoadCommands b0)" using assms(1) by (simp add: building_def)
  note N = strip_segment [OF eq]
  show "(fst (segment_cmds b ! i))\<lparr>sc_fileoff := x\<rparr> = (fst (segment_cmds b0 ! i))\<lparr>sc_fileoff := x\<rparr>"
    "length (segment_cmds b) = length (segment_cmds b0)"
    "snd (segment_cmds b ! i) = snd (segment_cmds b0 ! i)"
    using N(1) N(2) [of i x] assms(2) by simp_all
  have "sc_filesize ((fst (segment_cmds b ! i))\<lparr>sc_fileoff := 0\<rparr>) =
      sc_filesize ((fst (segment_cmds b0 ! i))\<lparr>sc_fileoff := 0\<rparr>)"
    using N(2) [of i 0] assms(2) by simp
  then show "sc_filesize (fst (segment_cmds b ! i)) = sc_filesize (fst (segment_cmds b0 ! i))"
    by simp
qed

lemma building_ranges [simp]: "building b0 (b\<lparr>writtenRanges := r\<rparr>) = building b0 b"
  by (simp add: building_def)

lemma of_nat_less_56: "n < 2 ^ 56 \<Longrightarrow> (of_nat n :: u64) < 2 ^ 56"
  by (simp add: word_less_nat_alt unat_of_nat_small)

lemma building_set_note:
  assumes "building b0 b" and "i < length (note_cmds b0)" and "n < 2 ^ 56"
  shows "building b0 (set_note_offset i (Some (of_nat n)) b)"
proof -
  have i: "i < length (note_cmds b)" using building_note(2) [OF assms(1,2)] assms(2) by simp
  have "nc_offset (fst nc) < 2 ^ 56" if "nc \<in> set (note_cmds (set_note_offset i (Some (of_nat n)) b))" for nc
  proof -
    from that have "nc = ((fst (note_cmds b ! i))\<lparr>nc_offset := of_nat n\<rparr>, snd (note_cmds b ! i)) \<or>
        nc \<in> set (note_cmds b)"
      by (auto simp: set_note_offset_def dest: set_update_subset_insert [THEN subsetD])
    then show ?thesis
      using assms(1) of_nat_less_56 [OF assms(3)] by (auto simp: building_def)
  qed
  then show ?thesis
    using strip_set_note [OF i] assms(1) by (simp add: building_def)
qed

lemma building_set_segment:
  assumes "building b0 b" and "i < length (segment_cmds b0)"
  shows "building b0 (set_segment_offset i x b)"
proof -
  have i: "i < length (segment_cmds b)" using building_segment(2) [OF assms] assms(2) by simp
  have "note_cmds (set_segment_offset i x b) = note_cmds b"
    by (cases x) (simp_all add: set_segment_offset_def)
  then show ?thesis
    using strip_set_segment [OF i] assms(1) by (simp add: building_def)
qed

context byte_stream begin

subsection \<open>One write\<close>

definition written :: "bytes \<Rightarrow> builder \<times> 's \<Rightarrow> bool" where
  "written c st \<longleftrightarrow> stands_at c (snd st) \<and> (\<forall>r \<in> set (writtenRanges (fst st)). unat (snd r) \<le> length c)"

lemma not_overwrites:
  assumes "unat (snd r) \<le> unat start" and "unat start + unat n < 2 ^ 63"
  shows "\<not> overwrites start (start + n) r"
proof -
  have "unat (start + n) = unat start + unat n"
    using assms(2) by (intro no_wrap_unat) (simp add: no_wrap_def)
  with assms(1) show ?thesis by (auto simp: overwrites_def word_less_nat_alt)
qed

lemma write_step:
  assumes "written c (b, s)" and "unat n \<le> length d" and "length c + unat n < 2 ^ 63"
  shows "\<exists>r s'. WriteToOStream cfg stream (Some d) n (b, s) = Inr (True, b\<lparr>writtenRanges := r\<rparr>, s') \<and>
    written (c @ take (unat n) d) (b\<lparr>writtenRanges := r\<rparr>, s') \<and>
    (n \<noteq> 0 \<longrightarrow> contents s' = c @ take (unat n) d) \<and> (n = 0 \<longrightarrow> contents s' = contents s)"
proof -
  have s: "stands_at c s" and ranges: "\<forall>r \<in> set (writtenRanges b). unat (snd r) \<le> length c"
    using assms(1) by (simp_all add: written_def)
  have pos: "unat (position s) = length c" using s by (simp add: stands_at_def)
  obtain s' where s': "os_Write stream (Some d) n s = Inr (True, s')" "stands_at (c @ take (unat n) d) s'"
      "n \<noteq> 0 \<longrightarrow> contents s' = c @ take (unat n) d" "n = 0 \<longrightarrow> contents s' = contents s"
    using stands_at_write [OF s assms(2,3)] by blast
  have end_pos: "unat (position s + n) = length c + unat n"
    using assms(3) pos no_wrap_unat [of "position s" n] by (simp add: no_wrap_def)
  have len: "length (c @ take (unat n) d) = length c + unat n" using assms(2) by simp
  show ?thesis
  proof (cases "debug_checks cfg")
    case True
    let ?r = "writtenRanges b @ [(position s, position s + n)]"
    have free: "\<not> (\<exists>r \<in> set (writtenRanges b). overwrites (position s) (position s + n) r)"
      using ranges not_overwrites pos assms(3) by auto
    have eq: "WriteToOStream cfg stream (Some d) n (b, s) = Inr (True, b\<lparr>writtenRanges := ?r\<rparr>, s')"
      using True free s'(1) by (simp add: WriteToOStream_def stands_at_position [OF s])
    have "unat (snd r) \<le> length (c @ take (unat n) d)"
      if r: "r \<in> set ?r" for r
    proof -
      from r consider "r \<in> set (writtenRanges b)" | "r = (position s, position s + n)" by auto
      then show ?thesis
      proof cases
        case 1
        with ranges have "unat (snd r) \<le> length c" by blast
        with len show ?thesis by linarith
      next
        case 2
        with end_pos len show ?thesis by simp
      qed
    qed
    then have "written (c @ take (unat n) d) (b\<lparr>writtenRanges := ?r\<rparr>, s')"
      unfolding written_def using s'(2) by simp
    with eq s'(3,4) show ?thesis by blast
  next
    case False
    have "WriteToOStream cfg stream (Some d) n (b, s) = Inr (True, b\<lparr>writtenRanges := writtenRanges b\<rparr>, s')"
      using False s'(1) by (simp add: WriteToOStream_def)
    moreover have "written (c @ take (unat n) d) (b\<lparr>writtenRanges := writtenRanges b\<rparr>, s')"
      using s'(2) ranges len by (auto simp: written_def intro: le_trans)
    ultimately show ?thesis using s'(3,4) by blast
  qed
qed

lemma seek_step:
  assumes "written c (b, s)" and "length c \<le> q" and "q < 2 ^ 63"
  shows "written (c @ replicate (q - length c) 0) (b, os_SetPosition stream (of_nat q) s)"
proof -
  have q: "unat (of_nat q :: u64) = q" using assms(3) by (simp add: unat_of_nat_small)
  have "stands_at c s" using assms(1) by (simp add: written_def)
  from stands_at_seek [OF this, of "of_nat q"] assms show ?thesis
    by (auto simp: written_def q)
qed


subsection \<open>The load commands\<close>

lemma write_note_step:
  assumes "ready K b0 ns ss" and "i < length (note_cmds b0)" and "building b0 b"
    and "written (c @ note_commands_image b0 i) (b, s)" and "length c = 32"
  shows "\<exists>b' s'. write_note cfg stream i (b, s) = Inr (True, b', s') \<and> building b0 b' \<and>
    written (c @ note_commands_image b0 (Suc i)) (b', s')"
proof -
  have structured: "structured b0" and small: "commands_size b0 < 2 ^ 32" "file_end b0 < 2 ^ 56"
    using assms(1) by (simp_all add: ready_def)
  let ?b1 = "set_note_offset i (Some (of_nat (note_off b0 i))) b"
  have off: "note_off b0 i < 2 ^ 56"
    using note_off_le [of i b0] assms(2) small(2) by simp
  have b1: "building b0 ?b1" by (rule building_set_note [OF assms(3,2) off])
  have i: "i < length (note_cmds b)" using building_note(2) [OF assms(3,2)] assms(2) by simp
  then have fin: "fst (note_cmds ?b1 ! i) = final_note b0 i"
    using building_note(1) [OF assms(3,2)] by (simp add: set_note_offset_def final_note_def)
  have len: "length (enc_note (final_note b0 i)) = 40"
  proof -
    have "note_cmds b0 ! i \<in> set (note_cmds b0)" using assms(2) by simp
    then show ?thesis using structured by (simp add: structured_def final_note_def)
  qed
  have "40 * i + 40 \<le> commands_size b0"
    using assms(2) by (simp add: commands_size_def)
  then have room: "length (c @ note_commands_image b0 i) + unat (40 :: u64) < 2 ^ 63"
    using small(1) assms(2,5) by (simp add: length_note_commands_image [OF structured])
  have "written (c @ note_commands_image b0 i) (?b1, s)"
    using assms(4) by (simp add: written_def set_note_offset_def)
  from write_step [OF this _ room, of "enc_note (final_note b0 i)" cfg] len obtain r s' where
    "WriteToOStream cfg stream (Some (enc_note (final_note b0 i))) 40 (?b1, s) =
       Inr (True, ?b1\<lparr>writtenRanges := r\<rparr>, s')"
    "written ((c @ note_commands_image b0 i) @ take 40 (enc_note (final_note b0 i))) (?b1\<lparr>writtenRanges := r\<rparr>, s')"
    by auto
  with b1 fin len note_lookup [OF assms(1,3,2)] show ?thesis
    by (auto simp: write_note_def sizeofs note_commands_image_def Let_def)
qed

lemma write_segment_step:
  assumes "ready K b0 ns ss" and "i < length (segment_cmds b0)" and "building b0 b"
    and "written (c @ segment_commands_image b0 i) (b, s)"
    and "length c + 72 * length (segment_cmds b0) \<le> 32 + commands_size b0"
  shows "\<exists>b' s'. write_segment cfg stream i (b, s) = Inr (True, b', s') \<and> building b0 b' \<and>
    written (c @ segment_commands_image b0 (Suc i)) (b', s')"
proof -
  have structured: "structured b0" and small: "commands_size b0 < 2 ^ 32"
    using assms(1) by (simp_all add: ready_def)
  let ?b1 = "set_segment_offset i (Some (of_nat (segment_off b0 i))) b"
  have b1: "building b0 ?b1" by (rule building_set_segment [OF assms(3,2)])
  have i: "i < length (segment_cmds b)" using building_segment(2) [OF assms(3,2)] assms(2) by simp
  then have segment: "fst (segment_cmds ?b1 ! i) = final_segment b0 i"
    using building_segment(1) [OF assms(3,2)] by (simp add: set_segment_offset_def final_segment_def)
  have len: "length (enc_segment (final_segment b0 i)) = 72"
  proof -
    have "segment_cmds b0 ! i \<in> set (segment_cmds b0)" using assms(2) by simp
    then show ?thesis using structured by (simp add: structured_def final_segment_def)
  qed
  have room: "length (c @ segment_commands_image b0 i) + unat (72 :: u64) < 2 ^ 63"
    using small assms(2,5) by (simp add: length_segment_commands_image [OF structured])
  have "written (c @ segment_commands_image b0 i) (?b1, s)"
    using assms(4) by (simp add: written_def set_segment_offset_def)
  from write_step [OF this _ room, of "enc_segment (final_segment b0 i)" cfg] len obtain r s' where
    "WriteToOStream cfg stream (Some (enc_segment (final_segment b0 i))) 72 (?b1, s) =
       Inr (True, ?b1\<lparr>writtenRanges := r\<rparr>, s')"
    "written ((c @ segment_commands_image b0 i) @ take 72 (enc_segment (final_segment b0 i)))
       (?b1\<lparr>writtenRanges := r\<rparr>, s')"
    by auto
  with b1 segment len segment_lookup [OF assms(1,3,2)] show ?thesis
    by (auto simp: write_segment_def sizeofs segment_commands_image_def Let_def)
qed

lemma write_thread_step:
  assumes "ready K b0 ns ss" and "i < length (thread_cmds b0)" and "building b0 b"
    and "written (c @ concat (take i (thread_cmds b0))) (b, s)"
    and "length c = 32 + 40 * length (note_cmds b0)"
  shows "\<exists>b' s'. write_thread cfg stream (thread_cmds b0 ! i) (b, s) = Inr (True, b', s') \<and>
    building b0 b' \<and> written (c @ concat (take (Suc i) (thread_cmds b0))) (b', s')"
proof -
  let ?tc = "thread_cmds b0 ! i"
  have "structured b0" and small: "commands_size b0 < 2 ^ 32"
    using assms(1) by (simp_all add: ready_def)
  then have "unat (cmdsize_of ?tc) = length ?tc"
    using assms(2) by (simp add: structured_def)
  then have n: "unat (ucast (cmdsize_of ?tc) :: u64) = length ?tc"
    using unsigned_less [where 'a = nat, of "cmdsize_of ?tc"]
    by (simp add: unsigned_ucast_eq take_bit_nat_eq_self)
  have "length (concat (take (Suc i) (thread_cmds b0))) \<le> sum_list (map length (thread_cmds b0))"
    by (rule length_concat_take)
  then have room: "length (c @ concat (take i (thread_cmds b0))) + unat (ucast (cmdsize_of ?tc) :: u64) < 2 ^ 63"
    using small assms(2,5) by (simp add: n commands_size_def take_Suc_conv_app_nth)
  from write_step [OF assms(4) _ room, of ?tc cfg] obtain r s' where
    "WriteToOStream cfg stream (Some ?tc) (ucast (cmdsize_of ?tc)) (b, s) =
       Inr (True, b\<lparr>writtenRanges := r\<rparr>, s')"
    "written ((c @ concat (take i (thread_cmds b0))) @ take (unat (ucast (cmdsize_of ?tc) :: u64)) ?tc)
       (b\<lparr>writtenRanges := r\<rparr>, s')"
    unfolding n by auto
  with assms(2,3) show ?thesis
    by (auto simp: write_thread_def n take_Suc_conv_app_nth)
qed

lemma notes_loop:
  assumes "ready K b0 ns ss" and "building b0 b \<and> written c (b, s)" and "length c = 32"
  shows "\<exists>st. for_each (write_note cfg stream) [0..<length (note_cmds b0)] (b, s) = Inr (True, st) \<and>
    building b0 (fst st) \<and> written (c @ note_commands_image b0 (length (note_cmds b0))) st"
proof (rule for_each_upt [where I = "\<lambda>i st. building b0 (fst st) \<and> written (c @ note_commands_image b0 i) st"])
  show "\<exists>st'. write_note cfg stream i st = Inr (True, st') \<and> building b0 (fst st') \<and>
      written (c @ note_commands_image b0 (Suc i)) st'"
    if "i < length (note_cmds b0)" "building b0 (fst st) \<and> written (c @ note_commands_image b0 i) st" for i st
    using write_note_step [OF assms(1) that(1), of "fst st" c "snd st" cfg] that(2) assms(3) by fastforce
qed (use assms in \<open>simp add: note_commands_image_def\<close>)

lemma threads_loop:
  assumes "ready K b0 ns ss" and "building b0 b \<and> written c (b, s)"
    and "length c = 32 + 40 * length (note_cmds b0)"
  shows "\<exists>st. for_each (write_thread cfg stream) (thread_cmds b0) (b, s) = Inr (True, st) \<and>
    building b0 (fst st) \<and> written (c @ concat (thread_cmds b0)) st"
proof -
  have "\<exists>st. for_each (write_thread cfg stream) (thread_cmds b0) (b, s) = Inr (True, st) \<and>
    building b0 (fst st) \<and> written (c @ concat (take (length (thread_cmds b0)) (thread_cmds b0))) st"
  proof (rule for_each_steps
      [where I = "\<lambda>i st. building b0 (fst st) \<and> written (c @ concat (take i (thread_cmds b0))) st"])
    show "\<exists>st'. write_thread cfg stream (thread_cmds b0 ! i) st = Inr (True, st') \<and> building b0 (fst st') \<and>
        written (c @ concat (take (Suc i) (thread_cmds b0))) st'"
      if "i < length (thread_cmds b0)"
        "building b0 (fst st) \<and> written (c @ concat (take i (thread_cmds b0))) st" for i st
      using write_thread_step [OF assms(1) that(1), of "fst st" c "snd st" cfg] that(2) assms(3) by fastforce
  qed (use assms(2) in simp)
  then show ?thesis by simp
qed

lemma segments_loop:
  assumes "ready K b0 ns ss" and "building b0 b \<and> written c (b, s)"
    and "length c + 72 * length (segment_cmds b0) \<le> 32 + commands_size b0"
  shows "\<exists>st. for_each (write_segment cfg stream) [0..<length (segment_cmds b0)] (b, s) = Inr (True, st) \<and>
    building b0 (fst st) \<and> written (c @ segment_commands_image b0 (length (segment_cmds b0))) st"
proof (rule for_each_upt [where I = "\<lambda>i st. building b0 (fst st) \<and> written (c @ segment_commands_image b0 i) st"])
  show "\<exists>st'. write_segment cfg stream i st = Inr (True, st') \<and> building b0 (fst st') \<and>
      written (c @ segment_commands_image b0 (Suc i)) st'"
    if "i < length (segment_cmds b0)"
      "building b0 (fst st) \<and> written (c @ segment_commands_image b0 i) st" for i st
    using write_segment_step [OF assms(1) that(1), of "fst st" c "snd st" cfg] that(2) assms(3) by fastforce
qed (use assms in \<open>simp add: segment_commands_image_def\<close>)


subsection \<open>The payloads\<close>

text \<open>What stands before the payload \<open>i\<close> is written; the gap comes with the seek.\<close>

definition before_note :: "builder \<Rightarrow> bytes list \<Rightarrow> nat \<Rightarrow> bytes" where
  "before_note b ns i = (if i = 0 then commands_image b else notes_image b ns i)"

definition before_segment :: "builder \<Rightarrow> bytes list \<Rightarrow> bytes list \<Rightarrow> nat \<Rightarrow> bytes" where
  "before_segment b ns ss i = (if i = 0 then notes_image b ns (length ns) else segments_image b ns ss i)"

lemma before_note_pad:
  assumes "ready K b ns ss" and "i \<le> length ns"
  shows "before_note b ns i @ replicate (note_off b i - length (before_note b ns i)) 0 = notes_image b ns i"
    and "length (before_note b ns i) \<le> note_off b i"
proof -
  have "structured b" "length ns = length (note_cmds b)"
    using assms(1) by (auto simp: ready_def dest: list_all2_lengthD)
  then show "before_note b ns i @ replicate (note_off b i - length (before_note b ns i)) 0 = notes_image b ns i"
    and "length (before_note b ns i) \<le> note_off b i"
    using length_notes_image [OF assms(1), of i] length_commands_image [of b] bounds_chain(1,2) [of i b] assms(2)
    by (auto simp: before_note_def notes_image_def note_off_def)
qed

lemma before_segment_pad:
  assumes "ready K b ns ss" and "i \<le> length ss"
  shows "before_segment b ns ss i @ replicate (segment_off b i - length (before_segment b ns ss i)) 0 =
      segments_image b ns ss i"
    and "length (before_segment b ns ss i) \<le> segment_off b i"
proof -
  have "length ns = length (note_cmds b)"
    using assms(1) by (auto simp: ready_def dest: list_all2_lengthD)
  then have "length (notes_image b ns (length ns)) = notes_end b"
    using length_notes_image [OF assms(1), of "length ns"] by (simp add: notes_end_def)
  then show "before_segment b ns ss i @ replicate (segment_off b i - length (before_segment b ns ss i)) 0 =
      segments_image b ns ss i"
    and "length (before_segment b ns ss i) \<le> segment_off b i"
    using length_segments_image [OF assms(1), of i] bounds_chain(4) [of 0 b]
    by (auto simp: before_segment_def segments_image_def segment_off_def)
qed

lemma write_note_payload_step:
  assumes "ready K b0 ns ss" and "i < length (note_cmds b0)" and "building b0 b"
    and "written (before_note b0 ns i) (b, s)" and "nc = note_cmds b ! i"
  shows "\<exists>r s'. write_note_payload cfg u stream nc (b, s) = Inr (True, b\<lparr>writtenRanges := r\<rparr>, s') \<and>
    written (before_note b0 ns (Suc i)) (b\<lparr>writtenRanges := r\<rparr>, s')"
proof -
  have ns: "list_all2 note_payload (note_cmds b0) ns" and small: "file_end b0 < 2 ^ 56"
    using assms(1) by (simp_all add: ready_def)
  have len: "length ns = length (note_cmds b0)" using ns by (simp add: list_all2_lengthD)
  have "note_payload (note_cmds b0 ! i) (ns ! i)"
    using ns assms(2) by (simp add: list_all2_conv_all_nth)
  then obtain p d where p: "snd nc = Some p" "GetAll (dp_ptr p) = Some d" "note_size nc \<le> length d"
      "ns ! i = take (note_size nc) d"
    using building_note(3,4) [OF assms(3,2)] assms(5) by (auto simp: note_payload_def)
  have suc: "note_off b0 (Suc i) = note_off b0 i + note_size nc"
    using sum_take_Suc [OF assms(2), of note_size] building_note(4) [OF assms(3,2)] assms(5)
    by (simp add: note_off_def)
  have ends: "note_off b0 i + note_size nc < 2 ^ 56"
    using note_off_le [of "Suc i" b0] assms(2) small suc by simp
  let ?s = "os_SetPosition stream (of_nat (note_off b0 i)) s"
  have "written (notes_image b0 ns i) (b, ?s)"
    using seek_step [OF assms(4), of "note_off b0 i"] before_note_pad [OF assms(1), of i] assms(2) ends
    by (simp add: len)
  from write_step [OF this, of "nc_size (fst nc)" d cfg] p(3) ends obtain r s' where
    w: "WriteToOStream cfg stream (Some d) (nc_size (fst nc)) (b, ?s) = Inr (True, b\<lparr>writtenRanges := r\<rparr>, s')"
    "written (notes_image b0 ns i @ take (note_size nc) d) (b\<lparr>writtenRanges := r\<rparr>, s')"
    by (auto simp: length_notes_image [OF assms(1)] note_size_def [symmetric])
  have "notes_image b0 ns i @ take (note_size nc) d = before_note b0 ns (Suc i)"
    using assms(2) by (simp add: before_note_def notes_image_def take_Suc_conv_app_nth len p(4))
  with w p(1,2) assms(5) note_lookup [OF assms(1,3,2)] show ?thesis
    by (auto simp: write_note_payload_def Let_def)
qed

lemma note_payloads_loop:
  assumes "ready K b0 ns ss" and "building b0 b" and "written (commands_image b0) (b, s)"
  shows "\<exists>st. for_each (write_note_payload cfg u stream) (note_cmds b) (b, s) = Inr (True, st) \<and>
    building b0 (fst st) \<and> written (notes_image b0 ns (length ns)) st"
proof -
  have len: "length (note_cmds b) = length (note_cmds b0)" "length ns = length (note_cmds b0)"
    "0 < length (note_cmds b0)"
    using assms(1) building_note(2) [OF assms(2), of 0] by (auto simp: ready_def dest: list_all2_lengthD)
  have "\<exists>st. for_each (write_note_payload cfg u stream) (note_cmds b) (b, s) = Inr (True, st) \<and>
    (building b0 (fst st) \<and> note_cmds (fst st) = note_cmds b \<and> written (before_note b0 ns (length (note_cmds b))) st)"
  proof (rule for_each_steps
      [where I = "\<lambda>i st. building b0 (fst st) \<and> note_cmds (fst st) = note_cmds b \<and> written (before_note b0 ns i) st"])
    fix i and st :: "builder \<times> 's"
    assume i: "i < length (note_cmds b)"
      and I: "building b0 (fst st) \<and> note_cmds (fst st) = note_cmds b \<and> written (before_note b0 ns i) st"
    then obtain r s' where
      "write_note_payload cfg u stream (note_cmds b ! i) st = Inr (True, (fst st)\<lparr>writtenRanges := r\<rparr>, s')"
      "written (before_note b0 ns (Suc i)) ((fst st)\<lparr>writtenRanges := r\<rparr>, s')"
      using write_note_payload_step [OF assms(1), of i "fst st" "snd st" "note_cmds b ! i" cfg u] len(1) by auto
    with I show "\<exists>st'. write_note_payload cfg u stream (note_cmds b ! i) st = Inr (True, st') \<and>
        building b0 (fst st') \<and> note_cmds (fst st') = note_cmds b \<and> written (before_note b0 ns (Suc i)) st'"
      by fastforce
  qed (use assms in \<open>simp add: before_note_def\<close>)
  then show ?thesis using len by (auto simp: before_note_def)
qed

lemma ranges_twice: "b\<lparr>writtenRanges := r, writtenRanges := r'\<rparr> = b\<lparr>writtenRanges := r'\<rparr>"
  by simp

lemma chunk_loop_writes:
  assumes "provides K p d" and "length d < 2 ^ 62"
    and "off + n * unat cs \<le> length d" and "written c (b, s)" and "length c + n * unat cs < 2 ^ 63"
  shows "\<exists>r s'. chunk_loop K cfg stream p cs n (of_nat off) (b, s) =
      Inr (True, of_nat (off + n * unat cs), b\<lparr>writtenRanges := r\<rparr>, s') \<and>
    written (c @ chunk off (n * unat cs) d) (b\<lparr>writtenRanges := r\<rparr>, s') \<and>
    (if n * unat cs \<noteq> 0 then contents s' = c @ chunk off (n * unat cs) d else contents s' = contents s)"
  using assms(3-5)
proof (induction n arbitrary: off c b s)
  case 0
  then show ?case by (auto simp: chunk_def intro!: exI [of _ "writtenRanges b"])
next
  case (Suc n)
  let ?k = "unat cs"
  have off: "unat (of_nat off :: u64) = off"
    using Suc.prems(1) assms(2) by (simp add: unat_of_nat_small)
  have "unat (of_nat off :: u64) + ?k \<le> length d"
    using Suc.prems(1) by (simp add: off)
  from providesE [OF assms(1) this] obtain e where
    e: "Get K p (of_nat off) cs = Inr (Some e)" "?k \<le> length e" "take ?k e = chunk off ?k d"
    by (auto simp: off)
  have "length c + ?k < 2 ^ 63" using Suc.prems(3) by simp
  from write_step [OF Suc.prems(2) e(2) this, of cfg] obtain r s1 where
    w: "WriteToOStream cfg stream (Some e) cs (b, s) = Inr (True, b\<lparr>writtenRanges := r\<rparr>, s1)"
    "written (c @ chunk off ?k d) (b\<lparr>writtenRanges := r\<rparr>, s1)"
    "cs \<noteq> 0 \<longrightarrow> contents s1 = c @ chunk off ?k d" "cs = 0 \<longrightarrow> contents s1 = contents s"
    by (auto simp: e(3))
  have split: "chunk off ?k d @ chunk (off + ?k) (n * ?k) d = chunk off (Suc n * ?k) d"
    by (simp add: chunk_def take_add add.commute)
  have "off + ?k + n * ?k \<le> length d" using Suc.prems(1) by simp
  moreover have "length (c @ chunk off ?k d) + n * ?k < 2 ^ 63" using Suc.prems(3) by simp
  ultimately obtain r' s' where
    l: "chunk_loop K cfg stream p cs n (of_nat (off + ?k)) (b\<lparr>writtenRanges := r\<rparr>, s1) =
        Inr (True, of_nat (off + ?k + n * ?k), b\<lparr>writtenRanges := r\<rparr>\<lparr>writtenRanges := r'\<rparr>, s')"
    "written ((c @ chunk off ?k d) @ chunk (off + ?k) (n * ?k) d) (b\<lparr>writtenRanges := r\<rparr>\<lparr>writtenRanges := r'\<rparr>, s')"
    "if n * ?k \<noteq> 0 then contents s' = (c @ chunk off ?k d) @ chunk (off + ?k) (n * ?k) d
     else contents s' = contents s1"
    using Suc.IH [OF _ w(2)] by blast
  have "chunk_loop K cfg stream p cs (Suc n) (of_nat off) (b, s) =
      Inr (True, of_nat (off + Suc n * ?k), b\<lparr>writtenRanges := r'\<rparr>, s')"
    using e(1) w(1) l(1) by (simp add: add.assoc)
  moreover have "written (c @ chunk off (Suc n * ?k) d) (b\<lparr>writtenRanges := r'\<rparr>, s')"
    using l(2) by (simp add: split)
  moreover have "if Suc n * ?k \<noteq> 0 then contents s' = c @ chunk off (Suc n * ?k) d else contents s' = contents s"
    using l(3) w(3,4) by (cases "cs = 0"; cases "n = 0") (simp_all add: split unat_eq_0)
  ultimately show ?case by blast
qed


text \<open>A whole segment: full chunks, then what is left over, which may be nothing.\<close>

lemma segment_data_writes:
  assumes "provides K p d" and "length d = unat n" and "n \<noteq> 0" and "length d < 2 ^ 62"
    and "written c (b, s)" and "length c + length d < 2 ^ 63" and "cs = min n MaxChunkSize"
  shows "\<exists>r s' r' s''.
      chunk_loop K cfg stream p cs (unat (n div cs)) 0 (b, s) =
        Inr (True, of_nat (unat (n div cs) * unat cs), b\<lparr>writtenRanges := r\<rparr>, s') \<and>
      rbind (Get K p (of_nat (unat (n div cs) * unat cs)) (n mod cs)) (\<lambda>data.
        WriteToOStream cfg stream data (n mod cs) (b\<lparr>writtenRanges := r\<rparr>, s')) =
        Inr (True, b\<lparr>writtenRanges := r'\<rparr>, s'') \<and>
      written (c @ d) (b\<lparr>writtenRanges := r'\<rparr>, s'') \<and> contents s'' = c @ d"
proof -
  define m where "m = unat (n div cs) * unat cs"
  have "cs \<noteq> 0" "cs \<le> n" using assms(3,7) by (auto simp: MaxChunkSize_def min_def)
  then have cs: "0 < unat cs" "unat cs \<le> unat n" by (simp_all add: unat_gt_0 word_le_nat_alt)
  have div: "unat (n div cs) = unat n div unat cs" and mod: "unat (n mod cs) = unat n mod unat cs"
    by (simp_all add: unat_div unat_mod)
  have sum: "m + unat (n mod cs) = length d"
    unfolding m_def div mod assms(2) by simp
  have "0 < unat n div unat cs" using cs by (simp add: div_greater_zero_iff)
  then have m: "m \<noteq> 0" using cs by (simp add: m_def div)
  obtain r s' where l: "chunk_loop K cfg stream p cs (unat (n div cs)) 0 (b, s) =
        Inr (True, of_nat m, b\<lparr>writtenRanges := r\<rparr>, s')"
      "written (c @ chunk 0 m d) (b\<lparr>writtenRanges := r\<rparr>, s')" "contents s' = c @ chunk 0 m d"
    using chunk_loop_writes [OF assms(1,4) _ assms(5), of 0 "unat (n div cs)" cs cfg] sum assms(6) m
    by (auto simp: m_def [symmetric])
  have off: "unat (of_nat m :: u64) = m"
    using sum assms(4) by (simp add: unat_of_nat_small)
  obtain e where e: "Get K p (of_nat m) (n mod cs) = Inr (Some e)" "unat (n mod cs) \<le> length e"
      "take (unat (n mod cs)) e = chunk m (unat (n mod cs)) d"
    using providesE [OF assms(1), of "of_nat m" "n mod cs"] sum by (auto simp: off)
  have whole: "chunk 0 m d @ chunk m (unat (n mod cs)) d = d"
    using sum by (simp add: chunk_def)
  have "length (c @ chunk 0 m d) + unat (n mod cs) < 2 ^ 63" using sum assms(6) by simp
  from write_step [OF l(2) e(2) this, of cfg] obtain r' s'' where
    w: "WriteToOStream cfg stream (Some e) (n mod cs) (b\<lparr>writtenRanges := r\<rparr>, s') =
        Inr (True, b\<lparr>writtenRanges := r'\<rparr>, s'')"
    "written (c @ d) (b\<lparr>writtenRanges := r'\<rparr>, s'')"
    "n mod cs \<noteq> 0 \<longrightarrow> contents s'' = c @ d" "n mod cs = 0 \<longrightarrow> contents s'' = contents s'"
    unfolding e(3) append_assoc whole ranges_twice by (elim exE conjE) (rule that)
  have "contents s'' = c @ d"
  proof (cases "n mod cs = 0")
    case True
    then have "chunk 0 m d = d" using whole by (simp add: chunk_def)
    with True w(4) l(3) show ?thesis by simp
  qed (use w(3) in simp)
  moreover have "rbind (Get K p (of_nat m) (n mod cs)) (\<lambda>data.
        WriteToOStream cfg stream data (n mod cs) (b\<lparr>writtenRanges := r\<rparr>, s')) =
      Inr (True, b\<lparr>writtenRanges := r'\<rparr>, s'')"
    unfolding e(1) rbind_Inr by (rule w(1))
  ultimately show ?thesis
    unfolding m_def [symmetric] using l(1) w(2) by blast
qed

lemma write_segment_payload_step:
  assumes "ready K b0 ns ss" and "i < length (segment_cmds b0)" and "building b0 b"
    and "written (before_segment b0 ns ss i) (b, s)" and "sc = segment_cmds b ! i"
  shows "\<exists>r s'. write_segment_payload K cfg u stream sc (b, s) = Inr (True, b\<lparr>writtenRanges := r\<rparr>, s') \<and>
    written (before_segment b0 ns ss (Suc i)) (b\<lparr>writtenRanges := r\<rparr>, s') \<and>
    contents s' = segments_image b0 ns ss (Suc i)"
proof -
  have ss: "list_all2 (segment_payload K) (segment_cmds b0) ss" and small: "file_end b0 < 2 ^ 56"
    using assms(1) by (simp_all add: ready_def)
  have len: "length ss = length (segment_cmds b0)" using ss by (simp add: list_all2_lengthD)
  let ?d = "ss ! i"
  have "segment_payload K (segment_cmds b0 ! i) ?d"
    using ss assms(2) by (simp add: list_all2_conv_all_nth)
  then obtain p where p: "snd sc = Some p" "dp_size p = sc_filesize (fst sc)" "dp_size p \<noteq> 0"
      "provides K (dp_ptr p) ?d" "length ?d = segment_size (segment_cmds b0 ! i)"
    using building_segment(3,4) [OF assms(3,2)] assms(5) by (auto simp: segment_payload_def)
  have d: "length ?d = unat (dp_size p)"
    using p(2,5) building_segment(4) [OF assms(3,2)] assms(5) by (simp add: segment_size_def)
  have suc: "segment_off b0 (Suc i) = segment_off b0 i + length ?d"
    using sum_take_Suc [OF assms(2), of segment_size] p(5) by (simp add: segment_off_def)
  have ends: "segment_off b0 i + length ?d < 2 ^ 56"
    using bounds_chain(6) [of 0 b0 "Suc i"] small suc by simp
  let ?s = "os_SetPosition stream (of_nat (segment_off b0 i)) s" and ?c = "segments_image b0 ns ss i"
  have c: "length ?c = segment_off b0 i" by (rule length_segments_image [OF assms(1)])
  have at: "written ?c (b, ?s)"
    using seek_step [OF assms(4), of "segment_off b0 i"] before_segment_pad [OF assms(1), of i] assms(2) ends
    by (simp add: len)
  let ?cs = "min (dp_size p) MaxChunkSize"
  obtain r s' r' s'' where w:
    "chunk_loop K cfg stream (dp_ptr p) ?cs (unat (dp_size p div ?cs)) 0 (b, ?s) =
       Inr (True, of_nat (unat (dp_size p div ?cs) * unat ?cs), b\<lparr>writtenRanges := r\<rparr>, s')"
    "rbind (Get K (dp_ptr p) (of_nat (unat (dp_size p div ?cs) * unat ?cs)) (dp_size p mod ?cs)) (\<lambda>data.
       WriteToOStream cfg stream data (dp_size p mod ?cs) (b\<lparr>writtenRanges := r\<rparr>, s')) =
       Inr (True, b\<lparr>writtenRanges := r'\<rparr>, s'')"
    "written (?c @ ?d) (b\<lparr>writtenRanges := r'\<rparr>, s'')" "contents s'' = ?c @ ?d"
    using segment_data_writes [OF p(4) d p(3) _ at _ refl, of cfg] ends c by auto
  have cs: "?cs \<noteq> 0" using p(3) by (auto simp: MaxChunkSize_def min_def)
  have lookup: "GetOffsetForSegmentCommandPayload cfg (sc_vmaddr (fst sc)) b = Inr (Some (of_nat (segment_off b0 i)))"
    using segment_lookup [OF assms(1,3,2)] assms(5) by simp
  have "write_segment_payload K cfg u stream sc (b, s) = Inr (True, b\<lparr>writtenRanges := r'\<rparr>, s'')"
    unfolding write_segment_payload_def prod.case p(1) option.case lookup p(2) [symmetric] Let_def
    using cs w(1,2) by simp
  moreover have "?c @ ?d = segments_image b0 ns ss (Suc i)"
    using assms(2) by (simp add: segments_image_def take_Suc_conv_app_nth len)
  ultimately show ?thesis using w(3,4) by (auto simp: before_segment_def)
qed

lemma segment_payloads_loop:
  assumes "ready K b0 ns ss" and "building b0 b" and "written (notes_image b0 ns (length ns)) (b, s)"
  shows "\<exists>st. for_each (write_segment_payload K cfg u stream) (segment_cmds b) (b, s) = Inr (True, st) \<and>
    (segment_cmds b0 \<noteq> [] \<longrightarrow> contents (snd st) = file_image b0 ns ss)"
proof -
  have len: "length (segment_cmds b) = length (segment_cmds b0)" "length ss = length (segment_cmds b0)"
    using assms(1,2) building_segment(2) [of b0 b 0] strip_segment(1) [of b "FinalizeLoadCommands b0"]
    by (auto simp: ready_def building_def dest: list_all2_lengthD)
  define I where "I = (\<lambda>i st. building b0 (fst st) \<and> segment_cmds (fst st) = segment_cmds b \<and>
    written (before_segment b0 ns ss i) st \<and>
    (i \<noteq> 0 \<longrightarrow> contents (snd st) = segments_image b0 ns ss i))"
  have "\<exists>st. for_each (write_segment_payload K cfg u stream) (segment_cmds b) (b, s) = Inr (True, st) \<and>
    I (length (segment_cmds b)) st"
  proof (rule for_each_steps)
    fix i and st :: "builder \<times> 's"
    assume i: "i < length (segment_cmds b)" and I: "I i st"
    then obtain r s' where
      "write_segment_payload K cfg u stream (segment_cmds b ! i) st = Inr (True, (fst st)\<lparr>writtenRanges := r\<rparr>, s')"
      "written (before_segment b0 ns ss (Suc i)) ((fst st)\<lparr>writtenRanges := r\<rparr>, s')"
      "contents s' = segments_image b0 ns ss (Suc i)"
      using write_segment_payload_step [OF assms(1), of i "fst st" "snd st" "segment_cmds b ! i" cfg u] len(1)
      by (auto simp: I_def)
    with I show "\<exists>st'. write_segment_payload K cfg u stream (segment_cmds b ! i) st = Inr (True, st') \<and> I (Suc i) st'"
      by (auto simp: I_def)
  qed (use assms in \<open>simp add: I_def before_segment_def\<close>)
  then show ?thesis using len by (auto simp: I_def file_image_segments)
qed


subsection \<open>The whole file\<close>

text \<open>
  The load commands may have been finalized before: \<open>c\<close> is a state of the builder \<open>b\<close> after that.
\<close>

lemma Build_finalized_writes_file:
  assumes "ready K b ns ss" and "building b c" and fresh: "writtenRanges c = []" and "stands_at [] s"
  shows "\<exists>b' s'. Build K cfg u stream (c, s) = Inr (True, b', s') \<and>
    (segment_cmds b \<noteq> [] \<longrightarrow> contents s' = file_image b ns ss)"
proof -
  have structured: "structured b" and small: "commands_size b < 2 ^ 32"
    using assms(1) by (simp_all add: ready_def)
  have eq: "strip c = strip (FinalizeLoadCommands b)" using assms(2) by (simp add: building_def)
  have fields: "length (note_cmds c) = length (note_cmds b)" "thread_cmds c = thread_cmds b"
    "length (segment_cmds c) = length (segment_cmds b)" "header c = header (FinalizeLoadCommands b)"
    using strip_note(1) [OF eq] strip_segment(1) [OF eq] strip_fields(2,3) [OF eq] by simp_all
  have "finalized c" using ready_building(1) [OF assms(1,2)] .
  then have clear: "FinalizeLoadCommands (if debug_checks cfg then c\<lparr>writtenRanges := []\<rparr> else c) = c"
    using fresh by (cases c) (simp add: FinalizeLoadCommands_def)
  let ?n = "length (note_cmds b)" and ?m = "length (segment_cmds b)"
  let ?c0 = "enc_header (header (FinalizeLoadCommands b))"
  let ?c1 = "?c0 @ note_commands_image b ?n"
  let ?c2 = "?c1 @ concat (thread_cmds b)"
  have len: "length ?c1 = 32 + 40 * ?n" "length ?c2 + 72 * ?m \<le> 32 + commands_size b"
    by (simp_all add: length_note_commands_image [OF structured] length_concat commands_size_def)
  have image: "commands_image b = ?c2 @ segment_commands_image b ?m"
    by (simp add: commands_image_def)
  define I where "I = (\<lambda>d st. building b (fst st) \<and> written d st)"
  have start: "written [] (c, s)" using assms(4) fresh by (simp add: written_def)
  have s0: "\<exists>st. WriteToOStream cfg stream (Some ?c0) (of_nat sizeof_mach_header_64) (c, s) = Inr (True, st) \<and> I ?c0 st"
    using write_step [OF start, of 32 ?c0 cfg] assms(2) by (auto simp: sizeofs I_def)
  have s1: "\<exists>st'. for_each (write_note cfg stream) [0..<?n] st = Inr (True, st') \<and> I ?c1 st'" if "I ?c0 st" for st
    using notes_loop [OF assms(1), of "fst st" ?c0 "snd st" cfg] that by (simp add: I_def)
  have s2: "\<exists>st'. for_each (write_thread cfg stream) (thread_cmds b) st = Inr (True, st') \<and> I ?c2 st'" if "I ?c1 st" for st
    using threads_loop [OF assms(1), of "fst st" ?c1 "snd st" cfg] that len(1) by (simp add: I_def)
  have s3: "\<exists>st'. for_each (write_segment cfg stream) [0..<?m] st = Inr (True, st') \<and> I (commands_image b) st'"
    if "I ?c2 st" for st
    using segments_loop [OF assms(1), of "fst st" ?c2 "snd st" cfg] that len(2) unfolding image by (simp add: I_def)
  have s4: "\<exists>st'. (\<lambda>(b, s). for_each (write_note_payload cfg u stream) (note_cmds b) (b, s)) st = Inr (True, st') \<and>
      I (notes_image b ns (length ns)) st'" if "I (commands_image b) st" for st
    using note_payloads_loop [OF assms(1), of "fst st" "snd st" cfg u] that by (cases st) (simp add: I_def)
  have s5: "\<exists>st'. (\<lambda>(b, s). for_each (write_segment_payload K cfg u stream) (segment_cmds b) (b, s)) st = Inr (True, st') \<and>
      (segment_cmds b \<noteq> [] \<longrightarrow> contents (snd st') = file_image b ns ss)"
    if "I (notes_image b ns (length ns)) st" for st
    using segment_payloads_loop [OF assms(1), of "fst st" "snd st" cfg u] that by (cases st) (simp add: I_def)
  have "\<exists>st. Build K cfg u stream (c, s) = Inr (True, st) \<and>
      (segment_cmds b \<noteq> [] \<longrightarrow> contents (snd st) = file_image b ns ss)"
    unfolding Build_def Let_def prod.case clear unfolding fields
    apply (rule and_then_step [where I = "I ?c0"], rule s0)
    apply (rule and_then_step [where I = "I ?c1"], erule s1)
    apply (rule and_then_step [where I = "I ?c2"], erule s2)
    apply (rule and_then_step [where I = "I (commands_image b)"], erule s3)
    apply (rule and_then_step [where I = "I (notes_image b ns (length ns))"], erule s4)
    apply (erule s5)
    done
  then show ?thesis by auto
qed

lemma Build_writes_file:
  assumes "ready K b ns ss" and "stands_at [] s"
  shows "\<exists>b' s'. Build K cfg u stream (b, s) = Inr (True, b', s') \<and>
    (segment_cmds b \<noteq> [] \<longrightarrow> contents s' = file_image b ns ss)"
proof -
  have building: "building b (FinalizeLoadCommands b)" and fresh: "writtenRanges b = []"
    using assms(1) by (simp_all add: building_def ready_def)
  then have "FinalizeLoadCommands (if debug_checks cfg then b\<lparr>writtenRanges := []\<rparr> else b) =
      FinalizeLoadCommands (if debug_checks cfg then (FinalizeLoadCommands b)\<lparr>writtenRanges := []\<rparr>
        else FinalizeLoadCommands b)"
    by (cases b) (simp add: FinalizeLoadCommands_def)
  then have "Build K cfg u stream (b, s) = Build K cfg u stream (FinalizeLoadCommands b, s)"
    by (simp only: Build_def prod.case Let_def)
  then show ?thesis using Build_finalized_writes_file [OF assms(1) building _ assms(2)] fresh by simp
qed

end

end
