(* ===== verification/CoreContents.thy ===== *)
theory CoreContents
  imports BuilderOps CoreBuild
begin

text \<open>
  The core file as its readers see it: walking the load commands finds every command, and the
  offsets and sizes in them lead to the payloads. The properties at the end are stated for
  \<open>Build\<close> on a \<open>FileOStream\<close> over a regular file.
\<close>

subsection \<open>Reading the load commands\<close>

fun read_commands :: "nat \<Rightarrow> bytes \<Rightarrow> nat \<Rightarrow> bytes list \<Rightarrow> bytes list res" where
  "read_commands 0 f p acc = Inr acc"
| "read_commands (Suc n) f p acc =
     rbind (rd32 f (p + 4)) (\<lambda>cmdsize.
     rbind (read_at f p (unat cmdsize)) (\<lambda>c.
       read_commands n f (p + unat cmdsize) (acc @ [c])))"

interpretation reader: command_walk read_commands "\<lambda>c. True" "\<lambda>c acc. acc @ [c]"
proof
  fix c f p n and acc :: "bytes list"
  assume c: "load_command c" and at: "at_offset f p c"
  have "read_at f p (length c) = Inr c"
    using at_offset_read [OF at, of 0 "length c"] by (simp add: chunk_def)
  with c at show "read_commands (Suc n) f p acc = read_commands n f (p + length c) (acc @ [c])"
    by (simp add: at_offset_cmd(2) load_command_def)
qed simp

lemma fold_append_id: "fold (\<lambda>c acc. acc @ [c]) cs acc = acc @ cs"
  by (induction cs arbitrary: acc) simp_all

lemma enc_note_load_command:
  assumes "nc_cmd c = LC_NOTE" and "nc_cmdsize c = 40" and "length (data_owner c) = 16"
  shows "load_command (enc_note c)"
proof -
  have "chunk 0 4 (enc_note c) = le32 (nc_cmd c)" "chunk 4 4 (enc_note c) = le32 (nc_cmdsize c)"
    by (simp_all add: enc_note_def chunk_def)
  with assms show ?thesis
    by (simp add: load_command_def cmd_of_def cmdsize_of_def macho_constants)
qed

lemma enc_segment_load_command:
  assumes "sc_cmd c = LC_SEGMENT_64" and "sc_cmdsize c = 72" and "length (sc_segname c) = 16"
  shows "load_command (enc_segment c)"
proof -
  have "chunk 0 4 (enc_segment c) = le32 (sc_cmd c)" "chunk 4 4 (enc_segment c) = le32 (sc_cmdsize c)"
    by (simp_all add: enc_segment_def chunk_def)
  with assms show ?thesis
    by (simp add: load_command_def cmd_of_def cmdsize_of_def macho_constants)
qed

lemma thread_load_command: "thread_ok tc \<Longrightarrow> load_command tc"
  by (simp add: load_command_def thread_ok_def macho_constants)

definition final_commands :: "builder \<Rightarrow> bytes list" where
  "final_commands b =
     map (\<lambda>i. enc_note (final_note b i)) [0..<length (note_cmds b)] @ thread_cmds b @
     map (\<lambda>i. enc_segment (final_segment b i)) [0..<length (segment_cmds b)]"

lemma final_commands_ok:
  assumes "structured b"
  shows "\<forall>c \<in> set (final_commands b). load_command c"
proof -
  have "load_command (enc_note (final_note b i))" if "i < length (note_cmds b)" for i
  proof -
    have "note_ok (note_cmds b ! i)" using assms that by (simp add: structured_iff)
    then show ?thesis by (intro enc_note_load_command) (simp_all add: final_note_def note_ok_def)
  qed
  moreover have "load_command (enc_segment (final_segment b i))" if "i < length (segment_cmds b)" for i
  proof -
    have "segment_ok (segment_cmds b ! i)" using assms that by (simp add: structured_iff)
    then show ?thesis by (intro enc_segment_load_command) (simp_all add: final_segment_def segment_ok_def)
  qed
  moreover have "load_command c" if "c \<in> set (thread_cmds b)" for c
    using assms that by (simp add: structured_iff thread_load_command)
  ultimately show ?thesis by (auto simp: final_commands_def)
qed

lemma file_image_commands:
  "\<exists>rest. file_image b ns ss = enc_header (header (FinalizeLoadCommands b)) @ concat (final_commands b) @ rest"
  by (simp add: file_image_def notes_image_def commands_image_def final_commands_def
      note_commands_image_def segment_commands_image_def)

lemma Finalize_ncmds:
  assumes "\<not> finalized b" and "structured b" and "commands_size b < 2 ^ 32"
  shows "unat (ncmds (header (FinalizeLoadCommands b))) = length (final_commands b)"
proof -
  have "length xs \<le> sum_list (map length xs)" if "\<forall>tc \<in> set xs. 8 \<le> length tc" for xs :: "bytes list"
    using that by (induction xs) auto
  then have "length (thread_cmds b) \<le> sum_list (map length (thread_cmds b))"
    using assms(2) by (simp add: structured_def)
  then have "length (final_commands b) \<le> commands_size b"
    by (simp add: final_commands_def commands_size_def)
  then have "length (final_commands b) < 2 ^ 32" using assms(3) by simp
  then have "unat (of_nat (length (final_commands b)) :: u32) = length (final_commands b)"
    by (simp add: unsigned_of_nat take_bit_nat_eq_self)
  moreover have "ncmds (header (FinalizeLoadCommands b)) = of_nat (length (final_commands b))"
    using assms(1) by (simp add: FinalizeLoadCommands_def final_commands_def)
  ultimately show ?thesis by simp
qed

lemma read_commands_image:
  assumes "ready K b ns ss" and "h = header (FinalizeLoadCommands b)"
  shows "dec_header (file_image b ns ss) = Inr h"
    and "read_commands (unat (ncmds h)) (file_image b ns ss) 32 [] = Inr (final_commands b)"
proof -
  obtain rest where f: "file_image b ns ss = enc_header h @ concat (final_commands b) @ rest"
    using file_image_commands assms(2) by blast
  show "dec_header (file_image b ns ss) = Inr h" by (simp add: f dec_enc_header)
  have "structured b" "unat (ncmds h) = length (final_commands b)"
    using assms Finalize_ncmds [of b] by (simp_all add: ready_def)
  then show "read_commands (unat (ncmds h)) (file_image b ns ss) 32 [] = Inr (final_commands b)"
    unfolding f using reader.walk_all [of "final_commands b" 32 "enc_header h" rest "[]"]
    by (simp add: final_commands_ok fold_append_id)
qed

subsection \<open>Reading the payloads\<close>

lemma note_payload_image:
  assumes "ready K b ns ss" and "i < length (note_cmds b)"
  shows "chunk (note_off b i) (note_size (note_cmds b ! i)) (file_image b ns ss) = ns ! i"
proof -
  have ns: "list_all2 note_payload (note_cmds b) ns" and structured: "structured b"
    using assms(1) by (simp_all add: ready_def)
  then have len: "length ns = length (note_cmds b)" by (simp add: list_all2_lengthD)
  have size: "length (ns ! i) = note_size (note_cmds b ! i)"
    using list_all2_nthD [OF ns assms(2)] by (auto simp: note_payload_def)
  let ?pre = "commands_image b @ replicate (notes_start b - (32 + commands_size b)) 0"
  have "length ?pre = notes_start b"
    using bounds_chain(1) [of 0 b] by (simp add: length_commands_image [OF structured])
  then have "note_off b i = length ?pre + length (concat (take i ns))"
    using list_all2_note_sizes [OF ns, of i] by (simp add: note_off_def length_concat)
  from chunk_concat [OF _ this] assms(2) len size show ?thesis
    by (simp add: file_image_def notes_image_def)
qed

lemma segment_payload_image:
  assumes "ready K b ns ss" and "i < length (segment_cmds b)"
  shows "chunk (segment_off b i) (segment_size (segment_cmds b ! i)) (file_image b ns ss) = ss ! i"
proof -
  have ss: "list_all2 (segment_payload K) (segment_cmds b) ss"
    using assms(1) by (simp add: ready_def)
  then have len: "length ss = length (segment_cmds b)" by (simp add: list_all2_lengthD)
  have size: "length (ss ! i) = segment_size (segment_cmds b ! i)"
    using list_all2_nthD [OF ss assms(2)] by (auto simp: segment_payload_def)
  let ?pre = "notes_image b ns (length ns) @ replicate (segments_start b - notes_end b) 0"
  have "length ?pre = segments_start b"
    using length_segments_image [OF assms(1), of 0] by (simp add: segments_image_def segment_off_def)
  then have "segment_off b i = length ?pre + length (concat (take i ss))"
    using list_all2_segment_sizes [OF ss, of i] by (simp add: segment_off_def length_concat)
  from chunk_concat [OF _ this, of "[]"] assms(2) len size show ?thesis
    by (simp add: file_image_def)
qed

lemma final_note_fields:
  assumes "ready K b ns ss" and "i < length (note_cmds b)"
  shows "unat (nc_offset (final_note b i)) = note_off b i"
    and "unat (nc_size (final_note b i)) = note_size (note_cmds b ! i)"
proof -
  have "note_off b i < 2 ^ 64"
    using note_off_le [of i b] assms by (simp add: ready_def)
  then show "unat (nc_offset (final_note b i)) = note_off b i"
    by (simp add: final_note_def unat_of_nat_small)
  show "unat (nc_size (final_note b i)) = note_size (note_cmds b ! i)"
    by (simp add: final_note_def note_size_def)
qed

lemma final_segment_fields:
  assumes "ready K b ns ss"
  shows "unat (sc_fileoff (final_segment b i)) = segment_off b i"
    and "unat (sc_filesize (final_segment b i)) = segment_size (segment_cmds b ! i)"
    and "sc_vmaddr (final_segment b i) = sc_vmaddr (fst (segment_cmds b ! i))"
proof -
  have "segment_off b i < 2 ^ 64"
    using bounds_chain(6) [of 0 b i] assms by (simp add: ready_def)
  then show "unat (sc_fileoff (final_segment b i)) = segment_off b i"
    by (simp add: final_segment_def unat_of_nat_small)
  show "unat (sc_filesize (final_segment b i)) = segment_size (segment_cmds b ! i)"
    "sc_vmaddr (final_segment b i) = sc_vmaddr (fst (segment_cmds b ! i))"
    by (simp_all add: final_segment_def segment_size_def)
qed

subsection \<open>The small builder is ready\<close>

lemma demo_fields:
  "note_cmds demo_builder = [(\<lparr>nc_cmd = 49, nc_cmdsize = 40,
     data_owner = [97, 0, 0, 0, 0, 0, 0, 0, 0, 0, 0, 0, 0, 0, 0, 0], nc_offset = 0, nc_size = 3\<rparr>,
     Some \<lparr>dp_size = 3, dp_ptr = PlainDataPtr [1, 2, 3]\<rparr>)]"
  "segment_cmds demo_builder = [(\<lparr>sc_cmd = 25, sc_cmdsize = 72, sc_segname = replicate 16 0,
     sc_vmaddr = 4096, sc_vmsize = 4, sc_fileoff = 0, sc_filesize = 4, sc_maxprot = 3,
     sc_initprot = 3, sc_nsects = 0, sc_flags = 0\<rparr>,
     Some \<lparr>dp_size = 4, dp_ptr = PlainDataPtr [9, 8, 7, 6]\<rparr>)]"
  "\<not> finalized demo_builder" "writtenRanges demo_builder = []"
  by (simp_all add: demo_builder_def new_MachOCoreDumpBuilder_def)

lemma demo_builder_ready: "ready demo_memory_kernel demo_builder [[1, 2, 3]] [[9, 8, 7, 6]]"
proof -
  have "structured demo_builder" "unique_names demo_builder" by code_simp+
  moreover have size: "commands_size demo_builder = 128"
    by (simp add: commands_size_def demo_builder_def new_MachOCoreDumpBuilder_def)
  moreover have "file_end demo_builder = 4100"
    by (simp add: file_end_def segment_off_def segments_start_def notes_end_def note_off_def
        notes_start_def size demo_fields round_up_def note_size_def segment_size_def)
  ultimately show ?thesis
    by (simp add: ready_def demo_fields note_payload_def segment_payload_def note_size_def
        segment_size_def provides_PlainDataPtr)
qed

definition empty_file :: "disk_file FileOStream" where
  "empty_file = \<lparr>m_fd = 3, os_state = \<lparr>f_contents = [], f_position = 0, f_open = True\<rparr>\<rparr>"

lemma empty_file_stands: "filestream.stands_at 3 [] empty_file"
  by (simp add: filestream.stands_at_def file_usable_def empty_file_def)

subsection \<open>Properties\<close>

text \<open>C10. \<open>Build\<close> writes the whole core file: for a builder that is ready it returns true, in debug
  and in release builds (so neither an assertion nor the overlap check fires), and an empty file
  then holds the header, the load commands with their offsets, and the payloads at them.\<close>

theorem Build_writes_core_file:
  assumes "ready K b ns ss" and "segment_cmds b \<noteq> []"
    and "file_usable fd s" and "f_contents (os_state s) = []" and "f_position (os_state s) = 0"
  shows "\<exists>b' s'. Build K cfg u (FileOStream_vtable (regular_file fd)) (b, s) = Inr (True, b', s') \<and>
    f_contents (os_state s') = file_image b ns ss"
  using filestream.Build_writes_file [OF assms(1), of fd s cfg u] assms(2-5)
  by (auto simp: filestream.stands_at_def)

lemma Build_writes_core_file_witness:
  "\<exists>b' s'. Build demo_memory_kernel debug_config 0 (FileOStream_vtable (regular_file 3)) (demo_builder, empty_file) =
     Inr (True, b', s') \<and> f_contents (os_state s') = file_image demo_builder [[1, 2, 3]] [[9, 8, 7, 6]]"
  by (rule Build_writes_core_file [OF demo_builder_ready])
    (simp_all add: demo_fields file_usable_def empty_file_def)

text \<open>C11. The file reads back: the header decodes, its counts lead the walk over the load commands to
  every command of the builder in order, and the offset and size in each note and segment command
  delimit exactly that payload.\<close>

theorem core_file_reads_back:
  assumes "ready K b ns ss" and "segment_cmds b \<noteq> []"
    and "file_usable fd s" and "f_contents (os_state s) = []" and "f_position (os_state s) = 0"
    and "Build K cfg u (FileOStream_vtable (regular_file fd)) (b, s) = Inr (True, b', s')"
  shows "\<exists>h. dec_header (f_contents (os_state s')) = Inr h \<and> filetype h = filetype (header b) \<and>
    read_commands (unat (ncmds h)) (f_contents (os_state s')) 32 [] = Inr
      (map (\<lambda>i. enc_note (final_note b i)) [0..<length (note_cmds b)] @ thread_cmds b @
       map (\<lambda>i. enc_segment (final_segment b i)) [0..<length (segment_cmds b)]) \<and>
    (\<forall>i < length (note_cmds b). chunk (unat (nc_offset (final_note b i))) (unat (nc_size (final_note b i)))
       (f_contents (os_state s')) = ns ! i) \<and>
    (\<forall>i < length (segment_cmds b). chunk (unat (sc_fileoff (final_segment b i)))
       (unat (sc_filesize (final_segment b i))) (f_contents (os_state s')) = ss ! i)"
proof -
  have f: "f_contents (os_state s') = file_image b ns ss"
    using filestream.Build_writes_file [OF assms(1), of fd s cfg u] assms(2-6)
    by (auto simp: filestream.stands_at_def)
  let ?h = "header (FinalizeLoadCommands b)"
  have "filetype ?h = filetype (header b)" by (simp add: FinalizeLoadCommands_def)
  then show ?thesis
    unfolding f using read_commands_image [OF assms(1) refl] note_payload_image [OF assms(1)]
      segment_payload_image [OF assms(1)] final_note_fields [OF assms(1)] final_segment_fields [OF assms(1)]
    by (intro exI [of _ ?h]) (simp add: final_commands_def)
qed

lemma core_file_reads_back_witness:
  "\<exists>b' s' h. Build demo_memory_kernel debug_config 0 (FileOStream_vtable (regular_file 3)) (demo_builder, empty_file) =
     Inr (True, b', s') \<and> dec_header (f_contents (os_state s')) = Inr h \<and> filetype h = MH_CORE \<and>
     chunk (unat (nc_offset (final_note demo_builder 0))) 3 (f_contents (os_state s')) = [1, 2, 3] \<and>
     chunk (unat (sc_fileoff (final_segment demo_builder 0))) 4 (f_contents (os_state s')) = [9, 8, 7, 6]"
proof -
  obtain b' s' where B: "Build demo_memory_kernel debug_config 0 (FileOStream_vtable (regular_file 3))
      (demo_builder, empty_file) = Inr (True, b', s')"
    using filestream.Build_writes_file [OF demo_builder_ready empty_file_stands] by blast
  have "segment_cmds demo_builder \<noteq> []" "file_usable 3 empty_file" "f_contents (os_state empty_file) = []"
    "f_position (os_state empty_file) = 0"
    by (simp_all add: demo_fields file_usable_def empty_file_def)
  from core_file_reads_back [OF demo_builder_ready this B] obtain h where
    "dec_header (f_contents (os_state s')) = Inr h" "filetype h = filetype (header demo_builder)"
    "chunk (unat (nc_offset (final_note demo_builder 0))) (unat (nc_size (final_note demo_builder 0)))
       (f_contents (os_state s')) = [1, 2, 3]"
    "chunk (unat (sc_fileoff (final_segment demo_builder 0))) (unat (sc_filesize (final_segment demo_builder 0)))
       (f_contents (os_state s')) = [9, 8, 7, 6]"
    by (auto simp: demo_fields)
  moreover have "filetype (header demo_builder) = MH_CORE" "unat (nc_size (final_note demo_builder 0)) = 3"
    "unat (sc_filesize (final_segment demo_builder 0)) = 4"
    by (simp_all add: demo_builder_def new_MachOCoreDumpBuilder_def final_note_def final_segment_def)
  ultimately show ?thesis using B by auto
qed

text \<open>C12. The offsets that \<open>GetOffsetForNoteCommandPayload\<close> and \<open>GetOffsetForSegmentCommandPayload\<close>
  compute: the first note payload at a 16-byte boundary behind the load commands, the first
  segment at a page boundary behind the notes, and every payload behind the end of the one before.\<close>

theorem payloads_aligned_and_disjoint:
  assumes "ready K b ns ss"
  shows "(\<forall>i < length (note_cmds b).
      GetOffsetForNoteCommandPayload cfg (owner_memory (fst (note_cmds b ! i))) (FinalizeLoadCommands b) =
        Inr (Some (of_nat (note_off b i)))) \<and>
    (\<forall>i < length (segment_cmds b).
      GetOffsetForSegmentCommandPayload cfg (sc_vmaddr (fst (segment_cmds b ! i))) (FinalizeLoadCommands b) =
        Inr (Some (of_nat (segment_off b i)))) \<and>
    16 dvd note_off b 0 \<and> 4096 dvd segment_off b 0 \<and> 32 + commands_size b \<le> note_off b 0 \<and>
    (\<forall>j < length (note_cmds b). \<forall>i < j. note_off b i + note_size (note_cmds b ! i) \<le> note_off b j) \<and>
    (\<forall>i < length (note_cmds b). note_off b i + note_size (note_cmds b ! i) \<le> segment_off b 0) \<and>
    (\<forall>j < length (segment_cmds b). \<forall>i < j.
      segment_off b i + segment_size (segment_cmds b ! i) \<le> segment_off b j)"
proof -
  have "building b (FinalizeLoadCommands b)"
    using assms by (simp add: building_def ready_def)
  note lookups = note_lookup [OF assms this] segment_lookup [OF assms this]
  have mono: "sum_list (map f (take i xs)) + f (xs ! i) \<le> sum_list (map f (take j xs))"
    if "i < j" "j \<le> length xs" for f :: "'x \<Rightarrow> nat" and i j xs
  proof -
    have "take j xs = take (Suc i) xs @ drop (Suc i) (take j xs)"
      using that by (metis Suc_leI append_take_drop_id min.absorb1 take_take)
    then have "sum_list (map f (take j xs)) = sum_list (map f (take (Suc i) xs)) + sum_list (map f (drop (Suc i) (take j xs)))"
      by (metis map_append sum_list_append)
    then show ?thesis using sum_take_Suc [of i xs f] that by simp
  qed
  have nts: "note_off b i + note_size (note_cmds b ! i) \<le> note_off b j"
    if "i < j" "j \<le> length (note_cmds b)" for i j
    using mono [OF that, of note_size] by (simp add: note_off_def)
  have "note_off b i + note_size (note_cmds b ! i) \<le> segment_off b 0" if "i < length (note_cmds b)" for i
    using nts [OF that le_refl] bounds_chain(4) [of 0 b] by (simp add: notes_end_def segment_off_def)
  moreover have "segment_off b i + segment_size (segment_cmds b ! i) \<le> segment_off b j"
    if "i < j" "j \<le> length (segment_cmds b)" for i j
    using mono [OF that, of segment_size] by (simp add: segment_off_def)
  moreover have "16 dvd note_off b 0" "4096 dvd segment_off b 0" "32 + commands_size b \<le> note_off b 0"
    using bounds_chain(1,2) [of 0 b]
    by (simp_all add: note_off_def notes_start_def segment_off_def segments_start_def round_up_dvd)
  ultimately show ?thesis using lookups nts by (simp add: less_imp_le)
qed

lemma payloads_aligned_and_disjoint_witness:
  "GetOffsetForSegmentCommandPayload debug_config 4096 (FinalizeLoadCommands demo_builder) =
     Inr (Some (of_nat (segment_off demo_builder 0))) \<and> 4096 dvd segment_off demo_builder 0"
  using payloads_aligned_and_disjoint [OF demo_builder_ready, of debug_config]
  by (simp add: demo_fields)

text \<open>What is left over when the loop gave up at the first chunk: nothing is written.\<close>

lemma nothing_written:
  assumes "x = None \<or> n = 0" and "file_usable fd s" and "unat (f_position (os_state s)) < 2 ^ 63"
  shows "\<exists>s'. os_Write (FileOStream_vtable (regular_file fd)) x n s = Inr (n = 0, s') \<and>
    f_contents (os_state s') = f_contents (os_state s)"
proof (cases x)
  case None
  then show ?thesis using assms(2,3)
    by (intro exI [of _ s])
      (auto simp: FileOStream_vtable_def Write_def readable_def regular_file_def file_usable_def)
next
  case (Some e)
  then have "n = 0" using assms(1) by simp
  obtain s' where "os_Write (FileOStream_vtable (regular_file fd)) (Some e) 0 s = Inr (True, s')"
      "f_contents (os_state s') =
        overwrite (unat (f_position (os_state s))) (take (unat (0 :: u64)) e) (f_contents (os_state s))"
    using filestream.write_available [OF assms(2), of 0 e] assms(3) by auto
  then show ?thesis using Some \<open>n = 0\<close> by (intro exI [of _ s']) (simp add: overwrite_def)
qed

lemma chunk_loop_gives_up:
  "Get K p offs chunkSize = Inr None \<Longrightarrow> chunk_loop K cfg S p chunkSize n offs st = Inr (True, offs, st)"
  by (cases n) simp_all

lemma left_over_iff:
  fixes n :: u64
  assumes "n \<noteq> 0"
  shows "n mod min n MaxChunkSize = 0 \<longleftrightarrow> n \<le> MaxChunkSize \<or> n mod MaxChunkSize = 0"
  by (cases "n \<le> MaxChunkSize") (simp_all add: min_def mod_self)

lemma Get_unreadable:
  assumes "\<forall>n. n \<noteq> 0 \<longrightarrow> vm_read_overwrite K a n = None" and "\<forall>n \<le> MaxChunkSize. malloc_ok K n"
    and "n \<le> MaxChunkSize"
  shows "\<exists>x. Get K (ProcessMemoryReaderDataPtr a m) 0 n = Inr x \<and> (x = None \<or> n = 0)"
  using assms
  by (cases "n = 0") (auto simp: ReadProcessMemory_def ReadProcessMemoryInto_def MakeUniqueArray_def)

text \<open>C32. What a release build does with a segment whose memory cannot be read any more: nothing is
  written, and the answer depends on the size. Up to 4 MiB, and for multiples of 4 MiB, the
  step reports success, so that the core file has a hole where the segment command promises
  data; for any other size the remainder is written from a null pointer, which the file
  refuses, and the step fails.\<close>

theorem unreadable_segment_hole_or_failure:
  assumes "snd sc = Some \<lparr>dp_size = n, dp_ptr = ProcessMemoryReaderDataPtr a n\<rparr>"
    and "sc_filesize (fst sc) = n" and "n \<noteq> 0"
    and "\<forall>k. k \<noteq> 0 \<longrightarrow> vm_read_overwrite K a k = None" and "\<forall>k \<le> MaxChunkSize. malloc_ok K k"
    and "GetOffsetForSegmentCommandPayload cfg (sc_vmaddr (fst sc)) b = Inr (Some off)"
    and "unat off < 2 ^ 63" and "ndebug cfg" and "\<not> debug_checks cfg" and "file_usable fd s"
  shows "\<exists>s'. write_segment_payload K cfg u (FileOStream_vtable (regular_file fd)) sc (b, s) =
      Inr (n \<le> MaxChunkSize \<or> n mod MaxChunkSize = 0, b, s') \<and>
    f_contents (os_state s') = f_contents (os_state s)"
proof -
  let ?S = "FileOStream_vtable (regular_file fd)" and ?p = "ProcessMemoryReaderDataPtr a n"
  let ?s = "os_SetPosition ?S off s" and ?c = "min n MaxChunkSize"
  have pos: "file_usable fd ?s" "f_contents (os_state ?s) = f_contents (os_state s)"
    "f_position (os_state ?s) = off"
    using filestream.set_position [OF assms(10,7)] by blast+
  have c: "?c \<noteq> 0" "?c \<le> MaxChunkSize" using assms(3) by (simp_all add: min_def MaxChunkSize_def)
  have "0 < ?c" by (subst word_gt_0) (rule c(1) [symmetric])
  then have "n mod ?c < ?c" by (rule word_mod_less_divisor)
  then have "n mod ?c \<le> MaxChunkSize" using c(2) by (rule order.trans [OF less_imp_le])
  from Get_unreadable [OF assms(4,5) this] obtain x where
    x: "Get K ?p 0 (n mod ?c) = Inr x" "x = None \<or> n mod ?c = 0" by blast
  have loop: "chunk_loop K cfg ?S ?p ?c k 0 st = Inr (True, 0, st)" for k st
    using Get_unreadable [OF assms(4,5) c(2)] c(1) by (blast intro: chunk_loop_gives_up)
  obtain s' where s': "os_Write ?S x (n mod ?c) ?s = Inr (n mod ?c = 0, s')"
      "f_contents (os_state s') = f_contents (os_state s)"
    using nothing_written [OF x(2) pos(1)] pos(2,3) assms(7) by auto
  have "write_segment_payload K cfg u ?S sc (b, s) = Inr (n mod ?c = 0, b, s')"
    unfolding write_segment_payload_def prod.case assms(1) option.case
    using assms(2,8,9) c(1) x(1) s'(1) loop
    by (simp add: assms(6) WriteToOStream_def cpp_assert_def require_def Let_def)
  with s'(2) show ?thesis unfolding left_over_iff [OF assms(3)] by blast
qed

lemma unreadable_segment_hole_or_failure_witness:
  "\<exists>s'. write_segment_payload demo_memory_kernel (debug_config\<lparr>ndebug := True, debug_checks := False\<rparr>) 0
      (FileOStream_vtable (regular_file 3))
      ((fst (segment_cmds demo_builder ! 0))\<lparr>sc_filesize := 0x400001\<rparr>,
       Some \<lparr>dp_size = 0x400001, dp_ptr = ProcessMemoryReaderDataPtr 0x9000 0x400001\<rparr>)
      (FinalizeLoadCommands demo_builder, empty_file) = Inr (False, FinalizeLoadCommands demo_builder, s') \<and>
    f_contents (os_state s') = []"
proof -
  let ?sc = "((fst (segment_cmds demo_builder ! 0))\<lparr>sc_filesize := 0x400001\<rparr>,
       Some \<lparr>dp_size = 0x400001, dp_ptr = ProcessMemoryReaderDataPtr 0x9000 0x400001\<rparr>)"
  have off: "GetOffsetForSegmentCommandPayload (debug_config\<lparr>ndebug := True, debug_checks := False\<rparr>)
      (sc_vmaddr (fst ?sc)) (FinalizeLoadCommands demo_builder) = Inr (Some 4096)" by code_simp
  have no_read: "\<forall>k. k \<noteq> 0 \<longrightarrow> vm_read_overwrite demo_memory_kernel 0x9000 k = None"
    and malloc: "\<forall>k \<le> MaxChunkSize. malloc_ok demo_memory_kernel k"
    by (simp_all add: demo_memory_kernel_def flat_kernel_def)
  show ?thesis
    using unreadable_segment_hole_or_failure [of ?sc "0x400001" "0x9000", OF _ _ _ no_read malloc off,
        where s = empty_file and fd = 3 and u = 0]
    by (simp add: MaxChunkSize_def debug_config_def file_usable_def empty_file_def)
qed

end
