(* ===== verification/DumpTrace.thy ===== *)
theory DumpTrace
  imports MiniDump CoreContents
begin

text \<open>
  What a dump does to threads and ports. Every suspension has its resumption, and every send
  right that the kernel hands out is returned, on every path by which the request ends, the
  exceptional ones included; the one allocation that is an exception to each is named.
\<close>

subsection \<open>Counting\<close>

definition rights :: "port \<Rightarrow> SendRightRef list \<Rightarrow> nat" where
  "rights p refs = length (filter (\<lambda>r. m_port r = p) refs)"

definition obtained :: "port \<Rightarrow> event list \<Rightarrow> nat" where
  "obtained p evs = count_list evs (SendRight p)"

lemma rights_simps [simp]:
  "rights p [] = 0" "rights p (r # rs) = (if m_port r = p then 1 else 0) + rights p rs"
  "rights p (rs @ rs') = rights p rs + rights p rs'" "rights p (rev rs) = rights p rs"
  by (simp_all add: rights_def rev_filter [symmetric])

lemma count_list_map_SendRight:
  "count_list (map SendRight ps) (SendRight p) = count_list ps p"
  by (induction ps) simp_all

lemma obtained_simps [simp]:
  "obtained p [] = 0" "obtained p (a @ b) = obtained p a + obtained p b"
  "obtained p (SendRight q # evs) = (if q = p then 1 else 0) + obtained p evs"
  "obtained p (Deallocate t q # evs) = obtained p evs" "obtained p (VmDeallocate # evs) = obtained p evs"
  "obtained p (ThreadSuspend q # evs) = obtained p evs" "obtained p (ThreadResume q # evs) = obtained p evs"
  "obtained p (TaskSuspend # evs) = obtained p evs" "obtained p (TaskResume # evs) = obtained p evs"
  "obtained p (map SendRight ps) = count_list ps p"
  by (simp_all add: obtained_def count_list_map_SendRight)

lemma deallocated_simps [simp]:
  "deallocated p (SendRight q # evs) = deallocated p evs"
  "deallocated p (Deallocate t q # evs) = (if q = p then 1 else 0) + deallocated p evs"
  "deallocated p (VmDeallocate # evs) = deallocated p evs"
  "deallocated p (ThreadSuspend q # evs) = deallocated p evs"
  "deallocated p (ThreadResume q # evs) = deallocated p evs"
  "deallocated p (TaskSuspend # evs) = deallocated p evs" "deallocated p (TaskResume # evs) = deallocated p evs"
  by (simp_all add: deallocated_def)

lemma Wrap_port [simp]: "m_port (Wrap p self) = p" "PortRef.Get (Wrap p self) = p"
  by (simp_all add: Wrap_def PortRef.Get_def)

lemma deallocated_maps [simp]:
  "deallocated p (map SendRight ps) = 0" "deallocated p (map ThreadSuspend ps) = 0"
  "deallocated p (ResumeThreads refs) = 0" "obtained p (ResumeThreads refs) = 0"
  "obtained p (map ThreadSuspend ps) = 0"
proof -
  show "deallocated p (map SendRight ps) = 0" "deallocated p (map ThreadSuspend ps) = 0"
      "obtained p (map ThreadSuspend ps) = 0"
    by (induction ps) simp_all
  show "deallocated p (ResumeThreads refs) = 0" "obtained p (ResumeThreads refs) = 0"
    by (induction refs) (simp_all add: ResumeThreads_def)
qed

lemma deallocated_delete:
  assumes "p \<noteq> 0"
  shows "deallocated p (delete_SendRightRef self r) = (if m_port r = p then 1 else 0)"
    and "obtained p (delete_SendRightRef self r) = 0"
  using assms deallocated_Reset [of p] by (simp_all add: delete_SendRightRef_def Reset_def MACH_PORT_NULL_def)

lemma deallocated_delete_refs:
  assumes "p \<noteq> 0"
  shows "deallocated p (delete_refs self refs) = rights p refs" and "obtained p (delete_refs self refs) = 0"
proof -
  have "deallocated p (concat (map (delete_SendRightRef self) rs)) = rights p rs \<and>
      obtained p (concat (map (delete_SendRightRef self) rs)) = 0" for rs
    by (induction rs) (simp_all add: deallocated_delete [OF assms])
  then show "deallocated p (delete_refs self refs) = rights p refs" and "obtained p (delete_refs self refs) = 0"
    by (simp_all add: delete_refs_def)
qed

lemma rights_Wrap [simp]: "rights p (map (\<lambda>q. Wrap q self) ps) = count_list ps p"
  by (induction ps) (simp_all add: Wrap_def)

text \<open>Suspensions and resumptions, of the task and of threads.\<close>

definition pauses :: "port \<Rightarrow> event list \<Rightarrow> nat" where
  "pauses p evs = count_list evs (ThreadSuspend p)"

definition resumes :: "port \<Rightarrow> event list \<Rightarrow> nat" where
  "resumes p evs = count_list evs (ThreadResume p)"

text \<open>Calls that neither suspend nor resume.\<close>

definition quiet :: "event list \<Rightarrow> bool" where
  "quiet evs \<longleftrightarrow> list_all (\<lambda>e. case e of
     SendRight q \<Rightarrow> True | Deallocate t q \<Rightarrow> True | VmDeallocate \<Rightarrow> True | _ \<Rightarrow> False) evs"

lemma quiet_simps [simp]:
  "quiet []" "quiet (a @ b) \<longleftrightarrow> quiet a \<and> quiet b" "quiet (SendRight q # evs) \<longleftrightarrow> quiet evs"
  "quiet (Deallocate t q # evs) \<longleftrightarrow> quiet evs" "quiet (VmDeallocate # evs) \<longleftrightarrow> quiet evs"
  "quiet (map SendRight ps)"
  by (auto simp: quiet_def list_all_iff)

lemma quiet_delete [simp]: "quiet (delete_SendRightRef self r)" "quiet (delete_refs self refs)"
proof -
  show q: "quiet (delete_SendRightRef self r)" for r by (simp add: delete_SendRightRef_def Reset_def)
  have "quiet (concat (map (delete_SendRightRef self) rs))" for rs by (induction rs) (simp_all add: q)
  then show "quiet (delete_refs self refs)" by (simp add: delete_refs_def)
qed

lemma quiet_counts:
  assumes "quiet evs"
  shows "pauses p evs = 0" and "resumes p evs = 0" and "count_list evs TaskSuspend = 0"
    and "count_list evs TaskResume = 0"
  using assms by (induction evs) (auto simp: quiet_def pauses_def resumes_def split: event.splits)

lemma pause_simps [simp]:
  "pauses p [] = 0" "pauses p (a @ b) = pauses p a + pauses p b"
  "pauses p [ThreadSuspend q] = (if q = p then 1 else 0)"
  "resumes p [] = 0" "resumes p (a @ b) = resumes p a + resumes p b" "resumes p [ThreadSuspend q] = 0"
  by (simp_all add: pauses_def resumes_def)

lemma ResumeThreads_counts [simp]:
  "resumes p (ResumeThreads refs) = rights p refs" "pauses p (ResumeThreads refs) = 0"
  "count_list (ResumeThreads refs) TaskSuspend = 0" "count_list (ResumeThreads refs) TaskResume = 0"
  by (induction refs) (simp_all add: ResumeThreads_def resumes_def pauses_def PortRef.Get_def)

lemmas right_counts = deallocated_delete deallocated_delete_refs

subsection \<open>The suspension loop\<close>

definition loop_effect ::
  "SendRightRef list \<Rightarrow> SendRightRef list \<Rightarrow> event list \<Rightarrow>
     unit res \<times> SendRightRef list \<times> SendRightRef list \<times> event list \<Rightarrow> bool"
where
  "loop_effect refs susp tr = (\<lambda>(r, refs', susp', tr').
     (r = Inr () \<longrightarrow> (\<forall>p. pauses p tr' + rights p susp = pauses p tr + rights p susp')) \<and>
     (\<forall>p. resumes p tr' = resumes p tr \<and> obtained p tr' = obtained p tr \<and> deallocated p tr' = deallocated p tr) \<and>
     count_list tr' TaskSuspend = count_list tr TaskSuspend \<and> count_list tr' TaskResume = count_list tr TaskResume \<and>
     (\<forall>p. p \<noteq> 0 \<longrightarrow> rights p refs' + rights p susp' = rights p refs + rights p susp) \<and>
     (r = Inr () \<or> r = Inl BadAlloc))"

lemma loop_effect_skip:
  "loop_effect refs susp tr (r, refs', susp', tr') \<Longrightarrow> loop_effect (t # refs) susp tr (r, t # refs', susp', tr')"
  by (auto simp: loop_effect_def)

lemma loop_effect_suspend:
  assumes "loop_effect refs (susp @ [fst (move_construct t)]) (tr @ [ThreadSuspend (PortRef.Get t)]) (r, refs', susp', tr')"
  shows "loop_effect (t # refs) susp tr (r, snd (move_construct t) # refs', susp', tr')"
  using assms
  by (auto simp: loop_effect_def move_construct_def MACH_PORT_NULL_def PortRef.Get_def)

lemma suspend_loop_effect: "loop_effect refs susp tr (suspend_loop K this refs susp tr)"
proof (induction refs arbitrary: susp tr)
  case Nil
  then show ?case by (simp add: loop_effect_def)
next
  case (Cons t refs)
  have skip: "loop_effect (t # refs) susp tr
      (let (r, refs, susp, tr) = suspend_loop K this refs susp tr in (r, t # refs, susp, tr))"
  proof -
    obtain r refs' susp' tr' where rec: "suspend_loop K this refs susp tr = (r, refs', susp', tr')"
      by (metis prod_cases4)
    from Cons.IH [of susp tr] show ?thesis unfolding rec by (simp add: loop_effect_skip)
  qed
  show ?case
  proof (cases "PortRef.Get t = this \<or> \<not> thread_suspend_ok K tr (PortRef.Get t)")
    case True
    then show ?thesis using skip by auto
  next
    case False
    let ?tr = "tr @ [ThreadSuspend (PortRef.Get t)]"
    obtain n m where mv: "move_construct t = (n, m)" by (cases "move_construct t")
    show ?thesis
    proof (cases "push_back K 8 susp n")
      case (Inl e)
      then have "suspend_loop K this (t # refs) susp tr = (Inl BadAlloc, t # refs, susp, ?tr)"
        using False mv by (auto simp: push_back_def rbind_eq_Inl require_def Let_def split: if_splits)
      then show ?thesis by (simp add: loop_effect_def)
    next
      case (Inr susp1)
      then have s1: "susp1 = susp @ [n]" by (auto simp: push_back_def rbind_eq_Inr)
      obtain r refs' susp' tr' where rec: "suspend_loop K this refs (susp @ [n]) ?tr = (r, refs', susp', tr')"
        by (metis prod_cases4)
      have "suspend_loop K this (t # refs) susp tr = (r, m # refs', susp', tr')"
        using False mv Inr rec by (simp add: s1 Let_def)
      then show ?thesis
        using loop_effect_suspend [of refs susp t tr r refs' susp' tr'] Cons.IH [of "susp @ [n]" ?tr] rec mv by simp
    qed
  qed
qed

subsection \<open>The steps of a dump\<close>

text \<open>
  A step that neither suspends nor resumes, and that returns every right it was handed.
\<close>

definition neutral :: "event list \<Rightarrow> event list \<Rightarrow> bool" where
  "neutral tr tr' \<longleftrightarrow>
     (\<exists>evs. tr' = tr @ evs \<and> quiet evs \<and> (\<forall>p. p \<noteq> 0 \<longrightarrow> deallocated p evs = obtained p evs))"

lemma neutral_refl [simp]: "neutral tr tr"
  by (simp add: neutral_def)

lemma neutral_counts:
  assumes "neutral tr tr'"
  shows "pauses p tr' = pauses p tr" and "resumes p tr' = resumes p tr"
    and "count_list tr' TaskSuspend = count_list tr TaskSuspend"
    and "count_list tr' TaskResume = count_list tr TaskResume"
    and "p \<noteq> 0 \<Longrightarrow> deallocated p tr' + obtained p tr = deallocated p tr + obtained p tr'"
  using assms by (auto simp: neutral_def quiet_counts)

text \<open>The allocations of the references to the threads.\<close>

definition refs_reserved :: "'z dump_kernel_scheme \<Rightarrow> bool" where
  "refs_reserved K \<longleftrightarrow>
     (\<forall>tr threads. task_threads K tr = Some threads \<longrightarrow> malloc_ok K (of_nat (8 * length threads)))"

lemma reserve_threads:
  assumes "task_threads K tr = Some threads"
  shows "reserve K 8 (length threads) = Inr () \<or> (reserve K 8 (length threads) = Inl BadAlloc \<and> \<not> refs_reserved K)"
proof (cases "length threads = 0 \<or> malloc_ok K (of_nat (8 * length threads))")
  case True
  then show ?thesis by (simp add: reserve_def require_def del: of_nat_mult length_0_conv)
next
  case False
  then show ?thesis using assms
    by (auto simp: reserve_def require_def refs_reserved_def simp del: of_nat_mult)
qed

lemma AddThreadsToCore_quiet:
  assumes "AddThreadsToCore E K crash b modules ids tr = (r, tr')"
  shows "\<exists>evs. tr' = tr @ evs \<and> quiet evs"
proof (cases "task_threads K (tr @ [SendRight (mach_thread_self K)])")
  case None
  then show ?thesis using assms by (auto simp: AddThreadsToCore_def Let_def leave_def)
next
  case (Some threads)
  show ?thesis
  proof (cases "reserve K 8 (length threads)")
    case (Inl e)
    then show ?thesis using assms by (auto simp: AddThreadsToCore_def Let_def Some leave_def split: if_splits)
  next
    case (Inr u)
    then show ?thesis using assms by (auto simp: AddThreadsToCore_def Let_def Some leave_def split: sum.splits)
  qed
qed

lemma AddThreadsToCore_neutral:
  assumes "AddThreadsToCore E K crash b modules ids tr = (r, tr')" and "unwinds r" and "refs_reserved K"
  shows "neutral tr tr'"
proof (cases "task_threads K (tr @ [SendRight (mach_thread_self K)])")
  case None
  then show ?thesis using assms(1)
    by (auto simp: AddThreadsToCore_def Let_def leave_def neutral_def right_counts)
next
  case (Some threads)
  have rsv: "reserve K 8 (length threads) = Inr ()" using reserve_threads [OF Some] assms(3) by blast
  show ?thesis using assms(1,2)
    by (auto simp: AddThreadsToCore_def Let_def Some rsv leave_def neutral_def right_counts split: sum.splits)
qed

lemma dump_body_trace:
  "(\<exists>r'. dump_body E K S crash s tr = (r', tr)) \<or>
   (\<exists>r' r modules tr'. dump_body E K S crash s tr = (r', tr') \<and> (unwinds r' \<longrightarrow> unwinds r) \<and>
      AddThreadsToCore E K crash (new_MachOCoreDumpBuilder (env_config E)) modules [] tr = (r, tr'))"
proof (cases "new_ModuleList (env_config E) K (env_dyld E)")
  case (Inl e)
  then show ?thesis by (simp add: dump_body_def Let_def)
next
  case (Inr modules)
  obtain r tr1 where "AddThreadsToCore E K crash (new_MachOCoreDumpBuilder (env_config E)) modules [] tr = (r, tr1)"
    by fastforce
  moreover from this have "\<exists>r'. dump_body E K S crash s tr = (r', tr1) \<and> (unwinds r' \<longrightarrow> unwinds r)"
    using Inr by (auto simp: dump_body_def Let_def split: sum.splits prod.splits)
  ultimately show ?thesis by blast
qed

lemma dump_body_quiet:
  assumes "dump_body E K S crash s tr = (r, tr')"
  shows "\<exists>evs. tr' = tr @ evs \<and> quiet evs"
  using dump_body_trace [of E K S crash s tr] assms AddThreadsToCore_quiet by fastforce

lemma dump_body_neutral:
  assumes "dump_body E K S crash s tr = (r, tr')" and "unwinds r" and "refs_reserved K"
  shows "neutral tr tr'"
  using dump_body_trace [of E K S crash s tr] assms AddThreadsToCore_neutral [OF _ _ assms(3)] by auto

text \<open>
  After a suspension that went well the suspended threads are the ones that the call returns;
  after an exception the rights have been returned.
\<close>

definition suspended_effect :: "'z dump_kernel_scheme \<Rightarrow> (bool \<times> SendRightRef list) res \<Rightarrow> event list \<Rightarrow> bool" where
  "suspended_effect K r tr \<longleftrightarrow>
     (\<forall>p. resumes p tr = 0) \<and> count_list tr TaskSuspend = 0 \<and> count_list tr TaskResume = 0 \<and>
     (case r of
        Inl e \<Rightarrow> e = BadAlloc \<and> (refs_reserved K \<longrightarrow> (\<forall>p. p \<noteq> 0 \<longrightarrow> deallocated p tr = obtained p tr))
      | Inr (ok, refs) \<Rightarrow> (ok \<or> refs = []) \<and>
          (\<forall>p. pauses p tr = rights p refs \<and> (p \<noteq> 0 \<longrightarrow> deallocated p tr + rights p refs = obtained p tr)))"

lemma unpaused_simps [simp]:
  "pauses p (SendRight q # evs) = pauses p evs" "resumes p (SendRight q # evs) = resumes p evs"
  "pauses p (map SendRight ps) = 0" "resumes p (map SendRight ps) = 0"
  "pauses p (VmDeallocate # evs) = pauses p evs" "resumes p (VmDeallocate # evs) = resumes p evs"
  "count_list (map SendRight ps) TaskSuspend = 0" "count_list (map SendRight ps) TaskResume = 0"
proof -
  show "pauses p (SendRight q # evs) = pauses p evs" "resumes p (SendRight q # evs) = resumes p evs"
    "pauses p (VmDeallocate # evs) = pauses p evs" "resumes p (VmDeallocate # evs) = resumes p evs"
    by (simp_all add: pauses_def resumes_def)
  show "pauses p (map SendRight ps) = 0" "resumes p (map SendRight ps) = 0"
    "count_list (map SendRight ps) TaskSuspend = 0" "count_list (map SendRight ps) TaskResume = 0"
    by (induction ps) (simp_all add: pauses_def resumes_def)
qed

lemmas quiet_deletes = quiet_counts [OF quiet_delete(1)] quiet_counts [OF quiet_delete(2)]

lemma SuspendAll_effect:
  assumes res: "SuspendAllThreadsExceptCurrentOne K [] = (r, tr)"
  shows "suspended_effect K r tr"
proof -
  let ?self = "mach_task_self K"
  let ?own = "mach_thread_self K"
  let ?del = "delete_SendRightRef ?self (Wrap ?own ?self)"
  show ?thesis
  proof (cases "task_threads K [SendRight ?own]")
    case None
    then have "r = Inr (False, [])" and "tr = SendRight ?own # ?del" using res
      by (auto simp: SuspendAllThreadsExceptCurrentOne_def Let_def leave_def)
    then show ?thesis by (simp add: suspended_effect_def right_counts quiet_deletes)
  next
    case (Some threads)
    let ?refs = "map (\<lambda>p. Wrap p ?self) threads"
    let ?tr = "SendRight ?own # map SendRight threads"
    obtain r1 refs susp tr1 where loop: "suspend_loop K ?own ?refs [] ?tr = (r1, refs, susp, tr1)"
      by (metis prod_cases4)
    have eff: "loop_effect ?refs [] ?tr (r1, refs, susp, tr1)"
      using suspend_loop_effect [of ?refs "[]" ?tr K ?own] by (simp add: loop)
    consider (unreserved) "reserve K 8 (length threads) = Inl BadAlloc" "\<not> refs_reserved K"
      | (stopped) e where "reserve K 8 (length threads) = Inr ()" "r1 = Inl e"
      | (all) "reserve K 8 (length threads) = Inr ()" "r1 = Inr ()"
      using reserve_threads [OF Some] by (cases r1) auto
    then show ?thesis
    proof cases
      case unreserved
      then have "r = Inl BadAlloc" and "tr = ?tr @ ?del"
        using res Some by (simp_all add: SuspendAllThreadsExceptCurrentOne_def Let_def leave_def)
      then show ?thesis using unreserved by (simp add: suspended_effect_def quiet_deletes)
    next
      case (stopped e)
      note rsv = stopped(1) and Inl = stopped(2)
      have e: "e = BadAlloc" using eff Inl by (simp add: loop_effect_def)
      then have "r = Inl BadAlloc" and "tr = tr1 @ delete_refs ?self refs @ ?del @ delete_refs ?self susp"
        using res Inl by (simp_all add: SuspendAllThreadsExceptCurrentOne_def Let_def leave_def Some rsv loop)
      then show ?thesis using eff by (simp add: suspended_effect_def loop_effect_def right_counts quiet_deletes)
    next
      case all
      note rsv = all(1) and Inr = all(2)
      then have "r = Inr (True, susp)" and "tr = tr1 @ [VmDeallocate] @ delete_refs ?self refs @ ?del"
        using res by (simp_all add: SuspendAllThreadsExceptCurrentOne_def Let_def leave_def Some rsv loop)
      then show ?thesis using eff Inr
        by (simp add: suspended_effect_def loop_effect_def right_counts quiet_deletes)
    qed
  qed
qed

subsection \<open>A concrete task\<close>

text \<open>
  The task with two images that \<open>ModuleList\<close> reads, with three threads: 5 asks for the dump, 7 can
  be suspended, 9 has ended since.
\<close>

definition demo_dump_kernel :: "unit dump_kernel_ext dyld_kernel_ext mem_kernel_ext" where
  "demo_dump_kernel = dyld_kernel.extend demo_kernel
     \<lparr>pid_for_task_ok = True, mach_task_self = 1, task_suspend_ok = True, mach_thread_self = 5,
      task_threads = (\<lambda>tr. Some [5, 7, 9]), thread_suspend_ok = (\<lambda>tr p. p \<noteq> 9),
      thread_identifier = (\<lambda>p. Some (ucast p)), thread_get_gpr = (\<lambda>p. None),
      thread_get_exc = (\<lambda>p. None), virtual_address_size = None, cpu_address_bits_virtual = None\<rparr>"

definition demo_env :: dump_env where
  "demo_env =
     \<lparr>env_config = demo_config, env_dyld = demo_abi, env_unwind = demo_unwind_abi, env_tags = \<lparr>VM_MEMORY_STACK = 30, VM_MEMORY_heap_tags = [1, 2, 3]\<rparr>,
      env_xpaci = id, env_junk = [], env_pad = 0, env_offset = 0\<rparr>"

definition demo_trace :: "event list" where
  "demo_trace =
     [SendRight 5, SendRight 5, SendRight 7, SendRight 9, ThreadSuspend 7, VmDeallocate,
      Deallocate 1 9, Deallocate 1 5, Deallocate 1 5,
      SendRight 5, SendRight 5, SendRight 7, SendRight 9, VmDeallocate,
      Deallocate 1 9, Deallocate 1 7, Deallocate 1 5, Deallocate 1 5, ThreadResume 7, Deallocate 1 7]"

lemma demo_dump:
  "MiniDumpWriteDump demo_env demo_dump_kernel (FileOStream_vtable (regular_file 3)) 1 None empty_file =
     (Inr (False, Some empty_file), demo_trace)"
  by code_simp

lemma demo_dump_no_memory:
  "SuspendAllThreadsExceptCurrentOne (demo_dump_kernel\<lparr>malloc_ok := (\<lambda>n. n \<noteq> 16), thread_suspend_ok := (\<lambda>tr p. True)\<rparr>) [] =
     (Inl BadAlloc,
      [SendRight 5, SendRight 5, SendRight 7, SendRight 9, ThreadSuspend 7, ThreadSuspend 9,
       Deallocate 1 9, Deallocate 1 5, Deallocate 1 5, Deallocate 1 7])"
  by code_simp

lemma demo_refs_reserved: "refs_reserved demo_dump_kernel"
  by (simp add: refs_reserved_def demo_dump_kernel_def dyld_kernel.defs demo_kernel_def mem_kernel.defs flat_kernel_def)

subsection \<open>Properties\<close>

lemma Impl_no_calls [simp]:
  "resumes p [TaskResume] = 0" "pauses p [TaskResume] = 0" "resumes p [TaskSuspend] = 0" "pauses p [TaskSuspend] = 0"
  "obtained p [TaskResume] = 0" "deallocated p [TaskSuspend] = 0" "obtained p [TaskSuspend] = 0"
  "deallocated p [TaskResume] = 0" "pauses p (TaskSuspend # evs) = pauses p evs"
  "resumes p (TaskSuspend # evs) = resumes p evs"
  by (simp_all add: resumes_def pauses_def obtained_def deallocated_def)

lemma resumed_after:
  assumes "tr = a @ b" and "\<forall>p. resumes p a = 0 \<and> pauses p b = 0 \<and> pauses p a = resumes p b"
    and "count_list a TaskResume = 0" and "count_list b TaskSuspend = 0"
    and "count_list a TaskSuspend = count_list b TaskResume"
  shows "(\<forall>p. pauses p tr = resumes p tr) \<and> count_list tr TaskSuspend = count_list tr TaskResume \<and>
    (\<exists>before after. tr = before @ after \<and> (\<forall>p. resumes p before = 0 \<and> pauses p after = 0) \<and>
       count_list before TaskResume = 0 \<and> count_list after TaskSuspend = 0)"
  using assms by (intro conjI exI [of _ b, THEN exI [of _ a]]) simp_all

text \<open>How a request ends: nothing was suspended, another task was, or the own threads were.\<close>

lemma dump_cases:
  assumes "MiniDumpWriteDump E K S task crash s = (Inr r, tr)"
  obtains (nothing) "tr = []"
  | (task) r1 tr1 where "task \<noteq> mach_task_self K" "dump_body E K S crash (snd (os_SetSize S 0 s)) [TaskSuspend] = (r1, tr1)"
      "unwinds r1" "tr = tr1 @ [TaskResume]"
  | (unsuspended) r1 where "task = mach_task_self K" "SuspendAllThreadsExceptCurrentOne K [] = (r1, tr)"
      "r1 = Inl BadAlloc \<or> (\<exists>refs. r1 = Inr (False, refs))"
  | (threads) refs tr0 r1 tr1 where "task = mach_task_self K"
      "SuspendAllThreadsExceptCurrentOne K [] = (Inr (True, refs), tr0)"
      "dump_body E K S crash (snd (os_SetSize S 0 s)) tr0 = (r1, tr1)" "unwinds r1"
      "tr = tr1 @ ResumeThreads refs @ delete_refs (mach_task_self K) refs"
proof -
  obtain r0 where impl: "MiniDumpWriteDumpImpl E K S task crash s [] = (r0, tr)" and r0: "unwinds r0"
    using assms by (auto simp: MiniDumpWriteDump_def split: prod.splits sum.splits if_splits)
  obtain ok s1 where size: "os_SetSize S 0 s = (ok, s1)" by fastforce
  show thesis
  proof (cases "pid_for_task_ok K \<and> ok")
    case False
    then have "tr = []" using impl by (auto simp: MiniDumpWriteDumpImpl_def size split: if_splits)
    then show thesis by (rule nothing)
  next
    case True
    show thesis
    proof (cases "task = mach_task_self K")
      case False
      obtain r1 tr1 where body: "dump_body E K S crash s1 [TaskSuspend] = (r1, tr1)" by fastforce
      have "tr = [] \<or> (r0 = r1 \<and> tr = (if unwinds r1 then tr1 @ [TaskResume] else tr1))"
        using impl True False size body by (auto simp: MiniDumpWriteDumpImpl_def leave_def split: if_splits)
      then consider "tr = []" | "unwinds r1" "tr = tr1 @ [TaskResume]" using r0 by auto
      then show thesis
      proof cases
        case 1
        then show thesis by (rule nothing)
      next
        case 2
        show thesis by (rule task [OF False _ 2]) (simp add: size body)
      qed
    next
      case self: True
      obtain rs tr0 where sus: "SuspendAllThreadsExceptCurrentOne K [] = (rs, tr0)" by fastforce
      show thesis
      proof (cases "\<exists>refs. rs = Inr (True, refs)")
        case False
        have "tr = tr0 \<and> (rs = Inl BadAlloc \<or> (\<exists>refs. rs = Inr (False, refs)))"
        proof (cases rs)
          case (Inl e)
          then show ?thesis using impl True self r0 by (auto simp: MiniDumpWriteDumpImpl_def size sus)
        next
          case (Inr x)
          then show ?thesis using impl True self False by (cases x) (auto simp: MiniDumpWriteDumpImpl_def size sus)
        qed
        then show thesis using sus by (intro unsuspended [OF self, of rs]) simp_all
      next
        case refs: True
        then obtain refs where rs: "rs = Inr (True, refs)" by blast
        obtain r1 tr1 where body: "dump_body E K S crash s1 tr0 = (r1, tr1)" by fastforce
        have "r0 = r1 \<and> tr = (if unwinds r1 then tr1 @ ResumeThreads refs @ delete_refs (mach_task_self K) refs else tr1)"
          using impl True self size sus body by (auto simp: MiniDumpWriteDumpImpl_def rs leave_def)
        then show thesis using r0 by (intro threads [OF self, of refs tr0 r1 tr1]) (simp_all add: sus body rs size)
      qed
    qed
  qed
qed

text \<open>C6. A dump leaves the program it found running: whatever way the request ends, every thread and
  the task are resumed as often as they were suspended, and only after the last suspension; the
  only exception is memory that runs out in the middle of suspending.\<close>

theorem suspended_threads_are_resumed:
  assumes "MiniDumpWriteDump E K S task crash s = (Inr r, tr)"
    and "task = mach_task_self K \<Longrightarrow> fst (SuspendAllThreadsExceptCurrentOne K []) \<noteq> Inl BadAlloc"
  shows "(\<forall>p. pauses p tr = resumes p tr) \<and> count_list tr TaskSuspend = count_list tr TaskResume \<and>
    (\<exists>before after. tr = before @ after \<and> (\<forall>p. resumes p before = 0 \<and> pauses p after = 0) \<and>
       count_list before TaskResume = 0 \<and> count_list after TaskSuspend = 0)"
  using assms(1)
proof (cases rule: dump_cases)
  case nothing
  then show ?thesis by simp
next
  case (task r1 tr1)
  obtain evs where "tr1 = [TaskSuspend] @ evs" "quiet evs" using dump_body_quiet [OF task(2)] by blast
  with task(4) show ?thesis
    by (intro resumed_after [of tr tr1 "[TaskResume]"]) (simp_all add: quiet_counts)
next
  case (unsuspended r1)
  have "r1 \<noteq> Inl BadAlloc" using assms(2) [OF unsuspended(1)] unsuspended(2) by simp
  then obtain refs where "r1 = Inr (False, refs)" using unsuspended(3) by blast
  then have "\<forall>p. pauses p tr = 0 \<and> resumes p tr = 0" "count_list tr TaskSuspend = 0" "count_list tr TaskResume = 0"
    using SuspendAll_effect [OF unsuspended(2)] by (auto simp: suspended_effect_def)
  then show ?thesis by (intro resumed_after [of tr tr "[]"]) simp_all
next
  case (threads refs tr0 r1 tr1)
  obtain evs where "tr1 = tr0 @ evs" "quiet evs" using dump_body_quiet [OF threads(3)] by blast
  with SuspendAll_effect [OF threads(2)] threads(5) show ?thesis
    by (intro resumed_after [of tr tr1 "ResumeThreads refs @ delete_refs (mach_task_self K) refs"])
      (simp_all add: suspended_effect_def quiet_counts quiet_deletes)
qed

lemma suspended_threads_are_resumed_witness:
  "\<exists>tr. MiniDumpWriteDump demo_env demo_dump_kernel (FileOStream_vtable (regular_file 3)) 1 None empty_file =
     (Inr (False, Some empty_file), tr) \<and> pauses 7 tr = 1 \<and> resumes 7 tr = 1"
proof -
  have "fst (SuspendAllThreadsExceptCurrentOne demo_dump_kernel []) \<noteq> Inl BadAlloc" by code_simp
  with suspended_threads_are_resumed [OF demo_dump, of] have "\<forall>p. pauses p demo_trace = resumes p demo_trace"
    by blast
  moreover have "pauses 7 demo_trace = 1" by code_simp
  ultimately show ?thesis using demo_dump by auto
qed

lemma dump_balances_send_rights:
  assumes "MiniDumpWriteDump E K S task crash s = (Inr r, tr)" and "refs_reserved K" and "p \<noteq> MACH_PORT_NULL"
  shows "deallocated p tr = obtained p tr"
  using assms(1)
proof (cases rule: dump_cases)
  case nothing
  then show ?thesis by simp
next
  case (task r1 tr1)
  then show ?thesis using neutral_counts(5) [OF dump_body_neutral [OF task(2,3) assms(2)], of p] assms(3)
    by (simp add: MACH_PORT_NULL_def)
next
  case (unsuspended r1)
  then show ?thesis using SuspendAll_effect [OF unsuspended(2)] assms(2,3)
    by (auto simp: suspended_effect_def MACH_PORT_NULL_def)
next
  case (threads refs tr0 r1 tr1)
  have "deallocated p tr0 + rights p refs = obtained p tr0"
    using SuspendAll_effect [OF threads(2)] assms(3) by (simp add: suspended_effect_def MACH_PORT_NULL_def)
  moreover have "deallocated p tr1 + obtained p tr0 = deallocated p tr0 + obtained p tr1"
    using neutral_counts(5) [OF dump_body_neutral [OF threads(3,4) assms(2)], of p] assms(3)
    by (simp add: MACH_PORT_NULL_def)
  ultimately show ?thesis using threads(5) assms(3) by (simp add: MACH_PORT_NULL_def right_counts)
qed

text \<open>C7. No Mach port is leaked and none is released twice: by the time that a dump returns, every send
  right that the kernel handed out, for the own thread and for each thread of each list, was given
  back exactly as often, also after a failed suspension and after memory ran out.\<close>

theorem dump_returns_every_send_right:
  assumes "MiniDumpWriteDump E K S task crash s = (Inr r, tr)" and "refs_reserved K" and "p \<noteq> MACH_PORT_NULL"
  shows "deallocated p tr = obtained p tr"
  by (rule dump_balances_send_rights [OF assms])

lemma dump_returns_every_send_right_witness:
  "\<exists>tr. MiniDumpWriteDump demo_env demo_dump_kernel (FileOStream_vtable (regular_file 3)) 1 None empty_file =
     (Inr (False, Some empty_file), tr) \<and> obtained 7 tr = 2 \<and> deallocated 7 tr = 2"
proof -
  have "obtained 7 demo_trace = 2" by code_simp
  with dump_returns_every_send_right [OF demo_dump demo_refs_reserved, of 7] demo_dump show ?thesis
    by (auto simp: MACH_PORT_NULL_def)
qed

text \<open>C33. Memory that runs out while the threads are being suspended leaves threads suspended: the
  request returns false as for any other failure, but the cleanup that resumes threads is not in
  force yet, so none of the threads suspended until then is resumed.\<close>

theorem bad_alloc_while_suspending_leaves_threads_suspended:
  assumes "SuspendAllThreadsExceptCurrentOne K [] = (Inl BadAlloc, tr)"
    and "task = mach_task_self K" and "pid_for_task_ok K" and "fst (os_SetSize S 0 s)"
  shows "MiniDumpWriteDump E K S task crash s = (Inr (False, None), tr) \<and>
    (\<forall>p. resumes p tr = 0)"
  using assms SuspendAll_effect [OF assms(1)]
  by (cases "os_SetSize S 0 s")
    (simp add: MiniDumpWriteDump_def MiniDumpWriteDumpImpl_def suspended_effect_def)

lemma bad_alloc_while_suspending_leaves_threads_suspended_witness:
  "\<exists>tr. MiniDumpWriteDump demo_env
      (demo_dump_kernel\<lparr>malloc_ok := (\<lambda>n. n \<noteq> 16), thread_suspend_ok := (\<lambda>tr p. True)\<rparr>)
      (FileOStream_vtable (regular_file 3)) 1 None empty_file = (Inr (False, None), tr) \<and>
    pauses 7 tr = 1 \<and> pauses 9 tr = 1 \<and> resumes 7 tr = 0 \<and> resumes 9 tr = 0"
proof -
  let ?K = "demo_dump_kernel\<lparr>malloc_ok := (\<lambda>n. n \<noteq> 16), thread_suspend_ok := (\<lambda>tr p. True)\<rparr>"
  have "1 = mach_task_self ?K" and "pid_for_task_ok ?K" and "fst (os_SetSize (FileOStream_vtable (regular_file 3)) 0 empty_file)"
    by code_simp+
  from bad_alloc_while_suspending_leaves_threads_suspended [OF demo_dump_no_memory this]
  show ?thesis by (fastforce simp: pauses_def)
qed

end
