(* ===== verification/DumpThreads.thy ===== *)
theory DumpThreads
  imports DumpTrace
begin

text \<open>
  What \<open>AddThreadsToCore\<close> puts into the core: one command per thread whose registers are known,
  and the memory that a debugger needs for its stack, which is specified per thread
  (\<open>thread_request\<close>) and added for all of them at once.
\<close>

subsection \<open>Marking modules does not change the walk\<close>

text \<open>The same modules, apart from the mark that an address in them is executed.\<close>

definition unmarked :: "ModuleInfo \<Rightarrow> ModuleInfo" where
  "unmarked mi = mi\<lparr>executing := False\<rparr>"

definition same_modules :: "ModuleInfos \<Rightarrow> ModuleInfos \<Rightarrow> bool" where
  "same_modules m m' \<longleftrightarrow>
     (\<forall>a. map_option unmarked (GetModuleInfoForAddress m a) = map_option unmarked (GetModuleInfoForAddress m' a))"

lemma same_modules_refl [simp]: "same_modules m m"
  by (simp add: same_modules_def)

lemma GetModuleInfo_mark:
  "map_option unmarked (GetModuleInfoForAddress (snd (MarkAsExecuting c m)) a) =
   map_option unmarked (GetModuleInfoForAddress m a)"
proof (cases "GetModuleInfoForAddressImpl m c")
  case None
  then show ?thesis by (simp add: MarkAsExecuting_def)
next
  case (Some i)
  note i = Impl_less [OF Some]
  show ?thesis
  proof (cases "GetModuleInfoForAddressImpl m a")
    case None
    then show ?thesis using Some i Impl_mark [OF i, of True a]
      by (simp add: MarkAsExecuting_def GetModuleInfoForAddress_def)
  next
    case a: (Some j)
    then show ?thesis using Some i Impl_mark [OF i, of True a] Impl_less [OF a]
      by (cases "i = j") (simp_all add: MarkAsExecuting_def GetModuleInfoForAddress_def unmarked_def)
  qed
qed

lemma same_modules_mark: "same_modules m m' \<Longrightarrow> same_modules m (snd (MarkAsExecuting c m'))"
  by (simp add: same_modules_def GetModuleInfo_mark)

lemma Lookup_same:
  assumes "same_modules m m'"
  shows "LookupStackFrameForPC cfg K U m' pc = LookupStackFrameForPC cfg K U m pc"
proof -
  have same: "map_option unmarked (GetModuleInfoForAddress m pc) = map_option unmarked (GetModuleInfoForAddress m' pc)"
    using assms by (simp add: same_modules_def)
  show ?thesis
  proof (cases "GetModuleInfoForAddress m pc")
    case None
    moreover from this same have "GetModuleInfoForAddress m' pc = None" by simp
    ultimately show ?thesis
      unfolding LookupStackFrameForPC_def LookupStackFrameForPCImplArm64_def LookupStackFrameForPCImplIntel_def
      by (simp only:)
  next
    case (Some x)
    with same obtain y where y: "GetModuleInfoForAddress m' pc = Some y" and "unmarked x = unmarked y"
      by (cases "GetModuleInfoForAddress m' pc") auto
    then have "headerAndLoadCommandBytes x = headerAndLoadCommandBytes y" "loadAddress x = loadAddress y"
      by (cases x; cases y; simp add: unmarked_def)+
    then show ?thesis
      unfolding LookupStackFrameForPC_def LookupStackFrameForPCImplArm64_def LookupStackFrameForPCImplIntel_def
        Some y option.case by (simp only:)
  qed
qed

lemma WalkStack_same:
  assumes "same_modules m m'"
  shows "WalkStack cfg K U xpaci u rs m' g e = WalkStack cfg K U xpaci u rs m g e"
proof -
  have "top_pc_no_frame cfg K U rs m' = top_pc_no_frame cfg K U rs m"
    by (intro ext) (simp add: top_pc_no_frame_def Lookup_same [OF assms])
  then show ?thesis unfolding WalkStack_def by (simp only:)
qed

subsection \<open>What a thread contributes\<close>

definition code_ranges :: "u64 list \<Rightarrow> (u64 \<times> u64) list" where
  "code_ranges ips =
     map (\<lambda>ip. (ip - 256, 513)) (filter (\<lambda>ip. 256 \<le> ip \<and> ip \<le> UINT64_MAX - 256) ips)"

definition stack_ranges :: "CrashContext option \<Rightarrow> MemoryRegions \<Rightarrow> bool \<Rightarrow> u64 \<Rightarrow> (u64 \<times> u64) list" where
  "stack_ranges crash rs own sp =
     (case GetRegionInfoForAddress rs sp of
        None \<Rightarrow> []
      | Some ri \<Rightarrow> if own \<and> crash = None then [] else [(sp, vmaddr ri + vmsize ri - sp)])"

definition gpr_of :: "dump_env \<Rightarrow> thread_state \<Rightarrow> GPR" where
  "gpr_of E ts = make_GPR (target (env_config E)) ts"

definition exc_of :: "dump_env \<Rightarrow> exception_state \<Rightarrow> EXC" where
  "exc_of E es = make_EXC (target (env_config E)) es"

definition call_stack ::
  "dump_env \<Rightarrow> 'z dump_kernel_scheme \<Rightarrow> MemoryRegions \<Rightarrow> ModuleInfos \<Rightarrow> thread_state \<Rightarrow> exception_state \<Rightarrow> u64 list"
where
  "call_stack E K rs ms ts es =
     (case WalkStack (env_config E) K (env_unwind E) (env_xpaci E) (env_junk E) rs ms (gpr_of E ts) (exc_of E es) of
        Inl e \<Rightarrow> [] | Inr ips \<Rightarrow> ips)"

definition captured :: "'z dump_kernel_scheme \<Rightarrow> CrashContext option \<Rightarrow> port \<Rightarrow> bool" where
  "captured K crash p \<longleftrightarrow> thread_registers K crash p \<noteq> None"

definition thread_request ::
  "dump_env \<Rightarrow> 'z dump_kernel_scheme \<Rightarrow> CrashContext option \<Rightarrow> MemoryRegions \<Rightarrow> ModuleInfos \<Rightarrow> port \<Rightarrow> (u64 \<times> u64) list"
where
  "thread_request E K crash rs ms p =
     (case thread_registers K crash p of
        None \<Rightarrow> []
      | Some (ts, es) \<Rightarrow> code_ranges (call_stack E K rs ms ts es) @
          stack_ranges crash rs (p = mach_thread_self K) (stack_pointer (gpr_of E ts)))"

definition thread_command ::
  "dump_env \<Rightarrow> 'z dump_kernel_scheme \<Rightarrow> CrashContext option \<Rightarrow> port \<Rightarrow> bytes" where
  "thread_command E K crash p =
     (case thread_registers K crash p of
        None \<Rightarrow> []
      | Some (ts, es) \<Rightarrow>
          le32 LC_THREAD @ le32 (of_nat (8 + length (enc_GPR (gpr_of E ts) @ enc_EXC (exc_of E es)))) @
          enc_GPR (gpr_of E ts) @ enc_EXC (exc_of E es))"

text \<open>The states that the kernel and the crash context hold are those of the target.\<close>

definition typed_states :: "dump_env \<Rightarrow> 'z dump_kernel_scheme \<Rightarrow> CrashContext option \<Rightarrow> bool" where
  "typed_states E K crash \<longleftrightarrow>
     (\<forall>p ts es. thread_registers K crash p = Some (ts, es) \<longrightarrow> state_of_target (target (env_config E)) ts)"

definition insert_ranges :: "(u64 \<times> u64) list \<Rightarrow> intervals \<Rightarrow> intervals" where
  "insert_ranges rs m = fold (\<lambda>(a, n). InsertAndMergeIfNeeded a n) rs m"

lemma insert_ranges_append [simp]: "insert_ranges (rs @ rs') m = insert_ranges rs' (insert_ranges rs m)"
  by (simp add: insert_ranges_def)

lemma insert_ranges_Nil [simp]: "insert_ranges [] m = m"
  by (simp add: insert_ranges_def)

text \<open>The addresses of a call stack, and the modules after all of them are marked.\<close>

definition thread_ips ::
  "dump_env \<Rightarrow> 'z dump_kernel_scheme \<Rightarrow> CrashContext option \<Rightarrow> MemoryRegions \<Rightarrow> ModuleInfos \<Rightarrow> port \<Rightarrow> u64 list"
where
  "thread_ips E K crash rs ms p =
     (case thread_registers K crash p of None \<Rightarrow> [] | Some (ts, es) \<Rightarrow> call_stack E K rs ms ts es)"

definition mark_modules :: "u64 list \<Rightarrow> ModuleInfos \<Rightarrow> ModuleInfos" where
  "mark_modules ips ms = fold (\<lambda>ip m. snd (MarkAsExecuting ip m)) ips ms"

lemma mark_modules_append [simp]: "mark_modules (a @ b) ms = mark_modules b (mark_modules a ms)"
  by (simp add: mark_modules_def)

lemma mark_modules_Nil [simp]: "mark_modules [] ms = ms"
  by (simp add: mark_modules_def)

subsection \<open>One thread\<close>

lemma same_modules_marks: "same_modules m m' \<Longrightarrow> same_modules m (mark_modules ips m')"
  by (induction ips arbitrary: m') (simp_all add: mark_modules_def same_modules_mark)

lemma fold_add_ip:
  "td_ranges (fold add_ip ips d) = insert_ranges (code_ranges ips) (td_ranges d) \<and>
   td_ids (fold add_ip ips d) = td_ids d \<and> td_builder (fold add_ip ips d) = td_builder d \<and>
   td_modules (fold add_ip ips d) = mark_modules ips (td_modules d)"
proof (induction ips arbitrary: d)
  case Nil
  then show ?case by (simp add: code_ranges_def)
next
  case (Cons ip ips)
  have d: "td_ids (add_ip ip d) = td_ids d" "td_builder (add_ip ip d) = td_builder d"
    "td_ranges (add_ip ip d) = insert_ranges (code_ranges [ip]) (td_ranges d)"
    "td_modules (add_ip ip d) = mark_modules [ip] (td_modules d)"
    by (simp_all add: add_ip_def SurroundingsRange_def code_ranges_def insert_ranges_def mark_modules_def)
  have "code_ranges (ip # ips) = code_ranges [ip] @ code_ranges ips"
    and "mark_modules (ip # ips) ms = mark_modules ips (mark_modules [ip] ms)" for ms
    by (simp_all add: code_ranges_def mark_modules_def)
  then show ?case using Cons.IH [of "add_ip ip d"] d by simp
qed

lemma add_stack_fields:
  "td_ranges (add_stack crash rs own p sp d) = insert_ranges (stack_ranges crash rs (p = own) sp) (td_ranges d)"
  "td_ids (add_stack crash rs own p sp d) = td_ids d" "td_builder (add_stack crash rs own p sp d) = td_builder d"
  "td_modules (add_stack crash rs own p sp d) = td_modules d"
  by (auto simp: add_stack_def stack_ranges_def insert_ranges_def Let_def split: option.splits)

lemma add_thread_effect:
  assumes "add_thread E K crash rs (mach_thread_self K) p d = Inr d'"
    and "same_modules ms (td_modules d)" and "length (env_junk E) = 8" and "typed_states E K crash"
  shows "td_ranges d' = insert_ranges (thread_request E K crash rs ms p) (td_ranges d) \<and>
    same_modules ms (td_modules d') \<and> td_modules d' = mark_modules (thread_ips E K crash rs ms p) (td_modules d) \<and>
    td_ids d' = td_ids d @ (if captured K crash p then [thread_tid K p] else []) \<and>
    td_builder d' = (td_builder d)\<lparr>thread_cmds := thread_cmds (td_builder d) @
      (if captured K crash p then [thread_command E K crash p] else [])\<rparr>"
proof (cases "thread_registers K crash p")
  case None
  then show ?thesis using assms(1,2) by (simp add: add_thread_def thread_request_def thread_ips_def captured_def)
next
  case (Some r)
  obtain ts es where r: "r = (ts, es)" by (cases r)
  let ?cfg = "env_config E" and ?g = "gpr_of E ts" and ?e = "exc_of E es"
  from assms(1) obtain ok b ids ips ptr sp where
    cmd: "AddThreadCommand K (env_pad E) [enc_GPR ?g, enc_EXC ?e] (td_builder d) = Inr (ok, b)"
    and ids: "push_back K 8 (td_ids d) (thread_tid K p) = Inr ids"
    and walk: "WalkStack ?cfg K (env_unwind E) (env_xpaci E) (env_junk E) rs (td_modules d) ?g ?e = Inr ips"
    and ptr: "StackPointer K ?g = Inr ptr" "AsUIntPtr ?cfg (env_junk E) ptr = Inr sp"
    and d': "d' = add_stack crash rs (mach_thread_self K) p sp (fold add_ip ips (d\<lparr>td_builder := b, td_ids := ids\<rparr>))"
    by (auto simp: add_thread_def Some r gpr_of_def exc_of_def Let_def rbind_eq_Inr)
  have sp: "sp = stack_pointer ?g"
    using new_Pointer_As [OF _ assms(3), of K _ ptr] ptr by (simp add: StackPointer_def stack_pointer_def)
  have ips: "ips = call_stack E K rs ms ts es"
    using walk by (simp add: call_stack_def WalkStack_same [OF assms(2)])
  have ids': "ids = td_ids d @ [thread_tid K p]" using ids by (auto simp: push_back_def rbind_eq_Inr)
  have "state_of_target (target ?cfg) ts" using assms(4) Some r by (auto simp: typed_states_def)
  then have "8 dvd length (enc_GPR ?g)" "8 dvd length (enc_EXC ?e)"
    using length_enc_thread_state
    by (auto simp: enc_GPR_def enc_EXC_def gpr_of_def exc_of_def make_GPR_def make_EXC_def sizeof_thread_state_def
        split: arch.split)
  then have b: "b = (td_builder d)\<lparr>thread_cmds := thread_cmds (td_builder d) @ [thread_command E K crash p]\<rparr>"
    using AddThreadCommand_bytes [OF cmd] Some r by (simp add: thread_command_def)
  show ?thesis
    unfolding d' using assms(2)
    by (simp add: add_stack_fields fold_add_ip thread_request_def thread_ips_def Some r captured_def ips sp ids' b
        same_modules_marks)
qed

subsection \<open>All threads\<close>

lemma threads_effect:
  assumes "rfold (\<lambda>r. add_thread E K crash rs (mach_thread_self K) (PortRef.Get r)) (map (\<lambda>p. Wrap p self) ps) d = Inr d'"
    and "same_modules ms (td_modules d)" and "length (env_junk E) = 8" and "typed_states E K crash"
  shows "td_ranges d' = insert_ranges (concat (map (thread_request E K crash rs ms) ps)) (td_ranges d) \<and>
    td_modules d' = mark_modules (concat (map (thread_ips E K crash rs ms) ps)) (td_modules d) \<and>
    td_ids d' = td_ids d @ map (thread_tid K) (filter (captured K crash) ps) \<and>
    td_builder d' = (td_builder d)\<lparr>thread_cmds := thread_cmds (td_builder d) @
      map (thread_command E K crash) (filter (captured K crash) ps)\<rparr>"
  using assms(1,2)
proof (induction ps arbitrary: d)
  case Nil
  then show ?case by simp
next
  case (Cons p ps)
  then obtain d1 where d1: "add_thread E K crash rs (mach_thread_self K) p d = Inr d1"
    and rest: "rfold (\<lambda>r. add_thread E K crash rs (mach_thread_self K) (PortRef.Get r)) (map (\<lambda>p. Wrap p self) ps) d1 = Inr d'"
    by (auto simp: rbind_eq_Inr)
  note eff = add_thread_effect [OF d1 Cons.prems(2) assms(3,4)]
  show ?case using Cons.IH [OF rest] eff by auto
qed

subsection \<open>The segments\<close>

definition process_segment :: "'z mem_kernel_scheme \<Rightarrow> u64 \<times> u64 \<Rightarrow> segment_entry" where
  "process_segment K = (\<lambda>(start, len).
     let pr = (case GetMemoryProtection K start len of None \<Rightarrow> 0 | Some pr \<Rightarrow> ucast pr) in
     (\<lparr>sc_cmd = LC_SEGMENT_64, sc_cmdsize = 72, sc_segname = replicate 16 0, sc_vmaddr = start, sc_vmsize = len,
       sc_fileoff = 0, sc_filesize = len, sc_maxprot = pr, sc_initprot = pr, sc_nsects = 0, sc_flags = 0\<rparr>,
      Some \<lparr>dp_size = len, dp_ptr = ProcessMemoryReaderDataPtr start len\<rparr>))"

text \<open>The addresses whose memory the segments of a builder hold.\<close>

definition segment_bytes :: "builder \<Rightarrow> u64 set" where
  "segment_bytes b = (\<Union>(sc, pr) \<in> set (segment_cmds b). {sc_vmaddr sc..<sc_vmaddr sc + sc_filesize sc})"

definition protection_known :: "'z mem_kernel_scheme \<Rightarrow> u64 \<times> u64 \<Rightarrow> bool" where
  "protection_known K r \<longleftrightarrow> GetMemoryProtection K (fst r) (snd r) \<noteq> None"

lemma add_segment_effect:
  assumes "AddSegmentCommandFromProcessMemory K start len b = Inr (ok, b')" and "\<not> finalized b"
  shows "b' = b\<lparr>segment_cmds := segment_cmds b @
      (if protection_known K (start, len) then [process_segment K (start, len)] else [])\<rparr>"
  using assms
  by (auto simp: AddSegmentCommandFromProcessMemory_def AddSegmentCommandFromProcessMemoryProt_def
      AddSegmentCommand_def protection_known_def process_segment_def rbind_eq_Inr Let_def sizeofs split: option.splits)

lemma add_segments_effect:
  assumes "add_segments K m b = Inr b'" and "\<not> finalized b"
  shows "b' = b\<lparr>segment_cmds := segment_cmds b @
      map (process_segment K) (filter (protection_known K) (ForEach m))\<rparr>"
proof -
  have "b' = b\<lparr>segment_cmds := segment_cmds b @ map (process_segment K) (filter (protection_known K) rs)\<rparr>"
    if "rfold (\<lambda>(start, len) b. rbind (AddSegmentCommandFromProcessMemory K start len b) (\<lambda>(_, b). Inr b)) rs b = Inr b'"
      and "\<not> finalized b" for rs
    using that
  proof (induction rs arbitrary: b)
    case Nil
    then show ?case by simp
  next
    case (Cons r rs)
    obtain start len where r: "r = (start, len)" by (cases r)
    with Cons.prems(1) obtain ok b1 where b1: "AddSegmentCommandFromProcessMemory K start len b = Inr (ok, b1)"
      and rest: "rfold (\<lambda>(start, len) b. rbind (AddSegmentCommandFromProcessMemory K start len b) (\<lambda>(_, b). Inr b)) rs b1 = Inr b'"
      by (auto simp: rbind_eq_Inr)
    note eff = add_segment_effect [OF b1 Cons.prems(2)]
    with Cons.prems(2) have "\<not> finalized b1" by simp
    from Cons.IH [OF rest this] eff show ?case by (simp add: r)
  qed
  then show ?thesis using assms by (simp add: add_segments_def)
qed

subsection \<open>The whole step\<close>

definition all_requests ::
  "dump_env \<Rightarrow> 'z dump_kernel_scheme \<Rightarrow> CrashContext option \<Rightarrow> MemoryRegions \<Rightarrow> ModuleInfos \<Rightarrow> port list \<Rightarrow> (u64 \<times> u64) list"
where
  "all_requests E K crash rs ms threads = concat (map (thread_request E K crash rs ms) threads)"

definition memory_ranges ::
  "dump_env \<Rightarrow> 'z dump_kernel_scheme \<Rightarrow> CrashContext option \<Rightarrow> MemoryRegions \<Rightarrow> ModuleInfos \<Rightarrow> port list \<Rightarrow> (u64 \<times> u64) list"
where
  "memory_ranges E K crash rs ms threads = ForEach (insert_ranges (all_requests E K crash rs ms threads) [])"

lemma AddThreadsToCore_effect:
  assumes "AddThreadsToCore E K crash b ms ids tr = (Inr (True, b', ms', ids'), tr')"
    and "task_threads K (tr @ [SendRight (mach_thread_self K)]) = Some threads"
    and "new_MemoryRegionList K (env_tags E) = Some rs"
    and "\<not> finalized b" and "length (env_junk E) = 8" and "typed_states E K crash"
  shows "ids' = map (thread_tid K) (filter (captured K crash) threads) \<and>
    ms' = mark_modules (concat (map (thread_ips E K crash rs ms) threads)) ms \<and>
    b' = b\<lparr>thread_cmds := thread_cmds b @ map (thread_command E K crash) (filter (captured K crash) threads),
           segment_cmds := segment_cmds b @ map (process_segment K)
             (filter (protection_known K) (memory_ranges E K crash rs ms threads))\<rparr>"
proof -
  let ?refs = "map (\<lambda>p. Wrap p (mach_task_self K)) threads"
  let ?d = "\<lparr>td_builder = b, td_modules = ms, td_ids = [], td_ranges = []\<rparr>"
  have "reserve K 8 (length threads) = Inr ()"
    using assms(1,2) reserve_threads [OF assms(2)]
    by (auto simp: AddThreadsToCore_def Let_def leave_def)
  then obtain d where d:
    "rfold (\<lambda>r. add_thread E K crash rs (mach_thread_self K) (PortRef.Get r)) ?refs ?d = Inr d"
    "add_segments K (td_ranges d) (td_builder d) = Inr b'" "ids' = td_ids d" "ms' = td_modules d"
    using assms(1-3) by (auto simp: AddThreadsToCore_def Let_def leave_def rbind_eq_Inr)
  have "same_modules ms (td_modules ?d)" by simp
  note eff = threads_effect [OF d(1) this assms(5,6)]
  then have "\<not> finalized (td_builder d)" using assms(4) by simp
  from add_segments_effect [OF d(2) this] eff show ?thesis
    by (simp add: d(3,4) memory_ranges_def all_requests_def)
qed

subsection \<open>The ranges do not wrap around\<close>

text \<open>No return address is the one whose range just wraps around.\<close>

definition no_edge_addresses ::
  "dump_env \<Rightarrow> 'z dump_kernel_scheme \<Rightarrow> CrashContext option \<Rightarrow> MemoryRegions \<Rightarrow> ModuleInfos \<Rightarrow> port list \<Rightarrow> bool"
where
  "no_edge_addresses E K crash rs ms threads \<longleftrightarrow>
     list_all (\<lambda>p. case thread_registers K crash p of
       None \<Rightarrow> True | Some (ts, es) \<Rightarrow> UINT64_MAX - 256 \<notin> set (call_stack E K rs ms ts es)) threads"

lemma code_range_no_wrap:
  assumes "256 \<le> ip" and "ip \<le> UINT64_MAX - 256" and "ip \<noteq> UINT64_MAX - 256"
  shows "no_wrap (ip - 256) 513" and "{ip - 256..<ip - 256 + 513} = {ip - 256..ip + 256}"
proof -
  have "ip < UINT64_MAX - 256" using assms(2,3) by simp
  then have lt: "unat ip < 2 ^ 64 - 257" by (simp add: word_less_nat_alt UINT64_MAX_def)
  have ge: "256 \<le> unat ip" using assms(1) by (simp add: word_le_nat_alt)
  have sub: "unat (ip - 256) = unat ip - 256" using assms(1) by (simp add: unat_sub)
  show nw: "no_wrap (ip - 256) 513" using lt ge by (simp add: no_wrap_def sub)
  have "unat (ip - 256 + 513) = unat ip + 257" using no_wrap_unat [OF nw] ge by (simp add: sub)
  moreover have "unat (ip + 256) = unat ip + 256" by (intro no_wrap_unat [THEN trans]) (use lt in \<open>simp_all add: no_wrap_def\<close>)
  ultimately show "{ip - 256..<ip - 256 + 513} = {ip - 256..ip + 256}"
    by (auto simp: word_less_nat_alt word_le_nat_alt)
qed

lemma region_contains:
  "GetRegionInfoForAddress rs a = Some ri \<Longrightarrow> isInRegion a ri"
  by (auto simp: GetRegionInfoForAddress_def Let_def split: if_splits)

lemma stack_range_no_wrap:
  assumes "(a, n) \<in> set (stack_ranges crash rs own sp)"
  shows "no_wrap a n" and "a = sp" and "\<exists>ri. GetRegionInfoForAddress rs sp = Some ri \<and> a + n = vmaddr ri + vmsize ri"
proof -
  obtain ri where ri: "GetRegionInfoForAddress rs sp = Some ri" "a = sp" "n = vmaddr ri + vmsize ri - sp"
    using assms by (cases "GetRegionInfoForAddress rs sp") (auto simp: stack_ranges_def split: if_splits)
  have "sp \<le> vmaddr ri + vmsize ri" using region_contains [OF ri(1)] by (simp add: isInRegion_def)
  then have "unat sp + unat (vmaddr ri + vmsize ri - sp) = unat (vmaddr ri + vmsize ri)"
    by (simp add: unat_sub word_le_nat_alt)
  then show "no_wrap a n" using unsigned_less [where 'a = nat, of "vmaddr ri + vmsize ri"] ri(2,3)
    by (simp add: no_wrap_def)
  show "a = sp" and "\<exists>ri. GetRegionInfoForAddress rs sp = Some ri \<and> a + n = vmaddr ri + vmsize ri"
    using ri by simp_all
qed

lemma requests_no_wrap:
  assumes "no_edge_addresses E K crash rs ms threads"
  shows "\<forall>(a, n) \<in> set (all_requests E K crash rs ms threads). no_wrap a n"
proof -
  have "no_wrap a n" if p: "p \<in> set threads" and an: "(a, n) \<in> set (thread_request E K crash rs ms p)" for p a n
  proof -
    obtain ts es where r: "thread_registers K crash p = Some (ts, es)"
      using an by (cases "thread_registers K crash p") (auto simp: thread_request_def)
    then have edge: "UINT64_MAX - 256 \<notin> set (call_stack E K rs ms ts es)"
      using assms p by (auto simp: no_edge_addresses_def list_all_iff)
    from an r consider "(a, n) \<in> set (code_ranges (call_stack E K rs ms ts es))"
      | "(a, n) \<in> set (stack_ranges crash rs (p = mach_thread_self K) (stack_pointer (gpr_of E ts)))"
      by (auto simp: thread_request_def)
    then show ?thesis
    proof cases
      case 1
      then show ?thesis using edge code_range_no_wrap(1) by (auto simp: code_ranges_def)
    next
      case 2
      then show ?thesis by (rule stack_range_no_wrap(1))
    qed
  qed
  then show ?thesis by (auto simp: all_requests_def)
qed

subsection \<open>The step returns\<close>

text \<open>With memory for every allocation, the step can only be kept by a walk that does not return.\<close>

definition walks_return ::
  "dump_env \<Rightarrow> 'z dump_kernel_scheme \<Rightarrow> CrashContext option \<Rightarrow> MemoryRegions \<Rightarrow> ModuleInfos \<Rightarrow> port list \<Rightarrow> bool"
where
  "walks_return E K crash rs ms threads \<longleftrightarrow>
     list_all (\<lambda>p. case thread_registers K crash p of
       None \<Rightarrow> True
     | Some (ts, es) \<Rightarrow> \<not> isl
         (WalkStack (env_config E) K (env_unwind E) (env_xpaci E) (env_junk E) rs ms (gpr_of E ts) (exc_of E es))) threads"

lemma add_thread_returns:
  assumes "walks_return E K crash rs ms [p]" and "\<forall>n. malloc_ok K n" and "length (env_junk E) = 8"
    and "same_modules ms (td_modules d)"
  shows "\<exists>d'. add_thread E K crash rs own p d = Inr d'"
proof (cases "thread_registers K crash p")
  case None
  then show ?thesis by (simp add: add_thread_def)
next
  case (Some r)
  obtain ts es where r: "r = (ts, es)" by (cases r)
  have m: "malloc_ok K n" for n using assms(2) by blast
  obtain ips where "WalkStack (env_config E) K (env_unwind E) (env_xpaci E) (env_junk E) rs ms (gpr_of E ts) (exc_of E es) = Inr ips"
    using assms(1) Some r
    by (cases "WalkStack (env_config E) K (env_unwind E) (env_xpaci E) (env_junk E) rs ms (gpr_of E ts) (exc_of E es)")
      (auto simp: walks_return_def)
  then have walk: "WalkStack (env_config E) K (env_unwind E) (env_xpaci E) (env_junk E) rs (td_modules d)
      (make_GPR (target (env_config E)) ts) (make_EXC (target (env_config E)) es) = Inr ips"
    by (simp add: WalkStack_same [OF assms(4)] gpr_of_def exc_of_def)
  show ?thesis
    by (simp add: add_thread_def Some r Let_def AddThreadCommand_def MakeUniqueArrayAligned_def m push_back_def
        walk registers(3) [OF m assms(3)])
qed

lemma threads_return:
  assumes "walks_return E K crash rs ms ps" and "\<forall>n. malloc_ok K n" and "length (env_junk E) = 8"
    and "same_modules ms (td_modules d)" and "typed_states E K crash"
  shows "\<exists>d'. rfold (\<lambda>r. add_thread E K crash rs (mach_thread_self K) (PortRef.Get r)) (map (\<lambda>p. Wrap p self) ps) d = Inr d'"
  using assms(1,4)
proof (induction ps arbitrary: d)
  case (Cons p ps)
  have "walks_return E K crash rs ms [p]" using Cons.prems(1) by (simp add: walks_return_def)
  from add_thread_returns [OF this assms(2,3) Cons.prems(2)] obtain d1 where
    d1: "add_thread E K crash rs (mach_thread_self K) p d = Inr d1" by blast
  have "walks_return E K crash rs ms ps" using Cons.prems(1) by (simp add: walks_return_def)
  moreover have "same_modules ms (td_modules d1)"
    using add_thread_effect [OF d1 Cons.prems(2) assms(3,5)] by blast
  ultimately obtain d' where "rfold (\<lambda>r. add_thread E K crash rs (mach_thread_self K) (PortRef.Get r)) (map (\<lambda>p. Wrap p self) ps) d1 = Inr d'"
    using Cons.IH by blast
  then show ?case using d1 by simp
qed simp

lemma add_segments_return:
  assumes "\<forall>n. malloc_ok K n"
  shows "\<exists>b'. add_segments K m b = Inr b'"
proof -
  have "\<exists>b'. rfold (\<lambda>(start, len) b. rbind (AddSegmentCommandFromProcessMemory K start len b) (\<lambda>(_, b). Inr b)) rs b = Inr b'" for rs
  proof (induction rs arbitrary: b)
    case (Cons r rs)
    have "\<exists>ok b1. AddSegmentCommandFromProcessMemory K (fst r) (snd r) b = Inr (ok, b1)"
      using assms by (auto simp: AddSegmentCommandFromProcessMemory_def AddSegmentCommandFromProcessMemoryProt_def
          zone_new_def split: option.split)
    with Cons.IH show ?case by (cases r) auto
  qed simp
  then show ?thesis by (simp add: add_segments_def)
qed

lemma AddThreadsToCore_returns:
  assumes "task_threads K (tr @ [SendRight (mach_thread_self K)]) = Some threads"
    and "new_MemoryRegionList K (env_tags E) = Some rs" and "walks_return E K crash rs ms threads"
    and "\<forall>n. malloc_ok K n" and "length (env_junk E) = 8" and "typed_states E K crash"
  shows "\<exists>b' ms' ids' tr'. AddThreadsToCore E K crash b ms ids tr = (Inr (True, b', ms', ids'), tr')"
proof -
  let ?refs = "map (\<lambda>p. Wrap p (mach_task_self K)) threads"
  let ?d = "\<lparr>td_builder = b, td_modules = ms, td_ids = [], td_ranges = []\<rparr>"
  have "same_modules ms (td_modules ?d)" by simp
  from threads_return [OF assms(3-5) this assms(6)] obtain d where
    "rfold (\<lambda>r. add_thread E K crash rs (mach_thread_self K) (PortRef.Get r)) ?refs ?d = Inr d" by blast
  moreover obtain b' where "add_segments K (td_ranges d) (td_builder d) = Inr b'"
    using add_segments_return [OF assms(4)] by blast
  moreover have "reserve K 8 (length threads) = Inr ()" using assms(4) by (simp add: reserve_def)
  ultimately show ?thesis by (simp add: AddThreadsToCore_def Let_def assms(1,2) leave_def)
qed

subsection \<open>A concrete task\<close>

text \<open>
  The stack of \<open>StackWalk\<close>, as the memory of a task without images; its threads are 5, which asks
  for the dump, 7, and 9, which has ended.
\<close>

definition demo_live_state :: thread_state where
  "demo_live_state = ArmTS
     \<lparr>arm_x = replicate 29 0, arm_fp = 0x2000, arm_lr = 0x7777, arm_sp = 0x2000, arm_pc = 0x2024, arm_cpsr = 0,
      arm_flags = 0\<rparr>"

definition demo_live_kernel :: dump_kernel where
  "demo_live_kernel = dyld_kernel.extend
     (mem_kernel.extend (demo_stack_kernel\<lparr>short_protection := (\<lambda>a s. Some 3)\<rparr>) \<lparr>task_dyld_info = None\<rparr>)
     \<lparr>pid_for_task_ok = True, mach_task_self = 1, task_suspend_ok = True, mach_thread_self = 5,
      task_threads = (\<lambda>tr. Some [5, 7, 9]), thread_suspend_ok = (\<lambda>tr p. p \<noteq> 9),
      thread_identifier = (\<lambda>p. Some (ucast p)),
      thread_get_gpr = (\<lambda>p. if p = 9 then None else Some demo_live_state),
      thread_get_exc = (\<lambda>p. Some (ArmES \<lparr>arm_far = 0, arm_esr = 0, arm_exception = 0\<rparr>)),
      virtual_address_size = Some 47, cpu_address_bits_virtual = None\<rparr>"

definition demo_live_env :: dump_env where
  "demo_live_env = demo_env\<lparr>env_junk := replicate 8 1, env_xpaci := (\<lambda>p. p AND 0xFFFF)\<rparr>"

definition demo_regions :: MemoryRegions where
  "demo_regions = [(0x2000, \<lparr>vmaddr = 0x2000, vmsize = 0x24, prot = 3, rtype = Stack\<rparr>),
     (0x2024, \<lparr>vmaddr = 0x2024, vmsize = 0x24, prot = 3, rtype = Stack\<rparr>)]"

lemma demo_live_regions: "new_MemoryRegionList demo_live_kernel (env_tags demo_live_env) = Some demo_regions"
  by code_simp

lemma demo_requests:
  "memory_ranges demo_live_env demo_live_kernel None demo_regions [] [5, 7, 9] =
     [(0x1011, 0x201), (0x1F24, 0x201), (0x7677, 0x201)]"
  by code_simp

lemma demo_walks: "walks_return demo_live_env demo_live_kernel None demo_regions [] [5, 7, 9]"
  by code_simp

lemma demo_live_typed: "typed_states demo_live_env demo_live_kernel None"
  by (auto simp: typed_states_def thread_registers_def demo_live_env_def demo_env_def demo_config_def
      demo_live_kernel_def dyld_kernel.defs mem_kernel.defs demo_stack_kernel_def flat_kernel_def demo_live_state_def
      split: if_splits)

lemma demo_live_fields:
  "task_threads demo_live_kernel tr = Some [5, 7, 9]" "malloc_ok demo_live_kernel n" "length (env_junk demo_live_env) = 8"
  "env_config demo_live_env = demo_config" "mach_thread_self demo_live_kernel = 5"
  by (simp_all add: demo_live_kernel_def dyld_kernel.defs mem_kernel.defs demo_stack_kernel_def flat_kernel_def
      demo_live_env_def demo_env_def)

subsection \<open>Properties\<close>

text \<open>C15. The step over the threads returns and adds, in the order of the kernel's list, one command
  with the registers of every thread whose registers are known (from the crash context for the
  thread that crashed), the identifiers of exactly these threads, a segment for every merged range
  of memory they need whose protection is known, and the marks of the modules their call stacks
  run through.\<close>

theorem threads_become_commands:
  assumes "task_threads K (tr @ [SendRight (mach_thread_self K)]) = Some threads"
    and "new_MemoryRegionList K (env_tags E) = Some rs" and "walks_return E K crash rs ms threads"
    and "\<forall>n. malloc_ok K n" and "length (env_junk E) = 8" and "typed_states E K crash" and "\<not> finalized b"
  shows "\<exists>tr'. AddThreadsToCore E K crash b ms ids tr =
    (Inr (True,
       b\<lparr>thread_cmds := thread_cmds b @ map (thread_command E K crash) (filter (captured K crash) threads),
         segment_cmds := segment_cmds b @ map (process_segment K)
           (filter (protection_known K) (memory_ranges E K crash rs ms threads))\<rparr>,
       mark_modules (concat (map (thread_ips E K crash rs ms) threads)) ms,
       map (thread_tid K) (filter (captured K crash) threads)), tr')"
proof -
  obtain b' ms' ids' tr' where add: "AddThreadsToCore E K crash b ms ids tr = (Inr (True, b', ms', ids'), tr')"
    using AddThreadsToCore_returns [OF assms(1-6)] by blast
  show ?thesis using AddThreadsToCore_effect [OF add assms(1,2,7,5,6)] add by auto
qed

lemma threads_become_commands_witness:
  "\<exists>b' ms' tr'. AddThreadsToCore demo_live_env demo_live_kernel None (new_MachOCoreDumpBuilder demo_config) [] [] [] =
     (Inr (True, b', ms', [5, 7]), tr') \<and> length (thread_cmds b') = 2 \<and>
     map (sc_vmaddr \<circ> fst) (segment_cmds b') = [0x1011, 0x1F24, 0x7677]"
proof -
  have live: "filter (captured demo_live_kernel None) [5, 7, 9] = [5, 7]"
    and tids: "map (thread_tid demo_live_kernel) [5, 7] = [5, 7]"
    and known: "filter (protection_known demo_live_kernel) [(0x1011, 0x201), (0x1F24, 0x201), (0x7677, 0x201)] =
      [(0x1011, 0x201), (0x1F24, 0x201), (0x7677, 0x201)]"
    by code_simp+
  have new: "\<not> finalized (new_MachOCoreDumpBuilder demo_config)" "thread_cmds (new_MachOCoreDumpBuilder demo_config) = []"
    "segment_cmds (new_MachOCoreDumpBuilder demo_config) = []"
    by (simp_all add: new_MachOCoreDumpBuilder_def)
  have m: "\<forall>n. malloc_ok demo_live_kernel n" by (simp add: demo_live_fields)
  note become = threads_become_commands [OF demo_live_fields(1) demo_live_regions demo_walks m demo_live_fields(3)
      demo_live_typed new(1), of "[]" "[]", unfolded live tids demo_requests known]
  have "sc_vmaddr (fst (process_segment demo_live_kernel r)) = fst r" for r
    by (simp add: process_segment_def Let_def case_prod_beta)
  with become show ?thesis by (auto simp: new)
qed

text \<open>C5. Everything a debugger needs to walk the stacks is in the core: for every captured thread the 256
  bytes before and behind each address of its call stack, and its stack from the stack pointer to
  the end of its region, unless it is the thread that makes the dump of its own task without a
  crash context. The segments hold exactly these bytes; none is empty and no two overlap or touch.\<close>

theorem dump_covers_stacks_and_code:
  assumes "AddThreadsToCore E K crash b ms ids tr = (Inr (True, b', ms', ids'), tr')"
    and "task_threads K (tr @ [SendRight (mach_thread_self K)]) = Some threads"
    and "new_MemoryRegionList K (env_tags E) = Some rs"
    and "\<not> finalized b" and "segment_cmds b = []" and "length (env_junk E) = 8" and "typed_states E K crash"
    and "no_edge_addresses E K crash rs ms threads"
    and "list_all (protection_known K) (memory_ranges E K crash rs ms threads)"
  shows "(\<forall>p \<in> set threads. \<forall>ts es. thread_registers K crash p = Some (ts, es) \<longrightarrow>
      (\<forall>ip \<in> set (call_stack E K rs ms ts es). 256 \<le> ip \<and> ip \<le> UINT64_MAX - 256 \<longrightarrow>
         {ip - 256..ip + 256} \<subseteq> segment_bytes b') \<and>
      (\<forall>ri. GetRegionInfoForAddress rs (stack_pointer (gpr_of E ts)) = Some ri \<longrightarrow>
         p \<noteq> mach_thread_self K \<or> crash \<noteq> None \<longrightarrow>
         {stack_pointer (gpr_of E ts)..<vmaddr ri + vmsize ri} \<subseteq> segment_bytes b')) \<and>
    segment_bytes b' =
      (\<Union>(a, n) \<in> set (all_requests E K crash rs ms threads). {a..<a + n}) \<and>
    (\<forall>(sc, pr) \<in> set (segment_cmds b'). sc_filesize sc \<noteq> 0 \<and> no_wrap (sc_vmaddr sc) (sc_filesize sc)) \<and>
    sorted_wrt (\<lambda>(sc, pr) (sc', pr'). sc_vmaddr sc + sc_filesize sc < sc_vmaddr sc') (segment_cmds b')"
proof -
  let ?req = "all_requests E K crash rs ms threads" and ?rs = "memory_ranges E K crash rs ms threads"
  let ?cov = "\<Union>(a, n) \<in> set ?req. {a..<a + n}"
  have segs: "segment_cmds b' = map (process_segment K) ?rs"
    using AddThreadsToCore_effect [OF assms(1-4,6,7)] assms(5,9)
    by (simp add: list_all_iff filter_id_conv)
  have fields: "sc_vmaddr (fst (process_segment K r)) = fst r" "sc_filesize (fst (process_segment K r)) = snd r" for r
    by (simp_all add: process_segment_def Let_def case_prod_beta)
  note nw = requests_no_wrap [OF assms(8)]
  note ins = intervals.fold_insert_empty [OF nw, folded insert_ranges_def]
  note pieces = ForEach_ranges [OF ins(1), folded memory_ranges_def]
  have cov: "segment_bytes b' = ?cov"
    using pieces(2) ins(2) by (simp add: segment_bytes_def segs case_prod_beta fields)
  have sizes: "\<forall>(sc, pr) \<in> set (segment_cmds b'). sc_filesize sc \<noteq> 0 \<and> no_wrap (sc_vmaddr sc) (sc_filesize sc)"
    using pieces(1) by (auto simp: segs case_prod_beta fields)
  have sorted: "sorted_wrt (\<lambda>(sc, pr) (sc', pr'). sc_vmaddr sc + sc_filesize sc < sc_vmaddr sc') (segment_cmds b')"
    using pieces(3) by (simp add: segs sorted_wrt_map case_prod_unfold fields)
  have request: "{a..<a + n} \<subseteq> ?cov" if "p \<in> set threads" "(a, n) \<in> set (thread_request E K crash rs ms p)" for p a n
    using that by (auto simp: all_requests_def)
  have code: "{ip - 256..ip + 256} \<subseteq> ?cov"
    if p: "p \<in> set threads" and r: "thread_registers K crash p = Some (ts, es)"
      and ip: "ip \<in> set (call_stack E K rs ms ts es)" "256 \<le> ip" "ip \<le> UINT64_MAX - 256" for p ts es ip
  proof -
    have "ip \<noteq> UINT64_MAX - 256"
      using assms(8) p r ip(1) by (auto simp: no_edge_addresses_def list_all_iff)
    then have "{ip - 256..<ip - 256 + 513} = {ip - 256..ip + 256}" by (rule code_range_no_wrap(2) [OF ip(2,3)])
    moreover have "(ip - 256, 513) \<in> set (thread_request E K crash rs ms p)"
      using ip by (auto simp: thread_request_def r code_ranges_def)
    ultimately show ?thesis using request [OF p] by blast
  qed
  have stack: "{stack_pointer (gpr_of E ts)..<vmaddr ri + vmsize ri} \<subseteq> ?cov"
    if p: "p \<in> set threads" and r: "thread_registers K crash p = Some (ts, es)"
      and ri: "GetRegionInfoForAddress rs (stack_pointer (gpr_of E ts)) = Some ri"
      and own: "p \<noteq> mach_thread_self K \<or> crash \<noteq> None" for p ts es ri
  proof -
    let ?sp = "stack_pointer (gpr_of E ts)"
    have "(?sp, vmaddr ri + vmsize ri - ?sp) \<in> set (thread_request E K crash rs ms p)"
      using own by (auto simp: thread_request_def r stack_ranges_def ri)
    from request [OF p this] show ?thesis by simp
  qed
  show ?thesis unfolding cov
    by (intro conjI sizes sorted refl ballI allI impI; (rule code | rule stack)) simp_all
qed

lemma dump_covers_stacks_and_code_witness:
  "\<exists>b' ms' ids' tr'. AddThreadsToCore demo_live_env demo_live_kernel None (new_MachOCoreDumpBuilder demo_config) [] [] [] =
     (Inr (True, b', ms', ids'), tr') \<and>
   {0x1011..0x1211} \<subseteq> segment_bytes b' \<and>
   {0x2000..<0x2024} \<subseteq> segment_bytes b'"
proof -
  have m: "\<forall>n. malloc_ok demo_live_kernel n" by (simp add: demo_live_fields)
  obtain b' ms' ids' tr' where add:
    "AddThreadsToCore demo_live_env demo_live_kernel None (new_MachOCoreDumpBuilder demo_config) [] [] [] =
       (Inr (True, b', ms', ids'), tr')"
    using AddThreadsToCore_returns [OF demo_live_fields(1) demo_live_regions demo_walks m demo_live_fields(3) demo_live_typed]
    by blast
  have new: "\<not> finalized (new_MachOCoreDumpBuilder demo_config)" "segment_cmds (new_MachOCoreDumpBuilder demo_config) = []"
    by (simp_all add: new_MachOCoreDumpBuilder_def)
  let ?es = "ArmES \<lparr>arm_far = 0, arm_esr = 0, arm_exception = 0\<rparr>"
  have edge: "no_edge_addresses demo_live_env demo_live_kernel None demo_regions [] [5, 7, 9]"
    and known: "list_all (protection_known demo_live_kernel)
      (memory_ranges demo_live_env demo_live_kernel None demo_regions [] [5, 7, 9])"
    and regs: "thread_registers demo_live_kernel None 7 = Some (demo_live_state, ?es)"
    and ips: "call_stack demo_live_env demo_live_kernel demo_regions [] demo_live_state ?es = [0x2024, 0x7777, 0x1111]"
    and sp: "stack_pointer (gpr_of demo_live_env demo_live_state) = 0x2000"
    and region: "GetRegionInfoForAddress demo_regions 0x2000 =
      Some \<lparr>vmaddr = 0x2000, vmsize = 0x24, prot = 3, rtype = Stack\<rparr>"
    by code_simp+
  note cover = dump_covers_stacks_and_code [OF add demo_live_fields(1) demo_live_regions new demo_live_fields(3)
      demo_live_typed edge known, THEN conjunct1, THEN bspec, of 7, simplified, rule_format, OF regs]
  have "{0x1111 - 256..0x1111 + 256} \<subseteq> segment_bytes b'"
    using cover [THEN conjunct1] by (simp add: ips UINT64_MAX_def)
  moreover have "{0x2000..<0x2024} \<subseteq> segment_bytes b'"
    using cover [THEN conjunct2] by (simp add: sp region demo_live_fields)
  ultimately show ?thesis using add by simp
qed

text \<open>C36. The guard against overflow lets one return address pass whose range ends where the address
  space does, so that its end is kept as 0. No interval is ever merged with such a range: all
  others stay as they are, also those that overlap it, and the bytes that they share are handed
  out twice.\<close>

theorem edge_address_range_not_merged:
  assumes "separated (td_ranges d)" and "0 \<notin> fst ` set (td_ranges d)"
  shows "set (ForEach (td_ranges (add_ip (UINT64_MAX - SurroundingsRange) d))) =
    insert (UINT64_MAX - 512, 513) {q \<in> set (ForEach (td_ranges d)). fst q \<noteq> UINT64_MAX - 512}"
proof -
  let ?m = "td_ranges d" and ?start = "UINT64_MAX - 512"
  have "\<not> (it < length ?m \<and> fst (?m ! it) \<le> 0)" for it
    using assms(2) by (force simp: word_le_0_iff)
  then have loop: "merge_loop ?m it ?start 0 = (?m, ?start, 0)" for it
    by (subst merge_loop.simps) auto
  have "td_ranges (add_ip (UINT64_MAX - SurroundingsRange) d) = InsertAndMergeIfNeeded ?start 513 ?m"
    by (simp add: add_ip_def UINT64_MAX_def SurroundingsRange_def)
  moreover have "?start + 513 = 0" by (simp add: UINT64_MAX_def)
  ultimately have "td_ranges (add_ip (UINT64_MAX - SurroundingsRange) d) = map_assign ?start 0 ?m"
    using loop by (simp add: InsertAndMergeIfNeeded_def Let_def)
  moreover have "0 - ?start = 513" by (simp add: UINT64_MAX_def)
  ultimately show ?thesis
    using set_map_assign [OF separated_sorted_keys [OF assms(1)], of ?start 0] by (force simp: ForEach_def)
qed

definition demo_found :: thread_data where
  "demo_found = \<lparr>td_builder = new_MachOCoreDumpBuilder demo_config, td_modules = [], td_ids = [],
     td_ranges = [(UINT64_MAX - 999, UINT64_MAX - 300)]\<rparr>"

lemma edge_address_range_not_merged_witness:
  "set (ForEach (td_ranges (add_ip (UINT64_MAX - SurroundingsRange) demo_found))) =
     {(UINT64_MAX - 512, 513), (UINT64_MAX - 999, 699)}"
  using edge_address_range_not_merged [of demo_found]
  by (auto simp: separated_def demo_found_def ForEach_def UINT64_MAX_def)

end
