(* ===== verification/DumpFile.thy ===== *)
theory DumpFile
  imports DumpThreads CoreContents
begin

text \<open>
  From the builder with its threads and segments to the file: the four notes, their payloads, the
  offsets, and \<open>Build\<close>. The properties at the end follow a request for a dump all the way to the
  bytes in the file.
\<close>

subsection \<open>The four notes\<close>

text \<open>A note with its payload, if it has it already.\<close>

definition payload_note :: "bytes \<Rightarrow> bytes option \<Rightarrow> note_entry" where
  "payload_note owner d =
     (\<lparr>nc_cmd = LC_NOTE, nc_cmdsize = 40, data_owner = owner @ replicate (16 - length owner) 0, nc_offset = 0,
       nc_size = (case d of None \<Rightarrow> 0 | Some d \<Rightarrow> of_nat (length d))\<rparr>,
      map_option (\<lambda>d. \<lparr>dp_size = of_nat (length d), dp_ptr = CopiedDataPtr d\<rparr>) d)"

definition four_notes :: "bytes option \<Rightarrow> bytes option \<Rightarrow> bytes option \<Rightarrow> bytes option \<Rightarrow> note_entry list" where
  "four_notes a i m p =
     [payload_note AddrableBitsOwner a, payload_note AllImageInfosOwner i, payload_note MainBinSpecOwner m,
      payload_note ProcessMetadataOwner p]"

definition owners :: "bytes list" where
  "owners = [AddrableBitsOwner, AllImageInfosOwner, MainBinSpecOwner, ProcessMetadataOwner]"

lemma owners_are_names:
  "list_all (\<lambda>ow. 0 \<notin> set ow \<and> length ow \<le> 16) owners" "distinct owners"
  by code_simp+

lemma owners_differ [simp]:
  "AddrableBitsOwner \<noteq> AllImageInfosOwner" "AddrableBitsOwner \<noteq> MainBinSpecOwner" "AddrableBitsOwner \<noteq> ProcessMetadataOwner"
  "AllImageInfosOwner \<noteq> MainBinSpecOwner" "AllImageInfosOwner \<noteq> ProcessMetadataOwner"
  "MainBinSpecOwner \<noteq> ProcessMetadataOwner"
  using owners_are_names(2) by (simp_all add: owners_def)

lemma owner_of_note:
  assumes "ow \<in> set owners"
  shows "takeWhile (\<lambda>b. b \<noteq> 0) (owner_memory (fst (payload_note ow d))) = ow"
    and "0 \<in> set (owner_memory (fst (payload_note ow d)))"
    and "takeWhile (\<lambda>b. b \<noteq> 0) (data_owner (fst (payload_note ow d))) = ow"
proof -
  have ow: "0 \<notin> set ow" using owners_are_names(1) assms by (auto simp: list_all_iff)
  have z: "le64 0 = replicate 8 0" by code_simp
  have app: "takeWhile (\<lambda>b. b \<noteq> 0) (ow @ ys) = ow @ takeWhile (\<lambda>b. b \<noteq> 0) ys" for ys :: bytes
    using ow by (intro takeWhile_append2) auto
  have rep: "takeWhile (\<lambda>b. b \<noteq> 0) (replicate n 0 @ replicate 8 0 @ r) = ([] :: bytes)" for n r
    by (cases n) (simp_all add: numeral_eq_Suc)
  show "takeWhile (\<lambda>b. b \<noteq> 0) (owner_memory (fst (payload_note ow d))) = ow"
    by (simp add: owner_memory_def payload_note_def app z rep)
  show "0 \<in> set (owner_memory (fst (payload_note ow d)))"
    by (simp add: owner_memory_def payload_note_def z)
  show "takeWhile (\<lambda>b. b \<noteq> 0) (data_owner (fst (payload_note ow d))) = ow"
    by (simp add: payload_note_def app)
qed

lemma strcmp_owner:
  assumes "ow \<in> set owners" and "ow' \<in> set owners"
  shows "strcmp_is_0 (owner_memory (fst (payload_note ow d))) (ow' @ [0]) = Inr (ow = ow')"
    and "strcmp_is_0 (ow' @ [0]) (owner_memory (fst (payload_note ow d))) = Inr (ow' = ow)"
proof -
  have "0 \<notin> set ow'" using owners_are_names(1) assms(2) by (auto simp: list_all_iff)
  then have t: "takeWhile (\<lambda>b. b \<noteq> 0) (ow' @ [0]) = ow'" by (subst takeWhile_append2) auto
  show "strcmp_is_0 (owner_memory (fst (payload_note ow d))) (ow' @ [0]) = Inr (ow = ow')"
    "strcmp_is_0 (ow' @ [0]) (owner_memory (fst (payload_note ow d))) = Inr (ow' = ow)"
    using strcmp_eq_takeWhile [OF owner_of_note(2) [OF assms(1)], of "ow' @ [0]" d]
      strcmp_eq_takeWhile [OF _ owner_of_note(2) [OF assms(1)], of "ow' @ [0]" d]
    by (simp_all add: strcmp_is_0_def t owner_of_note(1) [OF assms(1)])
qed

lemma owners_members [simp]:
  "AddrableBitsOwner \<in> set owners" "AllImageInfosOwner \<in> set owners" "MainBinSpecOwner \<in> set owners"
  "ProcessMetadataOwner \<in> set owners"
  by (simp_all add: owners_def)

lemma AddNotesToCore_notes:
  assumes "\<not> finalized b"
  shows "AddNotesToCore b = (True, b\<lparr>note_cmds := note_cmds b @ four_notes None None None None\<rparr>)"
proof -
  have "snd (AddNoteCommand ow None b) = b\<lparr>note_cmds := note_cmds b @ [payload_note ow None]\<rparr>"
    if "\<not> finalized b" "ow \<in> set owners" for ow b
    using that owners_are_names(1)
    by (auto simp: AddNoteCommand_def Let_def payload_note_def sizeofs list_all_iff)
  then show ?thesis using assms by (simp add: AddNotesToCore_def Let_def four_notes_def)
qed

subsection \<open>Payloads\<close>

lemma provider_of_payload:
  assumes "\<forall>n. malloc_ok K n" and "length d < 2 ^ 64"
  shows "provider_of_copy K d (of_nat (length d)) = Inr \<lparr>dp_size = of_nat (length d), dp_ptr = CopiedDataPtr d\<rparr>"
  using assms by (simp add: provider_of_copy_def new_CopiedDataPtr_def MakeUniqueArray_def unat_of_nat_small
      read_at_def chunk_def)

lemma find_note_found:
  assumes "strcmp_is_0 (owner_memory (fst nc)) (ow @ [0]) = Inr True"
    and "\<forall>nc \<in> set pre. strcmp_is_0 (owner_memory (fst nc)) (ow @ [0]) = Inr False"
  shows "find_note (ow @ [0]) (pre @ nc # post) i = Inr (Some (i + length pre))"
  using assms by (induction pre arbitrary: i) simp_all

text \<open>The payload goes into the first note with that owner.\<close>

lemma add_payload_note:
  assumes "note_cmds b = pre @ payload_note ow None # post" and "ow \<in> set owners"
    and "\<forall>nc \<in> set pre. strcmp_is_0 (owner_memory (fst nc)) (ow @ [0]) = Inr False"
    and "\<forall>n. malloc_ok K n" and "length d < 2 ^ 64"
  shows "add_payload E K ow d b = Inr (b\<lparr>note_cmds := pre @ payload_note ow (Some d) # post\<rparr>)"
proof -
  have "find_note (ow @ [0]) (pre @ payload_note ow None # post) 0 = Inr (Some (0 + length pre))"
    using assms(2,3) by (intro find_note_found) (simp_all add: strcmp_owner)
  then show ?thesis
    using assms(4)
    by (simp add: add_payload_def zone_new_def provider_of_payload [OF assms(4,5)]
        AddDataProviderForNoteCommand_def assms(1) list_update_append payload_note_def)
qed

lemma add_payloads:
  assumes m: "\<forall>n. malloc_ok K n" and d: "length d < 2 ^ 64"
  shows "note_cmds b = four_notes None i s p \<Longrightarrow>
      add_payload E K AddrableBitsOwner d b = Inr (b\<lparr>note_cmds := four_notes (Some d) i s p\<rparr>)"
    and "note_cmds b = four_notes a None s p \<Longrightarrow>
      add_payload E K AllImageInfosOwner d b = Inr (b\<lparr>note_cmds := four_notes a (Some d) s p\<rparr>)"
    and "note_cmds b = four_notes a i None p \<Longrightarrow>
      add_payload E K MainBinSpecOwner d b = Inr (b\<lparr>note_cmds := four_notes a i (Some d) p\<rparr>)"
    and "note_cmds b = four_notes a i s None \<Longrightarrow>
      add_payload E K ProcessMetadataOwner d b = Inr (b\<lparr>note_cmds := four_notes a i s (Some d)\<rparr>)"
proof -
  let ?A = "payload_note AddrableBitsOwner a" and ?I = "payload_note AllImageInfosOwner i"
    and ?S = "payload_note MainBinSpecOwner s"
  show "note_cmds b = four_notes None i s p \<Longrightarrow>
      add_payload E K AddrableBitsOwner d b = Inr (b\<lparr>note_cmds := four_notes (Some d) i s p\<rparr>)"
    by (rule trans [OF add_payload_note [OF _ _ _ m d, where pre = "[]"]]) (auto simp: four_notes_def)
  show "note_cmds b = four_notes a None s p \<Longrightarrow>
      add_payload E K AllImageInfosOwner d b = Inr (b\<lparr>note_cmds := four_notes a (Some d) s p\<rparr>)"
    by (rule trans [OF add_payload_note [OF _ _ _ m d, where pre = "[?A]"]]) (auto simp: four_notes_def strcmp_owner)
  show "note_cmds b = four_notes a i None p \<Longrightarrow>
      add_payload E K MainBinSpecOwner d b = Inr (b\<lparr>note_cmds := four_notes a i (Some d) p\<rparr>)"
    by (rule trans [OF add_payload_note [OF _ _ _ m d, where pre = "[?A, ?I]"]]) (auto simp: four_notes_def strcmp_owner)
  show "note_cmds b = four_notes a i s None \<Longrightarrow>
      add_payload E K ProcessMetadataOwner d b = Inr (b\<lparr>note_cmds := four_notes a i s (Some d)\<rparr>)"
    by (rule trans [OF add_payload_note [OF _ _ _ m d, where pre = "[?A, ?I, ?S]"]]) (auto simp: four_notes_def strcmp_owner)
qed

subsection \<open>The offset of the image list\<close>

definition with_notes :: "bytes option \<Rightarrow> bytes option \<Rightarrow> bytes option \<Rightarrow> bytes option \<Rightarrow> builder \<Rightarrow> builder" where
  "with_notes a i m p b = b\<lparr>note_cmds := four_notes a i m p\<rparr>"

text \<open>Where the payloads start: behind the four notes, the threads and the segments of \<open>b\<close>.\<close>

definition payloads_start :: "builder \<Rightarrow> nat" where
  "payloads_start b =
     round_up (32 + 160 + sum_list (map length (thread_cmds b)) + 72 * length (segment_cmds b)) 16"

lemma with_notes_fields [simp]:
  "note_cmds (with_notes a i m p b) = four_notes a i m p" "thread_cmds (with_notes a i m p b) = thread_cmds b"
  "segment_cmds (with_notes a i m p b) = segment_cmds b" "finalized (with_notes a i m p b) = finalized b"
  "writtenRanges (with_notes a i m p b) = writtenRanges b" "header (with_notes a i m p b) = header b"
  by (simp_all add: with_notes_def)

lemma with_notes_sizes:
  "commands_size (with_notes a i m p b) =
     160 + sum_list (map length (thread_cmds b)) + 72 * length (segment_cmds b)"
  "notes_start (with_notes a i m p b) = payloads_start b"
  by (simp_all add: commands_size_def notes_start_def payloads_start_def four_notes_def add.assoc)

lemma finalize_with_notes:
  "(FinalizeLoadCommands (with_notes a i m p b))\<lparr>note_cmds := four_notes a' i' m' p'\<rparr> =
   FinalizeLoadCommands (with_notes a' i' m' p' b)"
  by (simp add: with_notes_def FinalizeLoadCommands_def sizes_of_commands_def four_notes_def payload_note_def)

lemma four_notes_ok: "\<forall>nc \<in> set (four_notes a i m p). note_ok nc"
  using owners_are_names(1) by (simp add: four_notes_def note_ok_def payload_note_def owners_def list_all_iff)

lemma with_notes_structured: "structured b \<Longrightarrow> structured (with_notes a i m p b)"
  using four_notes_ok [of a i m p] by (simp add: structured_iff)

lemma offset_of_image_infos:
  assumes "structured b" and "\<not> finalized b" and "payloads_start b < 2 ^ 32" and "length a = 16"
  shows "GetOffsetForNoteCommandPayload cfg (AllImageInfosOwner @ [0]) (FinalizeLoadCommands (with_notes (Some a) i m p b)) =
    Inr (Some (of_nat (payloads_start b + 16)))"
proof -
  let ?b = "with_notes (Some a) i m p b"
  have small: "32 + commands_size ?b \<le> payloads_start b"
    using round_up_ge [of 16 "32 + commands_size ?b"] by (simp add: with_notes_sizes payloads_start_def add.assoc)
  then have "commands_size ?b < 2 ^ 32" using assms(3) by simp
  then have size: "sizeofcmds (header (FinalizeLoadCommands ?b)) = of_nat (commands_size ?b)"
      "unat (sizeofcmds (header (FinalizeLoadCommands ?b))) = commands_size ?b"
    using Finalize_sizeofcmds [of ?b] with_notes_structured [OF assms(1)] assms(2) by simp_all
  have "(of_nat sizeof_mach_header_64 + ucast (sizeofcmds (header (FinalizeLoadCommands ?b))) :: u64) =
      of_nat (32 + commands_size ?b)"
    using \<open>commands_size ?b < 2 ^ 32\<close>
    by (simp add: size(1) sizeofs unsigned_of_nat take_bit_nat_eq_self unsigned_ucast_eq)
  moreover have "RoundUp (of_nat (32 + commands_size ?b)) 16 = Inr (of_nat (payloads_start b))"
    using RoundUp_of_nat [of "32 + commands_size ?b" 16] small assms(3) with_notes_sizes(2) [of "Some a" i m p b]
    by (simp add: notes_start_def)
  ultimately show ?thesis
    using assms(4)
    by (simp add: GetOffsetForNoteCommandPayload_def Let_def four_notes_def strcmp_owner owners_differ [symmetric])
      (simp add: payload_note_def)
qed

subsection \<open>The offsets of the segments, and the file\<close>

lemma rfold_returns:
  assumes "\<And>x s. x \<in> set xs \<Longrightarrow> P s \<Longrightarrow> \<exists>t. f x s = Inr t \<and> P t" and "P s"
  shows "\<exists>t. rfold f xs s = Inr t \<and> P t"
  using assms
proof (induction xs arbitrary: s)
  case (Cons x xs)
  then obtain t where "f x s = Inr t" "P t" by fastforce
  with Cons show ?case by fastforce
qed simp

lemma update_segment_offset_step:
  assumes "ready K b0 ns ss" and "building b0 b" and "i < length (segment_cmds b0)"
  shows "\<exists>b'. update_segment_offset cfg i b = Inr b' \<and> building b0 b' \<and> writtenRanges b' = writtenRanges b"
proof -
  let ?b = "set_segment_offset i (Some (of_nat (segment_off b0 i))) b"
  have "i < length (segment_cmds b)" using building_segment(2) [OF assms(2,3)] assms(3) by simp
  then have "update_segment_offset cfg i b = Inr ?b"
    using segment_lookup [OF assms] by (simp add: update_segment_offset_def GetSegmentCommand_def)
  moreover have "writtenRanges ?b = writtenRanges b" by (simp add: set_segment_offset_def)
  ultimately show ?thesis using building_set_segment [OF assms(2,3)] by blast
qed

lemma segment_offsets_updated:
  assumes "ready K b0 ns ss"
  shows "\<exists>b'. rfold (update_segment_offset cfg)
      [0..<GetNumberOfSegmentCommands (FinalizeLoadCommands b0)] (FinalizeLoadCommands b0) = Inr b' \<and>
    building b0 b' \<and> writtenRanges b' = []"
proof (rule rfold_returns [where P = "\<lambda>b. building b0 b \<and> writtenRanges b = []"])
  show "\<exists>t. update_segment_offset cfg i b = Inr t \<and> building b0 t \<and> writtenRanges t = []"
    if "i \<in> set [0..<GetNumberOfSegmentCommands (FinalizeLoadCommands b0)]" "building b0 b \<and> writtenRanges b = []" for i b
    using update_segment_offset_step [OF assms, of b i cfg] that by (simp add: GetNumberOfSegmentCommands_def)
  show "building b0 (FinalizeLoadCommands b0) \<and> writtenRanges (FinalizeLoadCommands b0) = []"
    using assms by (simp add: building_def ready_def)
qed

text \<open>The payloads of a dump: what the notes hold when the file is written.\<close>

record dump_payloads =
  bits_payload :: bytes
  infos_payload :: bytes
  spec_payload :: bytes
  metadata_payload :: bytes

definition payload_list :: "dump_payloads \<Rightarrow> bytes list" where
  "payload_list P = [bits_payload P, infos_payload P, spec_payload P, metadata_payload P]"

definition core_builder :: "dump_payloads \<Rightarrow> builder \<Rightarrow> builder" where
  "core_builder P b =
     with_notes (Some (bits_payload P)) (Some (infos_payload P)) (Some (spec_payload P)) (Some (metadata_payload P)) b"

text \<open>The payloads that the code makes for these modules and threads, behind the load commands of \<open>b\<close>.\<close>

definition makes_payloads ::
  "dump_env \<Rightarrow> 'z dump_kernel_scheme \<Rightarrow> builder \<Rightarrow> ModuleInfos \<Rightarrow> u64 list \<Rightarrow> dump_payloads \<Rightarrow> bool"
where
  "makes_payloads E K b modules threadIds P \<longleftrightarrow>
     (\<exists>n spec. address_bits K = Some n \<and>
        bits_payload P = enc_AddrableBitsInfo \<lparr>ab_version = 3, nBits = n, ab_unused = 0\<rparr> \<and>
        CreateMainBinSpecPayload (env_config E) modules = Inr spec \<and> spec_payload P = enc_MainBinSpec spec) \<and>
     CreateAllImageInfosPayload (of_nat (payloads_start b + 16)) modules = Inr (infos_payload P) \<and>
     infos_payload P \<noteq> [] \<and> metadata_payload P = CreateProcessMetadataPayload threadIds"

text \<open>A builder with its threads and segments, no notes, and room for everything in the file.\<close>

definition threads_collected :: "'z mem_kernel_scheme \<Rightarrow> dump_payloads \<Rightarrow> builder \<Rightarrow> bytes list \<Rightarrow> bool" where
  "threads_collected K P b ss \<longleftrightarrow>
     \<not> finalized b \<and> writtenRanges b = [] \<and> structured b \<and> note_cmds b = [] \<and>
     distinct (map (sc_vmaddr \<circ> fst) (segment_cmds b)) \<and> list_all2 (segment_payload K) (segment_cmds b) ss \<and>
     payloads_start b < 2 ^ 32 \<and> file_end (core_builder P b) < 2 ^ 56"

lemma core_builder_ready:
  assumes "threads_collected K P b ss" and "\<forall>d \<in> set (payload_list P). length d < 2 ^ 64"
  shows "ready K (core_builder P b) (payload_list P) ss"
proof -
  let ?B = "core_builder P b"
  note T = assms(1) [unfolded threads_collected_def]
  have "32 + commands_size ?B \<le> payloads_start b"
    using round_up_ge [of 16 "32 + commands_size ?B"]
    by (simp add: core_builder_def with_notes_sizes payloads_start_def add.assoc)
  then have "commands_size ?B < 2 ^ 32" using T by simp
  moreover have "map (owner_string \<circ> fst) (note_cmds ?B) = owners"
    by (simp add: core_builder_def four_notes_def owner_string_def owner_of_note(3) owners_def)
  then have "unique_names ?B"
    using owners_are_names(2) T by (simp add: unique_names_def core_builder_def)
  moreover have "list_all2 note_payload (note_cmds ?B) (payload_list P)"
    using assms(2)
    by (simp add: core_builder_def four_notes_def payload_list_def note_payload_def payload_note_def note_size_def
        unat_of_nat_small)
  moreover have "\<forall>nc \<in> set (note_cmds ?B). nc_offset (fst nc) < 2 ^ 56"
    by (simp add: core_builder_def four_notes_def payload_note_def)
  ultimately show ?thesis
    using T with_notes_structured by (simp add: ready_def core_builder_def four_notes_def)
qed

lemma AddPayloadsAndWrite_Build:
  assumes collected: "threads_collected K P b ss" and sizes: "\<forall>d \<in> set (payload_list P). length d < 2 ^ 64"
    and makes: "makes_payloads E K b modules threadIds P" and m: "\<forall>n. malloc_ok K n"
  shows "\<exists>c. AddPayloadsAndWrite E K S modules threadIds (with_notes None None None None b, s) =
      Build K (env_config E) (env_offset E) S (c, s) \<and>
    building (core_builder P b) c \<and> writtenRanges c = []"
proof -
  note T = collected [unfolded threads_collected_def]
  obtain n spec where n: "address_bits K = Some n"
    and bits: "bits_payload P = enc_AddrableBitsInfo \<lparr>ab_version = 3, nBits = n, ab_unused = 0\<rparr>"
    and spec: "CreateMainBinSpecPayload (env_config E) modules = Inr spec" "spec_payload P = enc_MainBinSpec spec"
    using makes by (auto simp: makes_payloads_def)
  have infos: "CreateAllImageInfosPayload (of_nat (payloads_start b + 16)) modules = Inr (infos_payload P)"
    "infos_payload P \<noteq> []" and meta: "metadata_payload P = CreateProcessMetadataPayload threadIds"
    using makes by (simp_all add: makes_payloads_def)
  let ?a = "Some (bits_payload P)" and ?i = "Some (infos_payload P)" and ?s = "Some (spec_payload P)"
    and ?p = "Some (metadata_payload P)"
  have len: "length (bits_payload P) < 2 ^ 64" "length (infos_payload P) < 2 ^ 64" "length (spec_payload P) < 2 ^ 64"
    "length (metadata_payload P) < 2 ^ 64"
    using sizes by (simp_all add: payload_list_def)
  have p1: "add_payload E K AddrableBitsOwner (bits_payload P) (with_notes None None None None b) =
      Inr (with_notes ?a None None None b)"
    using add_payloads(1) [OF m len(1), of "with_notes None None None None b"] by (simp add: with_notes_def)
  have p2: "add_payload E K ProcessMetadataOwner (metadata_payload P) (with_notes ?a None None None b) =
      Inr (with_notes ?a None None ?p b)"
    using add_payloads(4) [OF m len(4), of "with_notes ?a None None None b"] by (simp add: with_notes_def)
  let ?f = "FinalizeLoadCommands (with_notes ?a None None ?p b)"
  have p3: "add_payload E K AllImageInfosOwner (infos_payload P) ?f = Inr (FinalizeLoadCommands (with_notes ?a ?i None ?p b))"
    using add_payloads(2) [OF m len(2), of ?f] by (simp add: finalize_with_notes)
  have p4: "add_payload E K MainBinSpecOwner (spec_payload P) (FinalizeLoadCommands (with_notes ?a ?i None ?p b)) =
      Inr (FinalizeLoadCommands (core_builder P b))"
    using add_payloads(3) [OF m len(3), of "FinalizeLoadCommands (with_notes ?a ?i None ?p b)"]
    by (simp add: finalize_with_notes core_builder_def)
  have off: "GetOffsetForNoteCommandPayload (env_config E) (AllImageInfosOwner @ [0]) ?f =
      Inr (Some (of_nat (payloads_start b + 16)))"
    using T by (intro offset_of_image_infos) (simp_all add: bits)
  obtain c where c: "rfold (update_segment_offset (env_config E))
      [0..<GetNumberOfSegmentCommands (FinalizeLoadCommands (core_builder P b))] (FinalizeLoadCommands (core_builder P b)) = Inr c"
    and "building (core_builder P b) c" "writtenRanges c = []"
    using segment_offsets_updated [OF core_builder_ready [OF collected sizes]] by blast
  moreover have "AddPayloadsAndWrite E K S modules threadIds (with_notes None None None None b, s) =
      Build K (env_config E) (env_offset E) S (c, s)"
    unfolding AddPayloadsAndWrite_def prod.case n option.case Let_def bits [symmetric] p1 rbind_Inr
      meta [symmetric] p2 off infos(1)
    by (simp only: infos(2) if_False p3 rbind_Inr spec(1) spec(2) [symmetric] p4 c)
  ultimately show ?thesis by blast
qed

subsection \<open>A request from its start\<close>

text \<open>The builder that the threads leave.\<close>

definition dump_builder ::
  "dump_env \<Rightarrow> 'z dump_kernel_scheme \<Rightarrow> CrashContext option \<Rightarrow> MemoryRegions \<Rightarrow> ModuleInfos \<Rightarrow> port list \<Rightarrow> builder"
where
  "dump_builder E K crash rs ms threads = (new_MachOCoreDumpBuilder (env_config E))
     \<lparr>thread_cmds := map (thread_command E K crash) (filter (captured K crash) threads),
      segment_cmds := map (process_segment K) (filter (protection_known K) (memory_ranges E K crash rs ms threads))\<rparr>"

text \<open>The calls by which the task, or the other threads of the own task, were stopped.\<close>

definition stopped :: "'z dump_kernel_scheme \<Rightarrow> port \<Rightarrow> event list \<Rightarrow> bool" where
  "stopped K task tr \<longleftrightarrow>
     (if task \<noteq> mach_task_self K then task_suspend_ok K \<and> tr = [TaskSuspend]
      else \<exists>refs. SuspendAllThreadsExceptCurrentOne K [] = (Inr (True, refs), tr))"

text \<open>
  A task that can be dumped: the kernel answers the calls on the task, its images, threads and
  regions; every walk of a stack ends; there is memory for every allocation; the memory of the
  segments can be read and does not change; the payloads can be made; and the sizes are below the
  limits of the format. \<open>ss\<close> is the memory of the segments.
\<close>

definition dumpable ::
  "dump_env \<Rightarrow> 'z dump_kernel_scheme \<Rightarrow> CrashContext option \<Rightarrow> port \<Rightarrow> event list \<Rightarrow> port list \<Rightarrow> MemoryRegions \<Rightarrow>
     ModuleInfos \<Rightarrow> dump_payloads \<Rightarrow> bytes list \<Rightarrow> bool"
where
  "dumpable E K crash task tr threads rs ms P ss \<longleftrightarrow>
     pid_for_task_ok K \<and> stopped K task tr \<and>
     new_ModuleList (env_config E) K (env_dyld E) = Inr ms \<and>
     task_threads K (tr @ [SendRight (mach_thread_self K)]) = Some threads \<and>
     new_MemoryRegionList K (env_tags E) = Some rs \<and>
     walks_return E K crash rs ms threads \<and> no_edge_addresses E K crash rs ms threads \<and>
     typed_states E K crash \<and> length (env_junk E) = 8 \<and> (\<forall>n. malloc_ok K n) \<and>
     coherent_reads K \<and> reads_exactly K \<and>
     list_all2 (\<lambda>sc d. vm_read_overwrite K (sc_vmaddr (fst sc)) (sc_filesize (fst sc)) = Some d)
       (segment_cmds (dump_builder E K crash rs ms threads)) ss \<and> ss \<noteq> [] \<and>
     makes_payloads E K (dump_builder E K crash rs ms threads)
       (mark_modules (concat (map (thread_ips E K crash rs ms) threads)) ms)
       (map (thread_tid K) (filter (captured K crash) threads)) P \<and>
     (\<forall>d \<in> set (payload_list P). length d < 2 ^ 64) \<and>
     payloads_start (dump_builder E K crash rs ms threads) < 2 ^ 32 \<and>
     file_end (core_builder P (dump_builder E K crash rs ms threads)) < 2 ^ 56"

lemma thread_command_ok:
  assumes "typed_states E K crash" and "captured K crash p"
  shows "thread_ok (thread_command E K crash p)"
proof -
  obtain ts es where r: "thread_registers K crash p = Some (ts, es)" using assms(2) by (auto simp: captured_def)
  then have "state_of_target (target (env_config E)) ts" using assms(1) by (auto simp: typed_states_def)
  then have "length (enc_GPR (gpr_of E ts) @ enc_EXC (exc_of E es)) < 1000"
    using length_enc_thread_state
    by (auto simp: enc_GPR_def enc_EXC_def gpr_of_def exc_of_def make_GPR_def make_EXC_def sizeof_thread_state_def
        split: arch.split)
  then show ?thesis
    using thread_ok_bytes [of "enc_GPR (gpr_of E ts) @ enc_EXC (exc_of E es)"] by (simp add: thread_command_def r)
qed

lemma process_segment_fields:
  "sc_vmaddr (fst (process_segment K r)) = fst r" "sc_filesize (fst (process_segment K r)) = snd r"
  "snd (process_segment K r) = Some \<lparr>dp_size = snd r, dp_ptr = ProcessMemoryReaderDataPtr (fst r) (snd r)\<rparr>"
  "segment_ok (process_segment K r)"
  by (simp_all add: process_segment_def Let_def case_prod_beta segment_ok_def)

lemma memory_ranges_sorted:
  assumes "no_edge_addresses E K crash rs ms threads"
  shows "\<forall>r \<in> set (memory_ranges E K crash rs ms threads). snd r \<noteq> 0"
    and "distinct (map fst (memory_ranges E K crash rs ms threads))"
proof -
  note ins = intervals.fold_insert_empty [OF requests_no_wrap [OF assms], folded insert_ranges_def]
  note pieces = ForEach_ranges [OF ins(1), folded memory_ranges_def]
  show "\<forall>r \<in> set (memory_ranges E K crash rs ms threads). snd r \<noteq> 0"
    using pieces(1) by auto
  have "sorted_wrt (\<lambda>x y. fst x < fst y) rs"
    if "\<forall>(s, n) \<in> set rs. n \<noteq> 0 \<and> no_wrap s n" "sorted_wrt (\<lambda>(s, n) (s', n'). s + n < s') rs" for rs :: "(u64 \<times> u64) list"
    using that
  proof (induction rs)
    case (Cons r rs)
    have "fst r < fst r'" if "r' \<in> set rs" for r'
    proof -
      have "fst r \<le> fst r + snd r" using Cons.prems(1) by (intro no_wrap_le) auto
      also have "\<dots> < fst r'" using Cons.prems(2) that by (auto simp: case_prod_beta)
      finally show ?thesis .
    qed
    with Cons show ?case by simp
  qed simp
  then have "sorted_wrt (<) (map fst (memory_ranges E K crash rs ms threads))"
    using pieces(1,3) by (simp add: sorted_wrt_map)
  then show "distinct (map fst (memory_ranges E K crash rs ms threads))"
    by (simp add: strict_sorted_iff)
qed

lemma dump_builder_collected:
  assumes "dumpable E K crash task tr threads rs ms P ss"
  shows "threads_collected K P (dump_builder E K crash rs ms threads) ss"
proof -
  let ?b = "dump_builder E K crash rs ms threads"
  let ?rs = "filter (protection_known K) (memory_ranges E K crash rs ms threads)"
  note D = assms [unfolded dumpable_def]
  have edge: "no_edge_addresses E K crash rs ms threads" using D by simp
  have segs: "segment_cmds ?b = map (process_segment K) ?rs" by (simp add: dump_builder_def)
  have "map (sc_vmaddr \<circ> fst) (segment_cmds ?b) = map fst ?rs"
    by (simp add: segs process_segment_fields)
  then have "distinct (map (sc_vmaddr \<circ> fst) (segment_cmds ?b))"
    using memory_ranges_sorted(2) [OF edge] by (simp add: distinct_map_filter)
  moreover have "structured ?b"
    using D thread_command_ok by (auto simp: structured_iff segs process_segment_fields)
      (auto simp: dump_builder_def new_MachOCoreDumpBuilder_def)
  moreover have "list_all2 (segment_payload K) (segment_cmds ?b) ss"
  proof -
    have "segment_payload K (process_segment K r) d"
      if "r \<in> set ?rs" and d: "vm_read_overwrite K (fst r) (snd r) = Some d" for r d
    proof -
      have len: "length d = unat (snd r)" using d D by (auto simp: reads_exactly_def)
      have "snd r \<noteq> 0" using memory_ranges_sorted(1) [OF edge] that(1) by auto
      moreover have "provides K (ProcessMemoryReaderDataPtr (fst r) (snd r)) d"
        by (rule provides_ProcessMemory [OF d len]) (use D in simp_all)
      ultimately show ?thesis
        by (simp add: segment_payload_def process_segment_fields segment_size_def len)
    qed
    moreover have "list_all2 (\<lambda>r d. vm_read_overwrite K (fst r) (snd r) = Some d) ?rs ss"
      using D by (simp add: segs list_all2_map1 process_segment_fields)
    ultimately show ?thesis unfolding segs list_all2_map1 by (rule list.rel_mono_strong [rotated]) blast
  qed
  ultimately show ?thesis using D
    by (simp add: threads_collected_def) (simp add: dump_builder_def new_MachOCoreDumpBuilder_def)
qed

lemma dump_body_writes_file:
  assumes D: "dumpable E K crash task tr threads rs ms P ss" and "filestream.stands_at fd [] s"
  shows "\<exists>s' tr'. dump_body E K (FileOStream_vtable (regular_file fd)) crash s tr = (Inr (True, s'), tr') \<and>
    f_contents (os_state s') = file_image (core_builder P (dump_builder E K crash rs ms threads)) (payload_list P) ss"
proof -
  note D' = D [unfolded dumpable_def]
  let ?b = "dump_builder E K crash rs ms threads" and ?S = "FileOStream_vtable (regular_file fd)"
  let ?ms = "mark_modules (concat (map (thread_ips E K crash rs ms) threads)) ms"
  let ?ids = "map (thread_tid K) (filter (captured K crash) threads)"
  have new: "\<not> finalized (new_MachOCoreDumpBuilder (env_config E))" by (simp add: new_MachOCoreDumpBuilder_def)
  have ok: "\<forall>n. malloc_ok K n" and t: "task_threads K (tr @ [SendRight (mach_thread_self K)]) = Some threads"
    and rs: "new_MemoryRegionList K (env_tags E) = Some rs" and w: "walks_return E K crash rs ms threads"
    and j: "length (env_junk E) = 8" and ty: "typed_states E K crash"
    using D' by simp_all
  obtain tr1 where tr1: "AddThreadsToCore E K crash (new_MachOCoreDumpBuilder (env_config E)) ms [] tr =
      (Inr (True, ?b, ?ms, ?ids), tr1)"
  proof -
    have b: "?b = (new_MachOCoreDumpBuilder (env_config E))
       \<lparr>thread_cmds := thread_cmds (new_MachOCoreDumpBuilder (env_config E)) @
          map (thread_command E K crash) (filter (captured K crash) threads),
        segment_cmds := segment_cmds (new_MachOCoreDumpBuilder (env_config E)) @
          map (process_segment K) (filter (protection_known K) (memory_ranges E K crash rs ms threads))\<rparr>"
      by (simp add: dump_builder_def new_MachOCoreDumpBuilder_def)
    obtain b' ms' ids' tr' where add:
      "AddThreadsToCore E K crash (new_MachOCoreDumpBuilder (env_config E)) ms [] tr = (Inr (True, b', ms', ids'), tr')"
      using AddThreadsToCore_returns [OF t rs w ok j ty] by blast
    have "b' = ?b" "ms' = ?ms" "ids' = ?ids"
      using AddThreadsToCore_effect [OF add t rs new j ty] b by (simp_all only:)
    with add show thesis by (intro that [of tr']) (simp only:)
  qed
  have notes4: "AddNotesToCore ?b = (True, with_notes None None None None ?b)"
    using AddNotesToCore_notes [of ?b] by (simp add: dump_builder_def new_MachOCoreDumpBuilder_def with_notes_def)
  have sizes: "\<forall>d \<in> set (payload_list P). length d < 2 ^ 64" and makes: "makes_payloads E K ?b ?ms ?ids P"
    using D' by simp_all
  note collected = dump_builder_collected [OF D]
  note B = core_builder_ready [OF collected sizes]
  obtain c where c: "AddPayloadsAndWrite E K ?S ?ms ?ids (with_notes None None None None ?b, s) =
      Build K (env_config E) (env_offset E) ?S (c, s)" "building (core_builder P ?b) c" "writtenRanges c = []"
    using AddPayloadsAndWrite_Build [OF collected sizes makes ok, of ?S s] by (elim exE conjE) (rule that)
  have "list_all2 (segment_payload K) (segment_cmds ?b) ss"
    using collected unfolding threads_collected_def by blast
  moreover have "ss \<noteq> []" and ms: "new_ModuleList (env_config E) K (env_dyld E) = Inr ms" using D' by blast+
  ultimately have "segment_cmds (core_builder P ?b) \<noteq> []" by (auto simp: core_builder_def)
  then obtain b' s' where "Build K (env_config E) (env_offset E) ?S (c, s) = Inr (True, b', s')"
      "f_contents (os_state s') = file_image (core_builder P ?b) (payload_list P) ss"
    using filestream.Build_finalized_writes_file [OF B c(2,3) assms(2)] by blast
  then have "dump_body E K ?S crash s tr = (Inr (True, s'), tr1)"
    by (simp add: dump_body_def ms tr1 notes4 c(1))
  then show ?thesis
    using \<open>f_contents (os_state s') = file_image (core_builder P ?b) (payload_list P) ss\<close> by blast
qed

text \<open>The file is emptied first; its position is the caller's.\<close>

lemma emptied_file:
  assumes "file_usable fd s" and "f_position (os_state s) = 0"
  shows "\<exists>s'. os_SetSize (FileOStream_vtable (regular_file fd)) 0 s = (True, s') \<and> filestream.stands_at fd [] s'"
  using assms by (simp add: FileOStream_vtable_def SetSize_def regular_file_def file_usable_def filestream.stands_at_def)

lemma request_writes_file:
  assumes D: "dumpable E K crash task tr threads rs ms P ss" and "file_usable fd s" and "f_position (os_state s) = 0"
  shows "\<exists>s' tr'. MiniDumpWriteDump E K (FileOStream_vtable (regular_file fd)) task crash s = (Inr (True, Some s'), tr') \<and>
    f_contents (os_state s') = file_image (core_builder P (dump_builder E K crash rs ms threads)) (payload_list P) ss"
proof -
  note D' = D [unfolded dumpable_def]
  obtain s1 where s1: "os_SetSize (FileOStream_vtable (regular_file fd)) 0 s = (True, s1)" "filestream.stands_at fd [] s1"
    using emptied_file [OF assms(2,3)] by blast
  obtain s' tr' where body: "dump_body E K (FileOStream_vtable (regular_file fd)) crash s1 tr = (Inr (True, s'), tr')"
      "f_contents (os_state s') = file_image (core_builder P (dump_builder E K crash rs ms threads)) (payload_list P) ss"
    using dump_body_writes_file [OF D s1(2)] by blast
  have "\<exists>tr''. MiniDumpWriteDumpImpl E K (FileOStream_vtable (regular_file fd)) task crash s [] = (Inr (True, s'), tr'')"
  proof (cases "task = mach_task_self K")
    case True
    then obtain refs where "SuspendAllThreadsExceptCurrentOne K [] = (Inr (True, refs), tr)"
      using D' by (auto simp: stopped_def)
    then show ?thesis using D' True body(1) by (simp add: MiniDumpWriteDumpImpl_def s1(1) leave_def)
  next
    case False
    then have "task_suspend_ok K" "tr = [TaskSuspend]" using D' by (simp_all add: stopped_def)
    then show ?thesis using D' False body(1) by (simp add: MiniDumpWriteDumpImpl_def s1(1) leave_def)
  qed
  then show ?thesis using body(2) by (auto simp: MiniDumpWriteDump_def)
qed

subsection \<open>A concrete request\<close>

text \<open>
  The task with two images, whose thread 7 has a stack pointer in its memory and no frames; the
  thread that asks and the one that ended have no registers.
\<close>

lemma flat_kernel_coherent:
  assumes "unat base + length mem < 2 ^ 64"
  shows "coherent_reads (flat_kernel base mem)"
  unfolding coherent_reads_def
proof (intro allI impI)
  fix a n d and i k :: u64
  assume "vm_read_overwrite (flat_kernel base mem) a n = Some d" and le: "unat i + unat k \<le> unat n"
  then have a: "base \<le> a" "unat (a - base) + unat n \<le> length mem" and d: "d = chunk (unat (a - base)) (unat n) mem"
    by (auto simp: flat_kernel_def split: if_splits)
  have "unat (a - base) = unat a - unat base" "unat base \<le> unat a"
    using a(1) by (simp_all add: unat_sub word_le_nat_alt)
  then have nw: "no_wrap a i" using a(2) le assms by (simp add: no_wrap_def)
  then have ai: "unat (a + i) = unat a + unat i" by (rule no_wrap_unat)
  then have "base \<le> a + i" using \<open>unat base \<le> unat a\<close> by (simp add: word_le_nat_alt)
  moreover from this have off: "unat (a + i - base) = unat (a - base) + unat i"
    using ai \<open>unat (a - base) = unat a - unat base\<close> \<open>unat base \<le> unat a\<close> by (simp add: unat_sub)
  moreover have "chunk (unat (a - base) + unat i) (unat k) mem = chunk (unat i) (unat k) d"
    using le by (simp add: d chunk_def drop_take min_def add.commute)
  ultimately show "vm_read_overwrite (flat_kernel base mem) (a + i) k = Some (chunk (unat i) (unat k) d)"
    using le a(2) by (simp add: flat_kernel_def)
qed

definition demo_request_state :: thread_state where
  "demo_request_state = ArmTS
     \<lparr>arm_x = replicate 29 0, arm_fp = 0, arm_lr = 0, arm_sp = 0x1118, arm_pc = 0x10B0, arm_cpsr = 0, arm_flags = 0\<rparr>"

definition demo_request_exception :: exception_state where
  "demo_request_exception = ArmES \<lparr>arm_far = 0, arm_esr = 0, arm_exception = 0\<rparr>"

definition demo_request_kernel :: dump_kernel where
  "demo_request_kernel = demo_dump_kernel
     \<lparr>thread_get_gpr := (\<lambda>p. if p = 7 then Some demo_request_state else None),
      thread_get_exc := (\<lambda>p. Some demo_request_exception), virtual_address_size := Some 47\<rparr>"

definition demo_request_env :: dump_env where
  "demo_request_env = demo_env\<lparr>env_junk := replicate 8 1\<rparr>"

definition demo_request_regions :: MemoryRegions where
  "demo_request_regions = [(0x1000, \<lparr>vmaddr = 0x1000, vmsize = 0x120, prot = 3, rtype = Stack\<rparr>),
     (0x1120, \<lparr>vmaddr = 0x1120, vmsize = 0x120, prot = 3, rtype = Stack\<rparr>)]"

definition demo_request_trace :: "event list" where
  "demo_request_trace =
     [SendRight 5, SendRight 5, SendRight 7, SendRight 9, ThreadSuspend 7, VmDeallocate,
      Deallocate 1 9, Deallocate 1 5, Deallocate 1 5]"

definition demo_request_payloads :: dump_payloads where
  "demo_request_payloads =
     \<lparr>bits_payload = enc_AddrableBitsInfo \<lparr>ab_version = 3, nBits = 47, ab_unused = 0\<rparr>,
      infos_payload = image_infos 592 [demo_entry 0x1000 0 0x60 demo_dyld_bytes],
      spec_payload = enc_MainBinSpec (default_MainBinSpec\<lparr>mb_slide := 0x10A0 - 0x100000000, mb_uuid := replicate 16 7\<rparr>),
      metadata_payload = ascii ''{\"threads\":[{\"thread_id\":7}]}''\<rparr>"

lemma demo_request_fields:
  "task_threads demo_request_kernel tr = Some [5, 7, 9]" "malloc_ok demo_request_kernel n"
  "length (env_junk demo_request_env) = 8" "env_config demo_request_env = demo_config"
  "mach_thread_self demo_request_kernel = 5" "mach_task_self demo_request_kernel = 1" "pid_for_task_ok demo_request_kernel"
  "thread_registers demo_request_kernel None p =
     (if p = 7 then Some (demo_request_state, demo_request_exception) else None)"
  "vm_read_overwrite demo_request_kernel = vm_read_overwrite (flat_kernel 0x1000 demo_memory)"
  "short_protection demo_request_kernel = short_protection (flat_kernel 0x1000 demo_memory)"
  "address_bits demo_request_kernel = Some 47" "thread_tid demo_request_kernel 7 = 7"
  by (auto simp: demo_request_kernel_def demo_dump_kernel_def dyld_kernel.defs mem_kernel.defs demo_kernel_def
      flat_kernel_def demo_request_env_def demo_env_def thread_registers_def address_bits_def thread_tid_def)

lemma demo_request_answers:
  "SuspendAllThreadsExceptCurrentOne demo_request_kernel [] =
     (Inr (True, [Wrap 7 1]), demo_request_trace)"
  "new_ModuleList demo_config demo_request_kernel (env_dyld demo_request_env) = Inr demo_modules"
  "new_MemoryRegionList demo_request_kernel (env_tags demo_request_env) = Some demo_request_regions"
  by code_simp+

lemma demo_request_walk:
  "WalkStack demo_config demo_request_kernel U x (replicate 8 1) rs ms (gpr_of demo_request_env demo_request_state) e = Inr []"
proof -
  have "frame_pointer (gpr_of demo_request_env demo_request_state) = 0"
    by (simp add: frame_pointer_def gpr_of_def make_GPR_def demo_request_state_def)
  then show ?thesis by (simp add: WalkStack_unfold demo_request_fields)
qed

lemma demo_request_junk: "env_junk demo_request_env = replicate 8 1"
  by (simp add: demo_request_env_def)

lemma demo_request_stacks:
  "call_stack demo_request_env demo_request_kernel rs ms demo_request_state es = []"
  by (simp add: call_stack_def demo_request_fields demo_request_junk demo_request_walk)

lemma demo_request_ranges:
  "memory_ranges demo_request_env demo_request_kernel None demo_request_regions ms [5, 7, 9] = [(0x1118, 8)]"
proof -
  have "GetRegionInfoForAddress demo_request_regions 0x1118 =
      Some \<lparr>vmaddr = 0x1000, vmsize = 0x120, prot = 3, rtype = Stack\<rparr>" by code_simp
  moreover have "stack_pointer (gpr_of demo_request_env demo_request_state) = 0x1118"
    by (simp add: stack_pointer_def gpr_of_def make_GPR_def demo_request_state_def)
  ultimately have "all_requests demo_request_env demo_request_kernel None demo_request_regions ms [5, 7, 9] = [(0x1118, 8)]"
    by (simp add: all_requests_def thread_request_def demo_request_fields demo_request_stacks code_ranges_def
        stack_ranges_def)
  moreover have "ForEach (insert_ranges [(0x1118, 8)] []) = [(0x1118, 8)]" by code_simp
  ultimately show ?thesis by (simp add: memory_ranges_def)
qed

lemma demo_request_captured: "captured demo_request_kernel None p \<longleftrightarrow> p = 7"
  by (simp add: captured_def demo_request_fields)

lemma demo_request_known: "protection_known demo_request_kernel (0x1118, 8)"
proof -
  have "short_protection (flat_kernel 0x1000 demo_memory) 0x1118 8 = Some 3" by code_simp
  then show ?thesis by (simp add: protection_known_def GetMemoryProtection_def demo_request_fields)
qed

definition demo_request_builder :: builder where
  "demo_request_builder = dump_builder demo_request_env demo_request_kernel None demo_request_regions demo_modules [5, 7, 9]"

lemma demo_request_builder:
  "thread_cmds demo_request_builder = [thread_command demo_request_env demo_request_kernel None 7]"
  "segment_cmds demo_request_builder = [process_segment demo_request_kernel (0x1118, 8)]"
  by (simp_all add: demo_request_builder_def dump_builder_def demo_request_captured demo_request_ranges demo_request_known)

lemma demo_request_start: "payloads_start demo_request_builder = 576"
  by (simp add: payloads_start_def demo_request_builder thread_command_def demo_request_fields enc_GPR_def enc_EXC_def
      gpr_of_def exc_of_def make_GPR_def make_EXC_def demo_request_state_def demo_request_exception_def round_up_def
      length_concat sum_list_replicate)

lemma demo_others: "others demo_modules = Inr [demo_entry 0x1000 0 0x60 demo_dyld_bytes]"
  by code_simp

lemma demo_payload_ok: "payload_ok [demo_entry 0x1000 0 0x60 demo_dyld_bytes]"
  by (simp add: payload_ok_def payload_size_def paths_pos_def segments_pos_def all_segments_def paths_size_def demo_entry_def)

lemma demo_infos: "CreateAllImageInfosPayload off demo_modules = Inr (image_infos off [demo_entry 0x1000 0 0x60 demo_dyld_bytes])"
  by (rule CreateAllImageInfosPayload_fills [OF demo_others _ demo_payload_ok]) (simp add: demo_modules_def)

lemma demo_infos_length: "length (image_infos off [demo_entry 0x1000 0 0x60 demo_dyld_bytes]) = 107"
  by (simp add: length_image_infos [OF demo_payload_ok])
    (simp add: payload_size_def paths_pos_def segments_pos_def all_segments_def paths_size_def demo_entry_def)

lemma demo_spec:
  "CreateMainBinSpecPayload demo_config demo_modules =
     Inr (default_MainBinSpec\<lparr>mb_slide := 0x10A0 - 0x100000000, mb_uuid := replicate 16 7\<rparr>)"
  by code_simp

lemma demo_metadata:
  "CreateProcessMetadataPayload [7] = ascii ''{\"threads\":[{\"thread_id\":7}]}''"
  by code_simp

lemma demo_request_dumpable:
  "dumpable demo_request_env demo_request_kernel None 1 demo_request_trace [5, 7, 9] demo_request_regions
     demo_modules demo_request_payloads [[7, 7, 7, 7, 7, 7, 7, 7]]"
proof -
  let ?E = demo_request_env and ?K = demo_request_kernel and ?rs = demo_request_regions
  have sizes: "length (bits_payload demo_request_payloads) = 16" "length (infos_payload demo_request_payloads) = 107"
    "length (spec_payload demo_request_payloads) = 48" "length (metadata_payload demo_request_payloads) = 29"
    by (simp_all add: demo_request_payloads_def demo_infos_length default_MainBinSpec_def ascii_def)
  have "stopped ?K 1 demo_request_trace"
    using demo_request_answers(1) by (simp add: stopped_def demo_request_fields)
  moreover have "walks_return ?E ?K None ?rs demo_modules [5, 7, 9]"
    by (simp add: walks_return_def demo_request_fields demo_request_junk demo_request_walk)
  moreover have "no_edge_addresses ?E ?K None ?rs demo_modules [5, 7, 9]"
    by (simp add: no_edge_addresses_def demo_request_fields demo_request_stacks)
  moreover have "typed_states ?E ?K None"
    by (simp add: typed_states_def demo_request_fields demo_config_def demo_request_state_def)
  moreover have "coherent_reads ?K" "reads_exactly ?K"
  proof -
    have "length demo_memory = 288" by code_simp
    then have "coherent_reads (flat_kernel 0x1000 demo_memory)" by (intro flat_kernel_coherent) simp
    then show "coherent_reads ?K" by (simp add: coherent_reads_def demo_request_fields)
    show "reads_exactly ?K"
      using flat_kernel_reads_exactly [of "0x1000" demo_memory] by (simp add: reads_exactly_def demo_request_fields)
  qed
  moreover have "vm_read_overwrite ?K 0x1118 8 = Some [7, 7, 7, 7, 7, 7, 7, 7]"
    unfolding demo_request_fields by code_simp
  moreover have "thread_ips ?E ?K None ?rs demo_modules p = []" for p
    by (simp add: thread_ips_def demo_request_fields demo_request_stacks)
  moreover have "makes_payloads ?E ?K demo_request_builder demo_modules [7] demo_request_payloads"
    using sizes(2) demo_spec demo_infos [of 592] demo_metadata
    by (auto simp: makes_payloads_def demo_request_fields demo_request_start) (simp_all add: demo_request_payloads_def)
  moreover have "file_end (core_builder demo_request_payloads demo_request_builder) = 4104"
    by (simp add: file_end_def segment_off_def segments_start_def notes_end_def note_off_def core_builder_def
        with_notes_sizes demo_request_start demo_request_builder four_notes_def payload_note_def note_size_def
        sizes segment_size_def process_segment_fields round_up_def)
  ultimately show ?thesis
    using demo_request_answers(2,3) demo_request_start sizes
    by (simp add: dumpable_def demo_request_fields demo_request_builder_def [symmetric] demo_request_builder
        process_segment_fields demo_request_captured payload_list_def)
qed

subsection \<open>Properties\<close>

text \<open>C1. A request for a dump of a task that can be dumped returns true, for the own task as for another
  one, and leaves in the file exactly the core file that its threads, memory ranges and modules call
  for: header, four notes, one thread command per thread, one segment per merged memory range, the
  payloads of the notes, and the memory of the segments.\<close>

theorem dump_writes_core_file:
  assumes "dumpable E K crash task tr threads rs ms P ss" and "file_usable fd s" and "f_position (os_state s) = 0"
  shows "\<exists>s' tr'. MiniDumpWriteDump E K (FileOStream_vtable (regular_file fd)) task crash s = (Inr (True, Some s'), tr') \<and>
    f_contents (os_state s') = file_image (core_builder P (dump_builder E K crash rs ms threads)) (payload_list P) ss"
  by (rule request_writes_file [OF assms])

lemma dump_writes_core_file_witness:
  "\<exists>s' tr'. MiniDumpWriteDump demo_request_env demo_request_kernel (FileOStream_vtable (regular_file 3)) 1 None
      empty_file = (Inr (True, Some s'), tr') \<and>
    f_contents (os_state s') = file_image (core_builder demo_request_payloads demo_request_builder)
      (payload_list demo_request_payloads) [[7, 7, 7, 7, 7, 7, 7, 7]]"
  unfolding demo_request_builder_def
  by (rule dump_writes_core_file [OF demo_request_dumpable]) (simp_all add: empty_file_def file_usable_def)

lemma request_reads_back:
  assumes "dumpable E K crash task tr threads rs ms P ss" and "file_usable fd s" and "f_position (os_state s) = 0"
    and "B = core_builder P (dump_builder E K crash rs ms threads)"
  shows "\<exists>s' tr' h. MiniDumpWriteDump E K (FileOStream_vtable (regular_file fd)) task crash s = (Inr (True, Some s'), tr') \<and>
    dec_header (f_contents (os_state s')) = Inr h \<and> filetype h = MH_CORE \<and>
    read_commands (unat (ncmds h)) (f_contents (os_state s')) 32 [] = Inr
      (map (\<lambda>i. enc_note (final_note B i)) [0..<4] @
       map (thread_command E K crash) (filter (captured K crash) threads) @
       map (\<lambda>i. enc_segment (final_segment B i)) [0..<length ss]) \<and>
    (\<forall>i < 4. chunk (unat (nc_offset (final_note B i))) (unat (nc_size (final_note B i)))
       (f_contents (os_state s')) = payload_list P ! i) \<and>
    (\<forall>i < length ss. vm_read_overwrite K (sc_vmaddr (final_segment B i)) (sc_filesize (final_segment B i)) =
       Some (chunk (unat (sc_fileoff (final_segment B i))) (unat (sc_filesize (final_segment B i)))
         (f_contents (os_state s'))))"
proof -
  let ?b = "dump_builder E K crash rs ms threads"
  note D = assms(1) [unfolded dumpable_def]
  have sizes: "\<forall>d \<in> set (payload_list P). length d < 2 ^ 64" using D by blast
  have B: "ready K B (payload_list P) ss"
    unfolding assms(4) by (rule core_builder_ready [OF dump_builder_collected [OF assms(1)] sizes])
  have fields: "length (note_cmds B) = 4" "segment_cmds B = segment_cmds ?b" "thread_cmds B = thread_cmds ?b"
    "header B = header ?b"
    by (simp_all add: assms(4) core_builder_def four_notes_def)
  have mem: "list_all2 (\<lambda>sc d. vm_read_overwrite K (sc_vmaddr (fst sc)) (sc_filesize (fst sc)) = Some d) (segment_cmds ?b) ss"
    using D by blast
  then have len: "length (segment_cmds ?b) = length ss" by (rule list_all2_lengthD)
  obtain s' tr' where run: "MiniDumpWriteDump E K (FileOStream_vtable (regular_file fd)) task crash s = (Inr (True, Some s'), tr')"
    and contents: "f_contents (os_state s') = file_image B (payload_list P) ss"
    using request_writes_file [OF assms(1-3), folded assms(4)] by (elim exE conjE) (rule that)
  let ?h = "header (FinalizeLoadCommands B)"
  have "filetype ?h = MH_CORE"
    by (simp add: FinalizeLoadCommands_def fields(4)) (simp add: dump_builder_def new_MachOCoreDumpBuilder_def)
  moreover have "thread_cmds ?b = map (thread_command E K crash) (filter (captured K crash) threads)"
    by (simp add: dump_builder_def)
  moreover have "vm_read_overwrite K (sc_vmaddr (final_segment B i)) (sc_filesize (final_segment B i)) =
      Some (chunk (unat (sc_fileoff (final_segment B i))) (unat (sc_filesize (final_segment B i)))
        (file_image B (payload_list P) ss))" if i: "i < length ss" for i
  proof -
    have "sc_filesize (final_segment B i) = sc_filesize (fst (segment_cmds ?b ! i))"
      by (simp add: final_segment_def fields)
    then show ?thesis
      using list_all2_nthD2 [OF mem i] segment_payload_image [OF B, of i] final_segment_fields [OF B, of i] i len
      by (simp add: fields)
  qed
  ultimately show ?thesis
    using read_commands_image [OF B refl] note_payload_image [OF B] final_note_fields [OF B] run
    by (intro exI [of _ s'] exI [of _ tr'] exI [of _ ?h]) (simp add: contents final_commands_def fields len)
qed

text \<open>C2. A debugger finds in the file what it needs: after a dump the load commands lead, in this order,
  to the four notes with their payloads, to the registers of every thread that was captured, and to
  segments whose bytes in the file are the bytes of the task's memory at their address.\<close>

theorem dumped_memory_reads_back:
  assumes "dumpable E K crash task tr threads rs ms P ss" and "file_usable fd s" and "f_position (os_state s) = 0"
    and "B = core_builder P (dump_builder E K crash rs ms threads)"
  shows "\<exists>s' tr' h. MiniDumpWriteDump E K (FileOStream_vtable (regular_file fd)) task crash s = (Inr (True, Some s'), tr') \<and>
    dec_header (f_contents (os_state s')) = Inr h \<and> filetype h = MH_CORE \<and>
    read_commands (unat (ncmds h)) (f_contents (os_state s')) 32 [] = Inr
      (map (\<lambda>i. enc_note (final_note B i)) [0..<4] @
       map (thread_command E K crash) (filter (captured K crash) threads) @
       map (\<lambda>i. enc_segment (final_segment B i)) [0..<length ss]) \<and>
    (\<forall>i < 4. chunk (unat (nc_offset (final_note B i))) (unat (nc_size (final_note B i)))
       (f_contents (os_state s')) = payload_list P ! i) \<and>
    (\<forall>i < length ss. vm_read_overwrite K (sc_vmaddr (final_segment B i)) (sc_filesize (final_segment B i)) =
       Some (chunk (unat (sc_fileoff (final_segment B i))) (unat (sc_filesize (final_segment B i)))
         (f_contents (os_state s'))))"
  by (rule request_reads_back [OF assms])

lemma dumped_memory_reads_back_witness:
  "\<exists>s' tr' (sc :: segment_command_64). MiniDumpWriteDump demo_request_env demo_request_kernel (FileOStream_vtable (regular_file 3)) 1 None
      empty_file = (Inr (True, Some s'), tr') \<and> sc_vmaddr sc = 0x1118 \<and>
    chunk (unat (sc_fileoff sc)) 8 (f_contents (os_state s')) = [7, 7, 7, 7, 7, 7, 7, 7]"
proof -
  let ?B = "core_builder demo_request_payloads demo_request_builder"
  have "file_usable 3 empty_file" "f_position (os_state empty_file) = 0" by (simp_all add: empty_file_def file_usable_def)
  from dumped_memory_reads_back [OF demo_request_dumpable this refl, folded demo_request_builder_def]
  obtain s' tr' where run: "MiniDumpWriteDump demo_request_env demo_request_kernel (FileOStream_vtable (regular_file 3))
      1 None empty_file = (Inr (True, Some s'), tr')"
    and mem: "\<forall>i < length [[7, 7, 7, 7, 7, 7, 7, 7 :: u8]].
      vm_read_overwrite demo_request_kernel (sc_vmaddr (final_segment ?B i)) (sc_filesize (final_segment ?B i)) =
      Some (chunk (unat (sc_fileoff (final_segment ?B i))) (unat (sc_filesize (final_segment ?B i)))
        (f_contents (os_state s')))"
    by (elim exE conjE) (rule that)
  have fields: "sc_vmaddr (final_segment ?B 0) = 0x1118" "sc_filesize (final_segment ?B 0) = 8"
    by (simp_all add: final_segment_def core_builder_def demo_request_builder process_segment_fields)
  have "vm_read_overwrite demo_request_kernel 0x1118 8 = Some [7, 7, 7, 7, 7, 7, 7, 7]"
    unfolding demo_request_fields by code_simp
  then have "chunk (unat (sc_fileoff (final_segment ?B 0))) 8 (f_contents (os_state s')) = [7, 7, 7, 7, 7, 7, 7, 7]"
    using mem [rule_format, of 0] by (simp add: fields)
  with run fields(1) show ?thesis by blast
qed

end
