(* ===== verification/DumpTester.thy ===== *)
theory DumpTester
  imports DumpFile DumpTrace "HOL-Library.Sublist" "HOL-Library.List_Lexorder"
begin

text \<open>
  Clients of the library: the two examples, and \<open>dumpTester\<close>, the program that the tests run. It
  performs one named operation, in its own process or in a worker process that it launches, and
  says by how it ends whether a core file was created. The operating system is a parameter
  (\<open>host\<close>), as for the library; what a process changes is a record (\<open>process\<close>), in which the calls
  whose answers do not matter, console output among them, are listed in their order.
\<close>

subsection \<open>Processes\<close>

datatype signal = SIGSEGV | SIGBUS | SIGILL | SIGABRT | SIGFPE | SIGKILL

instantiation signal :: enum
begin

definition enum_signal :: "signal list" where
  "enum_signal = [SIGSEGV, SIGBUS, SIGILL, SIGABRT, SIGFPE, SIGKILL]"

definition enum_all_signal :: "(signal \<Rightarrow> bool) \<Rightarrow> bool" where
  "enum_all_signal P \<longleftrightarrow> list_all P enum_class.enum"

definition enum_ex_signal :: "(signal \<Rightarrow> bool) \<Rightarrow> bool" where
  "enum_ex_signal P \<longleftrightarrow> list_ex P enum_class.enum"

instance
proof
  show univ: "(UNIV :: signal set) = set enum_class.enum"
    unfolding enum_signal_def by (auto intro: signal.exhaust)
  show "distinct (enum_class.enum :: signal list)" by (simp add: enum_signal_def)
  show "enum_class.enum_all P \<longleftrightarrow> Ball UNIV P" for P :: "signal \<Rightarrow> bool"
    by (simp add: enum_all_signal_def univ list_all_iff)
  show "enum_class.enum_ex P \<longleftrightarrow> Bex UNIV P" for P :: "signal \<Rightarrow> bool"
    by (simp add: enum_ex_signal_def univ list_ex_iff)
qed

end

lemma all_signals: "(\<forall>s. P s) \<longleftrightarrow> list_all P [SIGSEGV, SIGBUS, SIGILL, SIGABRT, SIGFPE, SIGKILL]"
  unfolding enum_signal_def [symmetric] using enum_UNIV by (metis UNIV_I list_all_iff)

text \<open>How a function comes to its end: it returns, or the process ends in it.\<close>

datatype 'a ended = Returns 'a | Exits int | Killed signal

text \<open>What the crashing operations do that may trap; \<open>CallString\<close> is a call into \<open>g_1\<close>.\<close>

datatype access =
    StoreTo u64 | CallTo u64 | CallString | PureVirtualCall | ObjCStoreTo u64 | ObjCRaise

datatype misc_thread = SpinThread | SleepThread nat

datatype handler = SignalHandler | SignalHandlerForOOPWorker

datatype host_call =
    SpawnWorker "bytes list" bool \<comment> \<open>arguments, output to the pipe\<close>
  | CloseFd int
  | KillProcess int signal
  | WaitFor int
  | WriteContext CrashContext
  | VmProtect u64 u64 \<comment> \<open>address, size; reading and writing\<close>
  | OverwriteZone u64
  | StartThread misc_thread
  | Syslog bytes
  | Stdout bytes
  | Stderr bytes

datatype wait_result = WaitExited int | WaitSignaled signal | WaitInterrupted | WaitFailed

datatype right_kind = MACH_PORT_RIGHT_RECEIVE | MACH_PORT_RIGHT_SEND | MACH_PORT_RIGHT_SEND_ONCE

record 'f host =
  host_env :: dump_env
  kernel_of :: "port \<Rightarrow> dump_kernel" \<comment> \<open>the answers to a request on a task\<close>
  self_task :: port
  mach_port_names :: "event list \<Rightarrow> port list option" \<comment> \<open>rights of the process after the calls of a request\<close>
  mach_port_get_refs :: "event list \<Rightarrow> port \<Rightarrow> right_kind \<Rightarrow> u32 option"
  posix_of :: "'f posix"
  sys_create :: "bytes \<Rightarrow> 'f \<Rightarrow> int \<times> 'f" \<comment> \<open>\<open>open\<close> with \<open>O_WRONLY | O_CREAT | O_TRUNC\<close>\<close>
  any_files :: 'f \<comment> \<open>what an exception in a request leaves\<close>
  sigaction_ok :: "signal \<Rightarrow> bool"
  signal_of :: "access \<Rightarrow> signal option" \<comment> \<open>\<open>None\<close> for an access that does not trap\<close>
  machine_context :: "access \<Rightarrow> bool \<Rightarrow> thread_state \<times> exception_state"
  pthread_threadid :: "bool \<Rightarrow> u64" \<comment> \<open>of the background thread, or of the main one\<close>
  malloc_get_all_zones :: "(u64 \<times> bytes option) list option" \<comment> \<open>zones and their names\<close>
  NSGetExecutablePath :: "bytes option"
  sys_pipe :: "(int \<times> int) option"
  posix_spawn :: "bytes list \<Rightarrow> bool \<Rightarrow> int option"
  junk_pid :: int \<comment> \<open>what \<open>pid\<close> holds when nothing was spawned\<close>
  junk_status :: wait_result
  waitpid :: "int \<Rightarrow> nat \<Rightarrow> wait_result" \<comment> \<open>of the n-th call\<close>
  task_for_pid :: "int \<Rightarrow> port option"
  read_context :: "int \<Rightarrow> CrashContext option" \<comment> \<open>\<open>None\<close> for a short read\<close>
  kill_ok :: "int \<Rightarrow> bool"

record 'f process =
  files :: 'f
  mach_calls :: "event list" \<comment> \<open>of the last request for a dump\<close>
  host_calls :: "host_call list"
  handlers :: "signal \<Rightarrow> handler option"
  g_corePath :: bytes

type_synonym ('a, 'f) run = "'f process \<Rightarrow> 'a ended res \<times> 'f process"

definition host_call :: "host_call \<Rightarrow> 'f process \<Rightarrow> 'f process" where
  "host_call c p = p\<lparr>host_calls := host_calls p @ [c]\<rparr>"

definition ended :: "'a ended \<Rightarrow> ('a, 'f) run" where
  "ended e p = (Inr e, p)"

text \<open>What follows a call that returned.\<close>

definition after :: "('a, 'f) run \<Rightarrow> ('a \<Rightarrow> ('b, 'f) run) \<Rightarrow> ('b, 'f) run" where
  "after m f p =
     (case m p of
        (Inl e, p) \<Rightarrow> (Inl e, p)
      | (Inr (Returns x), p) \<Rightarrow> f x p
      | (Inr (Exits n), p) \<Rightarrow> (Inr (Exits n), p)
      | (Inr (Killed s), p) \<Rightarrow> (Inr (Killed s), p))"

subsection \<open>Counting the rights of the process\<close>

fun refs_loop :: "'f host \<Rightarrow> event list \<Rightarrow> port list \<Rightarrow> u64 \<Rightarrow> u64" where
  "refs_loop H tr [] result = result"
| "refs_loop H tr (name # names) result =
     (case mach_port_get_refs H tr name MACH_PORT_RIGHT_RECEIVE of
        None \<Rightarrow> 0
      | Some refs \<Rightarrow>
          let result = result + ucast refs in
          (case mach_port_get_refs H tr name MACH_PORT_RIGHT_SEND of
             None \<Rightarrow> 0
           | Some refs \<Rightarrow>
               let result = result + ucast refs in
               (case mach_port_get_refs H tr name MACH_PORT_RIGHT_SEND_ONCE of
                  None \<Rightarrow> 0
                | Some refs \<Rightarrow> refs_loop H tr names (result + ucast refs))))"

definition GetTotalMachPortRightsRefs :: "'f host \<Rightarrow> event list \<Rightarrow> u64" where
  "GetTotalMachPortRightsRefs H tr =
     (case mach_port_names H tr of None \<Rightarrow> 0 | Some names \<Rightarrow> refs_loop H tr names 0)"

subsection \<open>Creating a core file\<close>

definition leak_message :: "u64 \<Rightarrow> u64 \<Rightarrow> bytes" where
  "leak_message initialCount finalCount =
     ascii ''Detected mach port rights refs leak: initial='' @ to_string (unat initialCount) @
     ascii '', final='' @ to_string (unat finalCount) @
     ascii '', leaked='' @ to_string (unat (finalCount - initialCount)) @ [10]"

text \<open>The destructor of \<open>MachPortRightRefsLeakChecker\<close>, on the way out with the result \<open>x\<close>.\<close>

definition leak_check :: "'f host \<Rightarrow> u64 \<Rightarrow> event list \<Rightarrow> 'a \<Rightarrow> ('a, 'f) run" where
  "leak_check H initialCount tr x p =
     (let finalCount = GetTotalMachPortRightsRefs H tr in
      if finalCount > initialCount then ended (Exits 1) (host_call (Stderr (leak_message initialCount finalCount)) p)
      else ended (Returns x) p)"

text \<open>A request that writes to the file at a path; the stream closes the file at the end.\<close>

definition dump_to_path ::
  "'f host \<Rightarrow> port \<Rightarrow> bytes \<Rightarrow> CrashContext option \<Rightarrow> 'f process \<Rightarrow> bool res \<times> 'f process" where
  "dump_to_path H task corePath crash p =
     (let P = posix_of H;
          fos = new_FileOStream_path P corePath (files p)
      in case MiniDumpWriteDump (host_env H) (kernel_of H task) (FileOStream_vtable P) task crash fos of
           (Inl e, tr) \<Rightarrow> (Inl e, p)
         | (Inr (ok, fos), tr) \<Rightarrow>
             (Inr ok, p\<lparr>files := (case fos of None \<Rightarrow> any_files H | Some fos \<Rightarrow> os_state (delete_FileOStream P fos)),
                        mach_calls := tr\<rparr>))"

definition CreateCoreFileImpl :: "'f host \<Rightarrow> port \<Rightarrow> bytes \<Rightarrow> CrashContext option \<Rightarrow> (bool, 'f) run" where
  "CreateCoreFileImpl H task corePath crash p =
     (let initialCount = GetTotalMachPortRightsRefs H [];
          (fd, f) = sys_create H corePath (files p);
          p = p\<lparr>files := f\<rparr>
      in if fd \<ge> 0 then
           let p = p\<lparr>files := sys_close (posix_of H) fd (files p)\<rparr> in
           (case dump_to_path H task corePath crash p of
              (Inl e, p) \<Rightarrow> (Inl e, p)
            | (Inr ok, p) \<Rightarrow> leak_check H initialCount (mach_calls p) ok p)
         else leak_check H initialCount [] False p)"

definition CreateCoreFile :: "'f host \<Rightarrow> bytes \<Rightarrow> (bool, 'f) run" where
  "CreateCoreFile H corePath = CreateCoreFileImpl H (self_task H) corePath None"

text \<open>The first zone whose name contains the one of the real default zone.\<close>

fun find_default_zone :: "(u64 \<times> bytes option) list \<Rightarrow> u64 option" where
  "find_default_zone [] = None"
| "find_default_zone ((zone, zoneName) # zones) =
     (case zoneName of
        None \<Rightarrow> find_default_zone zones
      | Some s \<Rightarrow> if sublist (ascii ''DefaultMallocZone'') s then Some zone else find_default_zone zones)"

definition CorruptHeapThenCreateCoreFile :: "'f host \<Rightarrow> bytes \<Rightarrow> (bool, 'f) run" where
  "CorruptHeapThenCreateCoreFile H corePath p =
     (case malloc_get_all_zones H of
        None \<Rightarrow> ended (Returns False) p
      | Some zones \<Rightarrow>
          if zones = [] then ended (Returns False) p
          else
            let realDefaultZone = (case find_default_zone zones of None \<Rightarrow> fst (zones ! 0) | Some z \<Rightarrow> z) in
            after (CreateCoreFileImpl H (self_task H) corePath None) (\<lambda>ok. ended (Exits (if ok then 0 else 1)))
              (host_call (OverwriteZone realDefaultZone) (host_call (VmProtect realDefaultZone 4096) p)))"

text \<open>
  The C test calls the C interface on the descriptor of a \<open>FILE\<close>, which \<open>fclose\<close> closes once
  more; \<open>CreateCoreFromC\<close> ignores the result.
\<close>

definition CreateCoreFromCImpl :: "'f host \<Rightarrow> bytes \<Rightarrow> (int, 'f) run" where
  "CreateCoreFromCImpl H pPath p =
     (let P = posix_of H; task = self_task H; (fd, f) = sys_create H pPath (files p) in
      if fd < 0 then ended (Returns 1) (p\<lparr>files := f\<rparr>)
      else (case MiniDumpWriteDump_C (host_env H) (kernel_of H task) P task fd None f of
              (Inl e, tr) \<Rightarrow> (Inl e, p)
            | (Inr (result, fos), tr) \<Rightarrow>
                ended (Returns (if result then 1 else 0))
                  (p\<lparr>files := sys_close P fd (case fos of None \<Rightarrow> any_files H | Some fos \<Rightarrow> os_state fos),
                     mach_calls := tr\<rparr>)))"

definition CreateCoreFromC :: "'f host \<Rightarrow> bytes \<Rightarrow> (bool, 'f) run" where
  "CreateCoreFromC H corePath = after (CreateCoreFromCImpl H corePath) (\<lambda>_. ended (Returns True))"

subsection \<open>Signals\<close>

definition crash_context :: "'f host \<Rightarrow> access \<Rightarrow> bool \<Rightarrow> CrashContext" where
  "crash_context H a onBackgroundThread =
     (let (ss, es) = machine_context H a onBackgroundThread in
      \<lparr>crash_ss = ss, crash_es = es, crashedTID = pthread_threadid H onBackgroundThread\<rparr>)"

definition run_SignalHandler :: "'f host \<Rightarrow> access \<Rightarrow> bool \<Rightarrow> ('a, 'f) run" where
  "run_SignalHandler H a onBackgroundThread p =
     after (CreateCoreFileImpl H (self_task H) (g_corePath p) (Some (crash_context H a onBackgroundThread)))
       (\<lambda>_. ended (Killed SIGKILL)) p"

text \<open>The worker ends by the signal of its parent, or after a minute by its own.\<close>

definition run_SignalHandlerForOOPWorker :: "'f host \<Rightarrow> access \<Rightarrow> bool \<Rightarrow> ('a, 'f) run" where
  "run_SignalHandlerForOOPWorker H a onBackgroundThread p =
     ended (Killed SIGKILL) (host_call (WriteContext (crash_context H a onBackgroundThread)) p)"

fun install :: "'f host \<Rightarrow> handler \<Rightarrow> signal list \<Rightarrow> 'f process \<Rightarrow> bool \<times> 'f process" where
  "install H h [] p = (True, p)"
| "install H h (s # ss) p =
     (if sigaction_ok H s then install H h ss (p\<lparr>handlers := (handlers p)(s := Some h)\<rparr>) else (False, p))"

definition SetupSignalHandler :: "'f host \<Rightarrow> handler \<Rightarrow> 'f process \<Rightarrow> bool \<times> 'f process" where
  "SetupSignalHandler H h = install H h [SIGSEGV, SIGBUS, SIGILL, SIGABRT, SIGFPE]"

definition deliver :: "'f host \<Rightarrow> signal \<Rightarrow> access \<Rightarrow> bool \<Rightarrow> ('a, 'f) run" where
  "deliver H s a onBackgroundThread p =
     (case handlers p s of
        None \<Rightarrow> ended (Killed s) p
      | Some SignalHandler \<Rightarrow> run_SignalHandler H a onBackgroundThread p
      | Some SignalHandlerForOOPWorker \<Rightarrow> run_SignalHandlerForOOPWorker H a onBackgroundThread p)"

subsection \<open>The operations\<close>

text \<open>An access that traps runs the handler of its signal on the thread that made it.\<close>

definition trap :: "'f host \<Rightarrow> access \<Rightarrow> bool \<Rightarrow> (unit, 'f) run" where
  "trap H a onBackgroundThread p =
     (case signal_of H a of
        None \<Rightarrow> ended (Returns ()) p
      | Some s \<Rightarrow> deliver H s a onBackgroundThread p)"

definition InvalidPtr :: u64 where
  "InvalidPtr = 0xFFFFFFFFFFFA7B00"

definition CrashInvalidPtrWrite :: "'f host \<Rightarrow> bool \<Rightarrow> bytes \<Rightarrow> (bool, 'f) run" where
  "CrashInvalidPtrWrite H onBackgroundThread corePath =
     after (trap H (StoreTo InvalidPtr) onBackgroundThread) (\<lambda>_. ended (Returns False))"

definition CrashNullPtrCall :: "'f host \<Rightarrow> bool \<Rightarrow> bytes \<Rightarrow> (bool, 'f) run" where
  "CrashNullPtrCall H onBackgroundThread corePath =
     after (trap H (CallTo 0) onBackgroundThread) (\<lambda>_. ended (Returns False))"

definition CrashInvalidPtrCall :: "'f host \<Rightarrow> bool \<Rightarrow> bytes \<Rightarrow> (bool, 'f) run" where
  "CrashInvalidPtrCall H onBackgroundThread corePath =
     after (trap H (CallTo InvalidPtr) onBackgroundThread) (\<lambda>_. ended (Returns False))"

definition CrashNonExecutablePtrCall :: "'f host \<Rightarrow> bool \<Rightarrow> bytes \<Rightarrow> (bool, 'f) run" where
  "CrashNonExecutablePtrCall H onBackgroundThread corePath =
     after (trap H CallString onBackgroundThread) (\<lambda>_. ended (Returns False))"

text \<open>
  The class of an object decides which \<open>Operation\<close> a call through a pointer to its base reaches.
  While the constructor of \<open>Base\<close> runs the object is a \<open>Base\<close>, whose \<open>Operation\<close> is pure.
\<close>

datatype object_class = Base | Derived

definition CallOpViaBasePtr :: "'f host \<Rightarrow> bool \<Rightarrow> object_class \<Rightarrow> (unit, 'f) run" where
  "CallOpViaBasePtr H onBackgroundThread pObject =
     (case pObject of Base \<Rightarrow> trap H PureVirtualCall onBackgroundThread | Derived \<Rightarrow> ended (Returns ()))"

definition new_Base :: "'f host \<Rightarrow> bool \<Rightarrow> (object_class, 'f) run" where
  "new_Base H onBackgroundThread = after (CallOpViaBasePtr H onBackgroundThread Base) (\<lambda>_. ended (Returns Base))"

definition new_Derived :: "'f host \<Rightarrow> bool \<Rightarrow> (object_class, 'f) run" where
  "new_Derived H onBackgroundThread = after (new_Base H onBackgroundThread) (\<lambda>_. ended (Returns Derived))"

definition AbortPureVirtualCall :: "'f host \<Rightarrow> bool \<Rightarrow> bytes \<Rightarrow> (bool, 'f) run" where
  "AbortPureVirtualCall H onBackgroundThread corePath =
     after (new_Derived H onBackgroundThread) (\<lambda>_. ended (Returns False))"

text \<open>The operations in Objective-C, and their callers.\<close>

definition crashInvalidPtrWrite :: "'f host \<Rightarrow> bool \<Rightarrow> (unit, 'f) run" where
  "crashInvalidPtrWrite H = trap H (ObjCStoreTo InvalidPtr)"

definition raiseUnhandledException :: "'f host \<Rightarrow> bool \<Rightarrow> (unit, 'f) run" where
  "raiseUnhandledException H = trap H ObjCRaise"

definition CrashInvalidPtrWriteFromObjCImpl :: "'f host \<Rightarrow> bool \<Rightarrow> (int, 'f) run" where
  "CrashInvalidPtrWriteFromObjCImpl H onBackgroundThread =
     after (crashInvalidPtrWrite H onBackgroundThread) (\<lambda>_. ended (Returns 0))"

definition RaiseUnhandledObjCExceptionImpl :: "'f host \<Rightarrow> bool \<Rightarrow> (int, 'f) run" where
  "RaiseUnhandledObjCExceptionImpl H onBackgroundThread =
     after (raiseUnhandledException H onBackgroundThread) (\<lambda>_. ended (Returns 0))"

definition CrashInvalidPtrWriteFromObjC :: "'f host \<Rightarrow> bool \<Rightarrow> bytes \<Rightarrow> (bool, 'f) run" where
  "CrashInvalidPtrWriteFromObjC H onBackgroundThread corePath =
     after (CrashInvalidPtrWriteFromObjCImpl H onBackgroundThread) (\<lambda>_. ended (Returns False))"

definition AbortUnhandledObjCException :: "'f host \<Rightarrow> bool \<Rightarrow> bytes \<Rightarrow> (bool, 'f) run" where
  "AbortUnhandledObjCException H onBackgroundThread corePath =
     after (RaiseUnhandledObjCExceptionImpl H onBackgroundThread) (\<lambda>_. ended (Returns False))"

text \<open>The table of operations, a \<open>std::map\<close> from their names.\<close>

datatype operation =
    Op_CreateCoreFile | Op_CorruptHeapThenCreateCoreFile | Op_CreateCoreFromC
  | Op_CrashInvalidPtrWrite | Op_CrashInvalidPtrWriteFromObjC | Op_CrashNullPtrCall | Op_CrashInvalidPtrCall
  | Op_CrashNonExecutablePtrCall | Op_AbortPureVirtualCall | Op_AbortUnhandledObjCException

definition g_operations :: "(bytes, operation) omap" where
  "g_operations = fold (\<lambda>(name, op). map_emplace (ascii name) op)
     [(''CreateCore'', Op_CreateCoreFile),
      (''CorruptHeapThenCreateCoreFile'', Op_CorruptHeapThenCreateCoreFile),
      (''CreateCoreFromC'', Op_CreateCoreFromC),
      (''CrashInvalidPtrWrite'', Op_CrashInvalidPtrWrite),
      (''CrashInvalidPtrWriteFromObjC'', Op_CrashInvalidPtrWriteFromObjC),
      (''CrashNullPtrCall'', Op_CrashNullPtrCall),
      (''CrashInvalidPtrCall'', Op_CrashInvalidPtrCall),
      (''CrashNonExecutablePtrCall'', Op_CrashNonExecutablePtrCall),
      (''AbortPureVirtualCall'', Op_AbortPureVirtualCall),
      (''AbortUnhandledObjCException'', Op_AbortUnhandledObjCException)] []"

fun run_operation :: "'f host \<Rightarrow> operation \<Rightarrow> bool \<Rightarrow> bytes \<Rightarrow> (bool, 'f) run" where
  "run_operation H Op_CreateCoreFile b corePath = CreateCoreFile H corePath"
| "run_operation H Op_CorruptHeapThenCreateCoreFile b corePath = CorruptHeapThenCreateCoreFile H corePath"
| "run_operation H Op_CreateCoreFromC b corePath = CreateCoreFromC H corePath"
| "run_operation H Op_CrashInvalidPtrWrite b corePath = CrashInvalidPtrWrite H b corePath"
| "run_operation H Op_CrashInvalidPtrWriteFromObjC b corePath = CrashInvalidPtrWriteFromObjC H b corePath"
| "run_operation H Op_CrashNullPtrCall b corePath = CrashNullPtrCall H b corePath"
| "run_operation H Op_CrashInvalidPtrCall b corePath = CrashInvalidPtrCall H b corePath"
| "run_operation H Op_CrashNonExecutablePtrCall b corePath = CrashNonExecutablePtrCall H b corePath"
| "run_operation H Op_AbortPureVirtualCall b corePath = AbortPureVirtualCall H b corePath"
| "run_operation H Op_AbortUnhandledObjCException b corePath = AbortUnhandledObjCException H b corePath"

definition is_crash :: "bytes \<Rightarrow> bool" where
  "is_crash operation \<longleftrightarrow> sublist (ascii ''Crash'') operation \<or> sublist (ascii ''Abort'') operation"

subsection \<open>A worker process\<close>

definition CreateOOPWorker ::
  "'f host \<Rightarrow> bytes \<Rightarrow> bool \<Rightarrow> bool \<Rightarrow> bytes \<Rightarrow> 'f process \<Rightarrow> (int \<times> int) option \<times> 'f process" where
  "CreateOOPWorker H operation onBackgroundThread crash corePath p =
     (case NSGetExecutablePath H of
        None \<Rightarrow> (None, p)
      | Some execPath \<Rightarrow>
          let backgroundThreadParam =
                ascii (if onBackgroundThread then ''BackgroundThread'' else ''MainThread'');
              argv = [execPath, ascii ''OOPWorker'', operation, backgroundThreadParam, corePath]
          in if crash then
               (case sys_pipe H of
                  None \<Rightarrow> (None, p)
                | Some (rd, wr) \<Rightarrow>
                    (case posix_spawn H argv True of
                       None \<Rightarrow> (None, host_call (CloseFd wr) (host_call (CloseFd rd) p))
                     | Some pid \<Rightarrow> (Some (pid, rd), host_call (CloseFd wr) (host_call (SpawnWorker argv True) p))))
             else
               (case posix_spawn H argv False of
                  None \<Rightarrow> (Some (junk_pid H, -1), p)
                | Some pid \<Rightarrow> (Some (pid, -1), host_call (SpawnWorker argv False) p)))"

text \<open>\<open>waitpid\<close> until it is not interrupted.\<close>

partial_function (option) wait_loop :: "'f host \<Rightarrow> int \<Rightarrow> nat \<Rightarrow> wait_result option" where
  "wait_loop H pid n =
     (if waitpid H pid n = WaitInterrupted then wait_loop H pid (Suc n) else Some (waitpid H pid n))"

declare wait_loop.simps [code]

definition LaunchOOPWorkerForOperation :: "'f host \<Rightarrow> bytes \<Rightarrow> bool \<Rightarrow> bytes \<Rightarrow> (bool, 'f) run" where
  "LaunchOOPWorkerForOperation H operation onBackgroundThread corePath p =
     (case CreateOOPWorker H operation onBackgroundThread (is_crash operation) corePath p of
        (None, p) \<Rightarrow> ended (Returns False) p
      | (Some (pid, stdOutFd), p) \<Rightarrow>
          if \<not> is_crash operation then
            let status = (case waitpid H pid 0 of
                            WaitInterrupted \<Rightarrow> junk_status H | WaitFailed \<Rightarrow> junk_status H | st \<Rightarrow> st)
            in ended (Returns (status = WaitExited 0)) (host_call (WaitFor pid) p)
          else
            (case task_for_pid H pid of
               None \<Rightarrow> ended (Returns False) (host_call (CloseFd stdOutFd) p)
             | Some task \<Rightarrow>
                 (case read_context H stdOutFd of
                    None \<Rightarrow> ended (Returns False) p
                  | Some crashContext \<Rightarrow>
                      after (CreateCoreFileImpl H task corePath (Some crashContext))
                        (\<lambda>ok p.
                           if \<not> ok then ended (Returns False) p
                           else
                             let p = host_call (KillProcess pid SIGKILL) p in
                             if \<not> kill_ok H pid then ended (Returns False) p
                             else
                               (case wait_loop H pid 0 of
                                  None \<Rightarrow> (Inl Diverges, p)
                                | Some st \<Rightarrow> ended (Returns (st = WaitSignaled SIGKILL)) (host_call (WaitFor pid) p)))
                        (host_call (CloseFd stdOutFd) p))))"

subsection \<open>The program\<close>

text \<open>An operation on the main thread, or on a thread of its own whose result is not used.\<close>

definition on_thread :: "'f host \<Rightarrow> bytes \<Rightarrow> bool \<Rightarrow> bytes \<Rightarrow> (bool, 'f) run" where
  "on_thread H operation onBackgroundThread corePath p =
     (case map_of g_operations operation of
        None \<Rightarrow> (Inl OutOfBounds, p)
      | Some opFn \<Rightarrow>
          if onBackgroundThread then after (run_operation H opFn True corePath) (\<lambda>_. ended (Returns True)) p
          else run_operation H opFn False corePath p)"

definition PerformScenario :: "'f host \<Rightarrow> bytes \<Rightarrow> bool \<Rightarrow> bool \<Rightarrow> bytes \<Rightarrow> (bool, 'f) run" where
  "PerformScenario H operation oop onBackgroundThread corePath p =
     (if oop then LaunchOOPWorkerForOperation H operation onBackgroundThread corePath p
      else
        let p = (if is_crash operation then snd (SetupSignalHandler H SignalHandler p) else p)
        in on_thread H operation onBackgroundThread corePath p)"

definition PerformOperationOOP :: "'f host \<Rightarrow> bytes \<Rightarrow> bool \<Rightarrow> bytes \<Rightarrow> (bool, 'f) run" where
  "PerformOperationOOP H operation onBackgroundThread corePath p =
     (let p = (if is_crash operation then snd (SetupSignalHandler H SignalHandlerForOOPWorker p) else p)
      in on_thread H operation onBackgroundThread corePath p)"

definition SetupMiscThreads :: "'f process \<Rightarrow> 'f process" where
  "SetupMiscThreads p = host_call (StartThread (SleepThread 60)) (host_call (StartThread SpinThread) p)"

definition usage_text :: "bytes \<Rightarrow> bytes" where
  "usage_text argv0 =
     ascii ''Usage: '' @ argv0 @ ascii '' <Operation> <IP|OOP> <MainThread|BackgroundThread> <CorePath>'' @ [10] @
     ascii ''Operations:'' @ [10] @ concat (map (\<lambda>op. [9] @ fst op @ [10]) g_operations) @ [10]"

definition PrintUsage :: "bytes \<Rightarrow> 'f process \<Rightarrow> 'f process" where
  "PrintUsage argv0 = host_call (Stdout (usage_text argv0))"

definition known_thread :: "bytes \<Rightarrow> bool" where
  "known_thread mainOrBackgroundThread \<longleftrightarrow>
     mainOrBackgroundThread = ascii ''MainThread'' \<or> mainOrBackgroundThread = ascii ''BackgroundThread''"

text \<open>A message, the usage, and the exit status 1.\<close>

definition refuse :: "bytes \<Rightarrow> string \<Rightarrow> bytes \<Rightarrow> (int, 'f) run" where
  "refuse argv0 message what p =
     ended (Returns 1) (PrintUsage argv0 (host_call (Stderr (ascii message @ what @ [10])) p))"

text \<open>The value is the exit status.\<close>

definition main :: "'f host \<Rightarrow> bytes list \<Rightarrow> (int, 'f) run" where
  "main H argv p =
     (if length argv \<noteq> 5 then
        (case argv of [] \<Rightarrow> (Inl OutOfBounds, p) | argv0 # _ \<Rightarrow> ended (Returns 1) (PrintUsage argv0 p))
      else
        let p = host_call (Syslog (ascii ''dumpTester started'')) (SetupMiscThreads p) in
        if argv ! 1 = ascii ''OOPWorker'' then
          let operation = argv ! 2; mainOrBackgroundThread = argv ! 3; corePath = argv ! 4 in
          if \<not> known_thread mainOrBackgroundThread then
            refuse (argv ! 0) ''Unknown thread type: '' mainOrBackgroundThread p
          else if map_of g_operations operation = None then
            refuse (argv ! 0) ''Unknown operation: '' operation p
          else after (PerformOperationOOP H operation (mainOrBackgroundThread = ascii ''BackgroundThread'') corePath)
                 (\<lambda>ok. ended (Returns (if ok then 0 else 1))) p
        else
          let operation = argv ! 1; oopOrIP = argv ! 2; mainOrBackgroundThread = argv ! 3;
              p = p\<lparr>g_corePath := argv ! 4\<rparr>
          in if map_of g_operations operation = None then
               refuse (argv ! 0) ''Unknown operation: '' operation p
             else if oopOrIP \<noteq> ascii ''IP'' \<and> oopOrIP \<noteq> ascii ''OOP'' then
               refuse (argv ! 0) ''Unknown process type: '' oopOrIP p
             else if \<not> known_thread mainOrBackgroundThread then
               refuse (argv ! 0) ''Unknown thread type: '' mainOrBackgroundThread p
             else after (PerformScenario H operation (oopOrIP = ascii ''OOP'')
                           (mainOrBackgroundThread = ascii ''BackgroundThread'') (g_corePath p))
                    (\<lambda>ok p. if ok then ended (Returns 0) p
                       else ended (Returns 1)
                              (host_call (Stderr (ascii ''Operation '' @ operation @ ascii '' failed'' @ [10])) p)) p)"

subsection \<open>The examples\<close>

definition CreateCoreDumpExample :: "'f host \<Rightarrow> bytes \<Rightarrow> 'f process \<Rightarrow> bool res \<times> 'f process" where
  "CreateCoreDumpExample H outputPath p =
     (let (fd, f) = sys_create H outputPath (files p); p = p\<lparr>files := f\<rparr> in
      if fd \<ge> 0 then
        dump_to_path H (self_task H) outputPath None (p\<lparr>files := sys_close (posix_of H) fd (files p)\<rparr>)
      else (Inr False, p))"

text \<open>The handler of the example of a crash fills a crash context and does not hand it over.\<close>

definition example_SignalHandler :: "'f host \<Rightarrow> ('a, 'f) run" where
  "example_SignalHandler H p =
     (let pCorePath = ascii ''/tmp/test.core'';
          (fd, f) = sys_create H pCorePath (files p);
          p = p\<lparr>files := (if fd \<ge> 0 then sys_close (posix_of H) fd f else f)\<rparr>
      in case dump_to_path H (self_task H) pCorePath None p of
           (Inl e, p) \<Rightarrow> (Inl e, p)
         | (Inr ok, p) \<Rightarrow> ended (Killed SIGKILL) p)"

definition example_SetupSignalHandler :: "'f host \<Rightarrow> handler \<Rightarrow> 'f process \<Rightarrow> 'f process" where
  "example_SetupSignalHandler H h p =
     fold (\<lambda>s p. if sigaction_ok H s then p\<lparr>handlers := (handlers p)(s := Some h)\<rparr> else p)
       [SIGSEGV, SIGBUS, SIGILL, SIGABRT, SIGFPE] p"

end
