(* ===== verification/TesterRuns.thy ===== *)
theory TesterRuns
  imports DumpTester
begin

text \<open>
  What runs of the test program come to: a crash test leaves the core file of the crash, in the
  process itself or through a worker whose context comes over a pipe; a test that does not crash
  has the same verdict either way; and the checker of leaks ends the process exactly when it owns
  more rights after a request than before.
\<close>

subsection \<open>Functions that end\<close>

lemma fst_ended [simp]: "fst (ended e p) = Inr e"
  by (simp add: ended_def)

lemma ended_eq [simp]: "ended e p = (Inr e', p') \<longleftrightarrow> e = e' \<and> p = p'"
  by (auto simp: ended_def)

lemma after_ended [simp]: "after (ended (Returns x)) f = f x" "after (ended (Killed s)) g = ended (Killed s)"
  by (simp_all add: after_def ended_def fun_eq_iff)

lemma after_after: "after (after m f) g = after m (\<lambda>x. after (f x) g)"
  by (auto simp: after_def fun_eq_iff split: prod.split sum.split ended.split)

lemma fst_after:
  assumes "\<And>x p. fst (f x p) = Inr (g x)"
  shows "fst (after m f p) = (case fst (m p) of Inl e \<Rightarrow> Inl e | Inr (Returns x) \<Rightarrow> Inr (g x)
     | Inr (Exits n) \<Rightarrow> Inr (Exits n) | Inr (Killed s) \<Rightarrow> Inr (Killed s))"
  by (simp add: after_def assms split: prod.split sum.split ended.split)

lemma fst_after_ended:
  "fst (after m (\<lambda>x. ended (g x)) p) = (case fst (m p) of Inl e \<Rightarrow> Inl e | Inr (Returns x) \<Rightarrow> Inr (g x)
     | Inr (Exits n) \<Rightarrow> Inr (Exits n) | Inr (Killed s) \<Rightarrow> Inr (Killed s))"
  by (rule fst_after) simp

subsection \<open>Operations that trap\<close>

fun access_of :: "operation \<Rightarrow> access option" where
  "access_of Op_CrashInvalidPtrWrite = Some (StoreTo InvalidPtr)"
| "access_of Op_CrashNullPtrCall = Some (CallTo 0)"
| "access_of Op_CrashInvalidPtrCall = Some (CallTo InvalidPtr)"
| "access_of Op_CrashNonExecutablePtrCall = Some CallString"
| "access_of Op_AbortPureVirtualCall = Some PureVirtualCall"
| "access_of Op_CrashInvalidPtrWriteFromObjC = Some (ObjCStoreTo InvalidPtr)"
| "access_of Op_AbortUnhandledObjCException = Some ObjCRaise"
| "access_of _ = None"

lemmas crash_operation_defs = CrashInvalidPtrWrite_def CrashNullPtrCall_def CrashInvalidPtrCall_def
  CrashNonExecutablePtrCall_def AbortPureVirtualCall_def new_Derived_def new_Base_def CallOpViaBasePtr_def
  CrashInvalidPtrWriteFromObjC_def CrashInvalidPtrWriteFromObjCImpl_def AbortUnhandledObjCException_def
  RaiseUnhandledObjCExceptionImpl_def crashInvalidPtrWrite_def raiseUnhandledException_def

lemma run_operation_traps:
  "access_of op = Some a \<Longrightarrow> run_operation H op b path = after (trap H a b) (\<lambda>_. ended (Returns False))"
  by (cases op) (simp_all add: crash_operation_defs after_after)

text \<open>A signal handler of the program never returns.\<close>

lemma deliver_ends: "after (deliver H s a b) f = deliver H s a b"
proof
  show "after (deliver H s a b) f p = deliver H s a b p" for p
  proof (cases "handlers p s")
    case None
    then show ?thesis by (simp add: after_def deliver_def ended_def)
  next
    case (Some h)
    then have "deliver H s a b p = (case h of SignalHandler \<Rightarrow> run_SignalHandler H a b p
        | SignalHandlerForOOPWorker \<Rightarrow> run_SignalHandlerForOOPWorker H a b p)" for H a b
      by (simp add: deliver_def split: handler.split)
    then show ?thesis
      using Some by (cases h) (auto simp: after_def deliver_def run_SignalHandler_def run_SignalHandlerForOOPWorker_def
          ended_def split: prod.split sum.split ended.split)
  qed
qed

lemma run_operation_delivers:
  assumes "access_of op = Some a" and "signal_of H a = Some s"
  shows "run_operation H op b path p = deliver H s a b p"
proof -
  have "trap H a b = deliver H s a b" by (simp add: trap_def fun_eq_iff assms(2))
  then show ?thesis by (simp add: run_operation_traps [OF assms(1)] deliver_ends)
qed

subsection \<open>The checker of leaks\<close>




text \<open>
  The books of the kernel: once every send right that was handed out has been returned, the
  names and the counts are those from before.
\<close>

definition books_balance :: "'f host \<Rightarrow> bool" where
  "books_balance H \<longleftrightarrow>
     (\<forall>tr. (\<forall>p. p \<noteq> MACH_PORT_NULL \<longrightarrow> deallocated p tr = obtained p tr) \<longrightarrow>
        mach_port_names H tr = mach_port_names H [] \<and> mach_port_get_refs H tr = mach_port_get_refs H [])"

lemma refs_loop_cong:
  "mach_port_get_refs H tr = mach_port_get_refs H [] \<Longrightarrow> refs_loop H tr names n = refs_loop H [] names n"
  by (induction names arbitrary: n) (simp_all add: Let_def split: option.split)

lemma leak_check_balanced:
  assumes "books_balance H" and "MiniDumpWriteDump E K S task crash s = (Inr r, tr)" and "refs_reserved K"
  shows "leak_check H (GetTotalMachPortRightsRefs H []) tr x = ended (Returns x)"
proof -
  have names: "mach_port_names H tr = mach_port_names H []" and refs: "mach_port_get_refs H tr = mach_port_get_refs H []"
    using dump_balances_send_rights [OF assms(2,3)] assms(1) unfolding books_balance_def by blast+
  then have "GetTotalMachPortRightsRefs H tr = GetTotalMachPortRightsRefs H []"
    by (simp add: GetTotalMachPortRightsRefs_def names refs_loop_cong [OF refs] split: option.split)
  then show ?thesis by (simp add: leak_check_def fun_eq_iff)
qed

lemma dump_to_path_calls:
  assumes "dump_to_path H task path crash p = (Inr ok, p')"
  shows "\<exists>r. MiniDumpWriteDump (host_env H) (kernel_of H task) (FileOStream_vtable (posix_of H)) task crash
    (new_FileOStream_path (posix_of H) path (files p)) = (Inr r, mach_calls p')"
proof -
  obtain r tr where d: "MiniDumpWriteDump (host_env H) (kernel_of H task) (FileOStream_vtable (posix_of H)) task crash
      (new_FileOStream_path (posix_of H) path (files p)) = (r, tr)" by fastforce
  show ?thesis
  proof (cases r)
    case (Inl e)
    then show ?thesis using assms d by (simp add: dump_to_path_def Let_def)
  next
    case (Inr x)
    then have "mach_calls p' = tr" using assms d by (cases x) (auto simp: dump_to_path_def Let_def)
    with d Inr show ?thesis by blast
  qed
qed

text \<open>What the function comes to once the file was made.\<close>

lemma CreateCoreFileImpl_at_file:
  assumes "sys_create H path (files p) = (fd, f)" and "fd \<ge> 0"
  shows "CreateCoreFileImpl H task path crash p =
    (case dump_to_path H task path crash (p\<lparr>files := sys_close (posix_of H) fd f\<rparr>) of
       (Inl e, p) \<Rightarrow> (Inl e, p)
     | (Inr ok, p) \<Rightarrow> leak_check H (GetTotalMachPortRightsRefs H []) (mach_calls p) ok p)"
  using assms by (simp add: CreateCoreFileImpl_def split: prod.split sum.split)

lemma CreateCoreFileImpl_returns:
  assumes "CreateCoreFileImpl H task path crash p = (Inr e, p')" and "books_balance H" and "refs_reserved (kernel_of H task)"
  shows "\<exists>ok. e = Returns ok"
proof -
  obtain fd f where c: "sys_create H path (files p) = (fd, f)" by fastforce
  show ?thesis
  proof (cases "fd \<ge> 0")
    case True
    obtain r p1 where d: "dump_to_path H task path crash (p\<lparr>files := sys_close (posix_of H) fd f\<rparr>) = (r, p1)" by fastforce
    show ?thesis
    proof (cases r)
      case (Inl x)
      then show ?thesis using assms(1) by (simp add: CreateCoreFileImpl_at_file [OF c True] d)
    next
      case (Inr ok)
      then obtain r' where "MiniDumpWriteDump (host_env H) (kernel_of H task) (FileOStream_vtable (posix_of H)) task crash
          (new_FileOStream_path (posix_of H) path (files (p\<lparr>files := sys_close (posix_of H) fd f\<rparr>))) = (Inr r', mach_calls p1)"
        using dump_to_path_calls [of H task path crash _ ok p1] d by blast
      from leak_check_balanced [OF assms(2) this assms(3), of ok] show ?thesis
        using assms(1) Inr by (simp add: CreateCoreFileImpl_at_file [OF c True] d) metis
    qed
  next
    case False
    then show ?thesis using assms(1) c by (auto simp: CreateCoreFileImpl_def ended_def leak_check_def)
  qed
qed

subsection \<open>A core file at a path\<close>

lemma dumpable_refs_reserved: "dumpable E K crash task tr threads rs ms P ss \<Longrightarrow> refs_reserved K"
  by (simp add: dumpable_def refs_reserved_def)

lemma dump_to_path_writes:
  assumes "dumpable (host_env H) (kernel_of H task) crash task tr threads rs ms P ss" and "posix_of H = regular_file fd"
  shows "\<exists>p'. dump_to_path H task path crash p = (Inr True, p') \<and>
    f_contents (files p') = file_image (core_builder P
      (dump_builder (host_env H) (kernel_of H task) crash rs ms threads)) (payload_list P) ss"
proof -
  let ?fos = "new_FileOStream_path (regular_file fd) path (files p)"
  have "file_usable fd ?fos" "f_position (os_state ?fos) = 0"
    by (simp_all add: new_FileOStream_path_def regular_file_def file_usable_def)
  then obtain s' tr' where d: "MiniDumpWriteDump (host_env H) (kernel_of H task) (FileOStream_vtable (regular_file fd)) task crash ?fos =
      (Inr (True, Some s'), tr')"
    and img: "f_contents (os_state s') = file_image (core_builder P
      (dump_builder (host_env H) (kernel_of H task) crash rs ms threads)) (payload_list P) ss"
    using request_writes_file [OF assms(1)] by blast
  have "f_contents (os_state (delete_FileOStream (regular_file fd) s')) = f_contents (os_state s')"
    by (simp add: delete_FileOStream_def Cleanup_def regular_file_def)
  with img show ?thesis by (simp add: dump_to_path_def assms(2) d)
qed

lemma CreateCoreFileImpl_writes:
  assumes "dumpable (host_env H) (kernel_of H task) crash task tr threads rs ms P ss"
    and "posix_of H = regular_file fd" and "fst (sys_create H path (files p)) \<ge> 0" and "books_balance H"
  shows "\<exists>p'. CreateCoreFileImpl H task path crash p = (Inr (Returns True), p') \<and>
    f_contents (files p') = file_image (core_builder P
      (dump_builder (host_env H) (kernel_of H task) crash rs ms threads)) (payload_list P) ss"
proof -
  obtain fd' f where c: "sys_create H path (files p) = (fd', f)" by fastforce
  then have fd': "fd' \<ge> 0" using assms(3) by simp
  obtain p1 where d: "dump_to_path H task path crash (p\<lparr>files := sys_close (posix_of H) fd' f\<rparr>) = (Inr True, p1)"
    and img: "f_contents (files p1) = file_image (core_builder P
      (dump_builder (host_env H) (kernel_of H task) crash rs ms threads)) (payload_list P) ss"
    using dump_to_path_writes [OF assms(1,2), of path] by blast
  obtain r where "MiniDumpWriteDump (host_env H) (kernel_of H task) (FileOStream_vtable (posix_of H)) task crash
        (new_FileOStream_path (posix_of H) path (files (p\<lparr>files := sys_close (posix_of H) fd' f\<rparr>))) = (Inr r, mach_calls p1)"
    using dump_to_path_calls [OF d] by blast
  from leak_check_balanced [OF assms(4) this dumpable_refs_reserved [OF assms(1)], of True]
  have "CreateCoreFileImpl H task path crash p = (Inr (Returns True), p1)"
    by (simp add: CreateCoreFileImpl_at_file [OF c fd'] d)
  with img show ?thesis by blast
qed

subsection \<open>Operations\<close>

lemma crash_names_match:
  "map_of g_operations operation = Some op \<Longrightarrow> is_crash operation \<longleftrightarrow> access_of op \<noteq> None"
proof -
  have "list_all (\<lambda>(n, op). is_crash n = (access_of op \<noteq> None)) g_operations" by code_simp
  then show "map_of g_operations operation = Some op \<Longrightarrow> ?thesis"
    by (auto simp: list_all_iff dest!: map_of_SomeD)
qed

lemma no_worker_operation: "map_of g_operations (ascii ''OOPWorker'') = None"
  by code_simp

lemma thread_names: "ascii ''MainThread'' \<noteq> ascii ''BackgroundThread''" "ascii ''IP'' \<noteq> ascii ''OOP''"
  by code_simp+

text \<open>A process enters an operation only with its files.\<close>

lemma dump_to_path_cong:
  assumes "files w = files p"
  shows "fst (dump_to_path H task path crash w) = fst (dump_to_path H task path crash p) \<and>
    (isl (fst (dump_to_path H task path crash p)) \<or>
     mach_calls (snd (dump_to_path H task path crash w)) = mach_calls (snd (dump_to_path H task path crash p)))"
  by (simp add: dump_to_path_def assms Let_def split: prod.split sum.split option.split)

lemma CreateCoreFileImpl_cong:
  assumes "files w = files p"
  shows "fst (CreateCoreFileImpl H task path crash w) = fst (CreateCoreFileImpl H task path crash p)"
proof -
  obtain fd f where c: "sys_create H path (files p) = (fd, f)" by fastforce
  show ?thesis
  proof (cases "fd \<ge> 0")
    case True
    let ?w = "w\<lparr>files := sys_close (posix_of H) fd f\<rparr>" and ?p = "p\<lparr>files := sys_close (posix_of H) fd f\<rparr>"
    have "fst (dump_to_path H task path crash ?w) = fst (dump_to_path H task path crash ?p) \<and>
      (isl (fst (dump_to_path H task path crash ?p)) \<or>
       mach_calls (snd (dump_to_path H task path crash ?w)) = mach_calls (snd (dump_to_path H task path crash ?p)))"
      by (rule dump_to_path_cong) simp
    then show ?thesis
      by (cases "dump_to_path H task path crash ?w"; cases "dump_to_path H task path crash ?p")
        (auto simp: CreateCoreFileImpl_at_file [OF c True] CreateCoreFileImpl_at_file [OF c [folded assms] True]
          leak_check_def Let_def split: sum.split)
  next
    case False
    then show ?thesis using c by (simp add: CreateCoreFileImpl_def assms leak_check_def)
  qed
qed

lemma CreateCoreFileImpl_ends:
  "fst (CreateCoreFileImpl H task path crash p) \<in> range Inl \<union> {Inr (Returns True), Inr (Returns False), Inr (Exits 1)}"
proof -
  have "fst (leak_check H n tr x q) \<in> {Inr (Returns True), Inr (Returns False), Inr (Exits 1)}" for n tr x q
    by (cases x) (simp_all add: leak_check_def Let_def)
  then show ?thesis
    by (auto simp: CreateCoreFileImpl_def Let_def split: prod.split sum.split)
qed

lemma exit_after_core_file:
  "fst (after (CreateCoreFileImpl H task path crash) (\<lambda>ok. ended (Exits (if ok then 0 else 1))) p)
     \<in> range Inl \<union> {Inr (Exits 0), Inr (Exits 1)}"
  using CreateCoreFileImpl_ends [of H task path crash p] by (auto simp: fst_after_ended)

lemma quiet_operation:
  assumes "access_of op = None"
  shows "files w = files p \<Longrightarrow> fst (run_operation H op b path w) = fst (run_operation H op b path p)"
    and "fst (run_operation H op b path p) \<in> range Inl \<union> {Inr (Returns True), Inr (Returns False), Inr (Exits 0), Inr (Exits 1)}"
proof -
  have "op = Op_CreateCoreFile \<or> op = Op_CorruptHeapThenCreateCoreFile \<or> op = Op_CreateCoreFromC"
    using assms by (cases op) simp_all
  moreover have "fst (CorruptHeapThenCreateCoreFile H path w) = fst (CorruptHeapThenCreateCoreFile H path p)"
    if "files w = files p"
    using CreateCoreFileImpl_cong [of "host_call c (host_call c' w)" "host_call c (host_call c' p)" for c c'] that
    by (simp add: CorruptHeapThenCreateCoreFile_def fst_after_ended host_call_def Let_def split: option.split)
  moreover have "fst (CreateCoreFromC H path w) = fst (CreateCoreFromC H path p)" if "files w = files p"
    by (simp add: CreateCoreFromC_def CreateCoreFromCImpl_def fst_after_ended that Let_def split: prod.split sum.split)
  moreover have "fst (CorruptHeapThenCreateCoreFile H path p) \<in> range Inl \<union> {Inr (Returns False), Inr (Exits 0), Inr (Exits 1)}"
    using exit_after_core_file [of H "self_task H" path None]
    by (auto simp: CorruptHeapThenCreateCoreFile_def Let_def split: option.split)
  moreover have "fst (CreateCoreFromC H path p) \<in> range Inl \<union> {Inr (Returns True)}"
    by (auto simp: CreateCoreFromC_def CreateCoreFromCImpl_def fst_after_ended Let_def split: prod.split sum.split)
  ultimately show "files w = files p \<Longrightarrow> fst (run_operation H op b path w) = fst (run_operation H op b path p)"
    and "fst (run_operation H op b path p) \<in> range Inl \<union> {Inr (Returns True), Inr (Returns False), Inr (Exits 0), Inr (Exits 1)}"
    using CreateCoreFileImpl_cong [of w p H "self_task H" path None] CreateCoreFileImpl_ends [of H "self_task H" path None p]
    by (auto simp: CreateCoreFile_def)
qed

lemma quiet_on_thread:
  assumes "map_of g_operations operation = Some op" and "access_of op = None"
  shows "files w = files p \<Longrightarrow> fst (on_thread H operation b path w) = fst (on_thread H operation b path p)"
    and "fst (on_thread H operation b path p) \<in> range Inl \<union> {Inr (Returns True), Inr (Returns False), Inr (Exits 0), Inr (Exits 1)}"
proof -
  show "fst (on_thread H operation b path w) = fst (on_thread H operation b path p)" if eq: "files w = files p"
    using quiet_operation(1) [OF assms(2) eq, of H b path]
    by (cases b) (simp_all add: on_thread_def assms(1) fst_after_ended)
  show "fst (on_thread H operation b path p) \<in> range Inl \<union> {Inr (Returns True), Inr (Returns False), Inr (Exits 0), Inr (Exits 1)}"
    using quiet_operation(2) [OF assms(2), of H b path p] by (auto simp: on_thread_def assms(1) fst_after_ended)
qed

text \<open>The exit status, from the result of the scenario; the launching process says when it failed.\<close>

abbreviation verdict :: "bool \<Rightarrow> (int, 'f) run" where
  "verdict ok \<equiv> ended (Returns (if ok then 0 else 1))"

definition spoken_verdict :: "bytes \<Rightarrow> bool \<Rightarrow> (int, 'f) run" where
  "spoken_verdict operation ok p =
     (if ok then ended (Returns 0) p
      else ended (Returns 1) (host_call (Stderr (ascii ''Operation '' @ operation @ ascii '' failed'' @ [10])) p))"

lemma fst_spoken_verdict: "fst (spoken_verdict operation ok p) = Inr (Returns (if ok then 0 else 1))"
  by (simp add: spoken_verdict_def)

definition started :: "'f process \<Rightarrow> 'f process" where
  "started p = host_call (Syslog (ascii ''dumpTester started'')) (SetupMiscThreads p)"

lemma started_fields [simp]: "files (started p) = files p" "handlers (started p) = handlers p"
  by (simp_all add: started_def SetupMiscThreads_def host_call_def)

lemma main_in_process:
  assumes "map_of g_operations operation = Some op" and "known_thread thread"
  shows "main H [exe, operation, ascii ''IP'', thread, path] p =
    after (PerformScenario H operation False (thread = ascii ''BackgroundThread'') path) (spoken_verdict operation)
      (started p\<lparr>g_corePath := path\<rparr>)"
    and "main H [exe, operation, ascii ''OOP'', thread, path] p =
    after (PerformScenario H operation True (thread = ascii ''BackgroundThread'') path) (spoken_verdict operation)
      (started p\<lparr>g_corePath := path\<rparr>)"
    and "main H [exe, ascii ''OOPWorker'', operation, thread, path] p =
    after (PerformOperationOOP H operation (thread = ascii ''BackgroundThread'') path) verdict (started p)"
proof -
  have "operation \<noteq> ascii ''OOPWorker''" using assms(1) no_worker_operation by auto
  then show "main H [exe, operation, ascii ''IP'', thread, path] p =
    after (PerformScenario H operation False (thread = ascii ''BackgroundThread'') path) (spoken_verdict operation)
      (started p\<lparr>g_corePath := path\<rparr>)"
    and "main H [exe, operation, ascii ''OOP'', thread, path] p =
    after (PerformScenario H operation True (thread = ascii ''BackgroundThread'') path) (spoken_verdict operation)
      (started p\<lparr>g_corePath := path\<rparr>)"
    using assms thread_names(2)
    by (simp_all add: main_def Let_def started_def spoken_verdict_def [abs_def] cong: if_cong)
  show "main H [exe, ascii ''OOPWorker'', operation, thread, path] p =
    after (PerformOperationOOP H operation (thread = ascii ''BackgroundThread'') path) verdict (started p)"
    using assms by (simp add: main_def Let_def started_def)
qed

text \<open>What \<open>waitpid\<close> says of a process that ended so.\<close>

fun wait_of :: "int ended \<Rightarrow> wait_result" where
  "wait_of (Returns n) = WaitExited n"
| "wait_of (Exits n) = WaitExited n"
| "wait_of (Killed s) = WaitSignaled s"

lemma installed:
  assumes "\<forall>s. s \<noteq> SIGKILL \<longrightarrow> sigaction_ok H s" and "s \<noteq> SIGKILL"
  shows "handlers (snd (SetupSignalHandler H h p)) s = Some h" "files (snd (SetupSignalHandler H h p)) = files p"
    "g_corePath (snd (SetupSignalHandler H h p)) = g_corePath p"
proof -
  have "\<forall>s. s \<noteq> SIGKILL \<longrightarrow> handlers (snd (SetupSignalHandler H h p)) s = Some h"
    using assms(1) by (simp add: all_signals SetupSignalHandler_def)
  then show "handlers (snd (SetupSignalHandler H h p)) s = Some h" using assms(2) by blast
  show "files (snd (SetupSignalHandler H h p)) = files p" "g_corePath (snd (SetupSignalHandler H h p)) = g_corePath p"
    using assms(1) by (simp_all add: SetupSignalHandler_def)
qed

text \<open>A worker whose operation traps sends the context of the crash, and lives until it is killed.\<close>

lemma worker_sends_context:
  assumes "map_of g_operations operation = Some op" and "access_of op = Some a" and "signal_of H a = Some s"
    and "s \<noteq> SIGKILL" and "\<forall>s. s \<noteq> SIGKILL \<longrightarrow> sigaction_ok H s" and "known_thread thread"
  shows "\<exists>w'. main H [exe, ascii ''OOPWorker'', operation, thread, path] w = (Inr (Killed SIGKILL), w') \<and>
    last (host_calls w') = WriteContext (crash_context H a (thread = ascii ''BackgroundThread''))"
proof -
  let ?b = "thread = ascii ''BackgroundThread''" and ?w = "snd (SetupSignalHandler H SignalHandlerForOOPWorker (started w))"
  let ?w' = "host_call (WriteContext (crash_context H a ?b)) ?w"
  have crash: "is_crash operation" using crash_names_match [OF assms(1)] assms(2) by simp
  have "run_operation H op ?b path ?w = (Inr (Killed SIGKILL), ?w')"
    by (simp add: run_operation_delivers [OF assms(2,3)] deliver_def installed [OF assms(5,4)]
        run_SignalHandlerForOOPWorker_def)
  then have "on_thread H operation ?b path ?w = (Inr (Killed SIGKILL), ?w')"
    by (cases ?b) (simp_all add: on_thread_def assms(1) after_def)
  then have "main H [exe, ascii ''OOPWorker'', operation, thread, path] w = (Inr (Killed SIGKILL), ?w')"
    by (simp add: main_in_process(3) [OF assms(1,6)] PerformOperationOOP_def crash after_def)
  then show ?thesis by (intro exI [of _ ?w']) (simp add: host_call_def)
qed

lemma wait_loop_ends:
  assumes "\<forall>m. k \<le> m \<and> m < k + n \<longrightarrow> waitpid H pid m = WaitInterrupted" and "waitpid H pid (k + n) \<noteq> WaitInterrupted"
  shows "wait_loop H pid k = Some (waitpid H pid (k + n))"
  using assms
proof (induction n arbitrary: k)
  case 0
  then show ?case by (simp add: wait_loop.simps)
next
  case (Suc n)
  have "wait_loop H pid (Suc k) = Some (waitpid H pid (Suc k + n))" using Suc.prems by (intro Suc.IH) auto
  then show ?case using Suc.prems(1) by (simp add: wait_loop.simps [of H pid k])
qed

lemma LaunchOOPWorker_crash:
  assumes "is_crash operation" and "CreateOOPWorker H operation b True path p = (Some (pid, fd), q)"
    and "task_for_pid H pid = Some task" and "read_context H fd = Some c"
    and "CreateCoreFileImpl H task path (Some c) (host_call (CloseFd fd) q) = (Inr (Returns True), p')"
    and "kill_ok H pid" and "waitpid H pid n = WaitSignaled SIGKILL" and "\<forall>m < n. waitpid H pid m = WaitInterrupted"
  shows "LaunchOOPWorkerForOperation H operation b path p =
    (Inr (Returns True), host_call (WaitFor pid) (host_call (KillProcess pid SIGKILL) p'))"
proof -
  have "wait_loop H pid 0 = Some (WaitSignaled SIGKILL)"
    using wait_loop_ends [of 0 n H pid] assms(7,8) by simp
  then show ?thesis
    by (simp add: LaunchOOPWorkerForOperation_def assms after_def)
qed

subsection \<open>A concrete host\<close>

text \<open>
  The task of the concrete request, asked by a program that holds two rights to its thread 7 and
  none to those of the others; every system call succeeds, every access traps.
\<close>

definition demo_host :: "disk_file host" where
  "demo_host =
     \<lparr>host_env = demo_request_env, kernel_of = (\<lambda>task. demo_request_kernel), self_task = 1,
      mach_port_names = (\<lambda>tr. Some [7]),
      mach_port_get_refs = (\<lambda>tr p k. Some (if k = MACH_PORT_RIGHT_SEND \<and> p \<noteq> MACH_PORT_NULL
        then of_nat (2 + obtained p tr - deallocated p tr) else 0)),
      posix_of = regular_file 3,
      sys_create = (\<lambda>path f. (3, \<lparr>f_contents = [], f_position = 0, f_open = True\<rparr>)),
      any_files = \<lparr>f_contents = [], f_position = 0, f_open = False\<rparr>,
      sigaction_ok = (\<lambda>s. True), signal_of = (\<lambda>a. Some (if a = PureVirtualCall then SIGABRT else SIGSEGV)),
      machine_context = (\<lambda>a b. (demo_request_state, demo_request_exception)), pthread_threadid = (\<lambda>b. 7),
      malloc_get_all_zones = Some [(0x7000, Some (ascii ''DefaultMallocZone''))],
      NSGetExecutablePath = Some (ascii ''/bin/dumpTester''), sys_pipe = Some (4, 5),
      posix_spawn = (\<lambda>argv b. Some 100), junk_pid = 0, junk_status = WaitExited 0,
      waitpid = (\<lambda>pid n. WaitExited 0), task_for_pid = (\<lambda>pid. Some 1), read_context = (\<lambda>fd. None),
      kill_ok = (\<lambda>pid. True)\<rparr>"

definition demo_process :: "disk_file process" where
  "demo_process = \<lparr>files = \<lparr>f_contents = [], f_position = 0, f_open = False\<rparr>, mach_calls = [], host_calls = [],
     handlers = (\<lambda>s. None), g_corePath = []\<rparr>"

lemma demo_host_fields [simp]:
  "host_env demo_host = demo_request_env" "kernel_of demo_host task = demo_request_kernel" "self_task demo_host = 1"
  "posix_of demo_host = regular_file 3" "fst (sys_create demo_host path f) = 3" "sigaction_ok demo_host s"
  "signal_of demo_host a = Some (if a = PureVirtualCall then SIGABRT else SIGSEGV)"
  "NSGetExecutablePath demo_host = Some (ascii ''/bin/dumpTester'')" "posix_spawn demo_host argv b = Some 100"
  "waitpid demo_host pid n = WaitExited 0"
  by (simp_all add: demo_host_def)

lemma demo_books: "books_balance demo_host"
  by (auto simp: books_balance_def demo_host_def obtained_def deallocated_def fun_eq_iff)

lemma demo_create:
  "\<exists>p'. CreateCoreFileImpl demo_host 1 path None p = (Inr (Returns True), p')"
  using CreateCoreFileImpl_writes [of demo_host 1 None, unfolded demo_host_fields, OF demo_request_dumpable refl, of path p]
    demo_books by auto

definition demo_crash :: CrashContext where
  "demo_crash = \<lparr>crash_ss = demo_request_state, crash_es = demo_request_exception, crashedTID = 7\<rparr>"

lemma demo_crash_context: "crash_context demo_host a b = demo_crash"
  by (simp add: crash_context_def demo_crash_def demo_host_def)

text \<open>The same host with a worker that sends this context and, after one interruption, ends by the signal.\<close>

definition demo_worker_host :: "disk_file host" where
  "demo_worker_host = demo_host
     \<lparr>read_context := (\<lambda>fd. Some demo_crash),
      waitpid := (\<lambda>pid n. if n = 0 then WaitInterrupted else WaitSignaled SIGKILL)\<rparr>"

lemma demo_worker_host_fields:
  "host_env demo_worker_host = demo_request_env" "kernel_of demo_worker_host task = demo_request_kernel"
  "crash_context demo_worker_host a b = demo_crash" "posix_of demo_worker_host = regular_file 3"
  "sys_create demo_worker_host = sys_create demo_host" "signal_of demo_worker_host = signal_of demo_host"
  "sigaction_ok demo_worker_host s" "kill_ok demo_worker_host pid" "task_for_pid demo_worker_host pid = Some 1"
  "NSGetExecutablePath demo_worker_host = Some (ascii ''/bin/dumpTester'')" "sys_pipe demo_worker_host = Some (4, 5)"
  "posix_spawn demo_worker_host argv out = Some 100" "books_balance demo_worker_host"
proof -
  show "crash_context demo_worker_host a b = demo_crash"
    using demo_crash_context [of a b] by (simp add: demo_worker_host_def crash_context_def)
  have "mach_port_names demo_worker_host = mach_port_names demo_host"
    "mach_port_get_refs demo_worker_host = mach_port_get_refs demo_host"
    by (simp_all add: demo_worker_host_def)
  then show "books_balance demo_worker_host" using demo_books unfolding books_balance_def by presburger
qed (simp_all add: demo_worker_host_def demo_host_def)

text \<open>The crash context holds what the kernel says of the thread, so that the request is the same.\<close>

lemma demo_crash_dumpable:
  "dumpable demo_request_env demo_request_kernel (Some demo_crash) 1 demo_request_trace [5, 7, 9] demo_request_regions
     demo_modules demo_request_payloads [[7, 7, 7, 7, 7, 7, 7, 7]]"
proof -
  let ?E = demo_request_env and ?K = demo_request_kernel and ?c = "Some demo_crash"
  have "thread_tid ?K p = 7 \<longleftrightarrow> p = 7" for p
  proof -
    have "thread_tid ?K p = ucast p"
      by (simp add: thread_tid_def demo_request_kernel_def demo_dump_kernel_def dyld_kernel.defs)
    moreover have "(ucast p :: u64) = ucast (7 :: port) \<longleftrightarrow> p = 7" by (simp add: word_uint_eq_iff uint_up_ucast is_up)
    ultimately show ?thesis by simp
  qed
  then have regs: "thread_registers ?K ?c p = thread_registers ?K None p" for p
    using demo_request_fields(8) [of p]
    by (auto simp: thread_registers_def demo_crash_def split: option.splits if_splits)
  have "thread_request ?E ?K ?c rs ms p = thread_request ?E ?K None rs ms p" for rs ms p
    by (simp add: thread_request_def regs demo_request_fields stack_ranges_def split: option.split)
  then have ranges: "memory_ranges ?E ?K ?c rs ms threads = memory_ranges ?E ?K None rs ms threads" for rs ms threads
    by (simp add: memory_ranges_def all_requests_def cong: map_cong)
  have cap: "captured ?K ?c = captured ?K None" and com: "thread_command ?E ?K ?c = thread_command ?E ?K None"
    and ips: "thread_ips ?E ?K ?c rs ms = thread_ips ?E ?K None rs ms" for rs ms
    by (simp_all add: fun_eq_iff captured_def thread_command_def thread_ips_def regs)
  have builder: "dump_builder ?E ?K ?c rs ms threads = dump_builder ?E ?K None rs ms threads" for rs ms threads
    by (simp add: dump_builder_def ranges cap com)
  have rest: "walks_return ?E ?K ?c rs ms threads = walks_return ?E ?K None rs ms threads"
    "no_edge_addresses ?E ?K ?c rs ms threads = no_edge_addresses ?E ?K None rs ms threads"
    "typed_states ?E ?K ?c = typed_states ?E ?K None" for rs ms threads
    by (simp_all add: walks_return_def no_edge_addresses_def typed_states_def regs)
  show ?thesis
    using demo_request_dumpable unfolding dumpable_def builder rest cap ips .
qed

subsection \<open>Properties\<close>




text \<open>C8. A crash test does what it is for: an operation that traps, in the process itself and on either
  thread, runs the signal handler, which leaves at the path the core file of the crashed task, with
  the registers of the crashed thread taken from the signal, and then ends the process.\<close>

theorem crash_test_leaves_core_file:
  assumes "map_of g_operations operation = Some op" and "access_of op = Some a" and "signal_of H a = Some s"
    and "s \<noteq> SIGKILL" and "\<forall>s. s \<noteq> SIGKILL \<longrightarrow> sigaction_ok H s" and "known_thread thread"
    and "b = (thread = ascii ''BackgroundThread'')"
    and "dumpable (host_env H) (kernel_of H (self_task H)) (Some (crash_context H a b)) (self_task H) tr threads rs ms P ss"
    and "posix_of H = regular_file fd" and "\<forall>f. fst (sys_create H path f) \<ge> 0" and "books_balance H"
  shows "\<exists>p'. main H [exe, operation, ascii ''IP'', thread, path] p = (Inr (Killed SIGKILL), p') \<and>
    f_contents (files p') = file_image (core_builder P
      (dump_builder (host_env H) (kernel_of H (self_task H)) (Some (crash_context H a b)) rs ms threads)) (payload_list P) ss"
proof -
  let ?p = "snd (SetupSignalHandler H SignalHandler (started p\<lparr>g_corePath := path\<rparr>))"
  have crash: "is_crash operation" using crash_names_match [OF assms(1)] assms(2) by simp
  have "fst (sys_create H path (files ?p)) \<ge> 0" using assms(10) by blast
  from CreateCoreFileImpl_writes [OF assms(8,9) this assms(11)]
  obtain p' where run: "CreateCoreFileImpl H (self_task H) path (Some (crash_context H a b)) ?p = (Inr (Returns True), p')"
    and img: "f_contents (files p') = file_image (core_builder P
      (dump_builder (host_env H) (kernel_of H (self_task H)) (Some (crash_context H a b)) rs ms threads)) (payload_list P) ss"
    by (elim exE conjE) (rule that)
  have "run_operation H op b path ?p = (Inr (Killed SIGKILL), p')"
    using run by (simp add: run_operation_delivers [OF assms(2,3)] deliver_def installed [OF assms(5,4)]
        run_SignalHandler_def after_def ended_def)
  then have "on_thread H operation b path ?p = (Inr (Killed SIGKILL), p')"
    by (cases b) (simp_all add: on_thread_def assms(1) after_def)
  then have "main H [exe, operation, ascii ''IP'', thread, path] p = (Inr (Killed SIGKILL), p')"
    by (simp add: main_in_process(1) [OF assms(1,6)] PerformScenario_def crash assms(7) after_def)
  with img show ?thesis by blast
qed

lemma crash_test_leaves_core_file_witness:
  "\<exists>p'. main demo_host [ascii ''dumpTester'', ascii ''CrashNullPtrCall'', ascii ''IP'', ascii ''MainThread'', ascii ''core''] demo_process =
      (Inr (Killed SIGKILL), p') \<and>
    f_contents (files p') = file_image (core_builder demo_request_payloads (dump_builder demo_request_env demo_request_kernel
      (Some demo_crash) demo_request_regions demo_modules [5, 7, 9])) (payload_list demo_request_payloads)
      [[7, 7, 7, 7, 7, 7, 7, 7]]"
proof -
  have op: "map_of g_operations (ascii ''CrashNullPtrCall'') = Some Op_CrashNullPtrCall"
    and th: "known_thread (ascii ''MainThread'')"
    by code_simp+
  have D: "dumpable (host_env demo_host) (kernel_of demo_host (self_task demo_host)) (Some (crash_context demo_host (CallTo 0) b))
      (self_task demo_host) demo_request_trace [5, 7, 9] demo_request_regions demo_modules demo_request_payloads
      [[7, 7, 7, 7, 7, 7, 7, 7]]" for b
    using demo_crash_dumpable by (simp add: demo_crash_context)
  have s: "signal_of demo_host (CallTo 0) = Some SIGSEGV" "SIGSEGV \<noteq> SIGKILL" "\<forall>s. s \<noteq> SIGKILL \<longrightarrow> sigaction_ok demo_host s"
    "\<forall>f. 0 \<le> fst (sys_create demo_host (ascii ''core'') f)"
    by simp_all
  show ?thesis
    using crash_test_leaves_core_file [OF op access_of.simps(2) s(1-3) th refl D _ s(4) demo_books, of 3 "ascii ''dumpTester''" demo_process]
    by (simp add: demo_crash_context)
qed

text \<open>C40. For the operations that do not crash it makes no difference where they run: the program that
  launches a worker ends with status 0 exactly when it would have ended with status 0 by itself, and
  with status 1 otherwise, provided that the worker is spawned and the kernel reports how it ended.\<close>

theorem worker_gives_same_verdict:
  assumes "map_of g_operations operation = Some op" and "\<not> is_crash operation" and "known_thread thread"
    and "NSGetExecutablePath H = Some exe"
    and "posix_spawn H [exe, ascii ''OOPWorker'', operation, thread, path] False = Some pid"
    and "main H [exe, ascii ''OOPWorker'', operation, thread, path] w = (Inr e, w')" and "files w = files p"
    and "waitpid H pid 0 = wait_of e"
  shows "fst (main H [exe, operation, ascii ''IP'', thread, path] p) = Inr e \<and>
    fst (main H [exe, operation, ascii ''OOP'', thread, path] p) = Inr (Returns (if wait_of e = WaitExited 0 then 0 else 1)) \<and>
    wait_of e \<in> {WaitExited 0, WaitExited 1}"
proof -
  let ?b = "thread = ascii ''BackgroundThread''"
  have quiet: "access_of op = None" using crash_names_match [OF assms(1)] assms(2) by simp
  have same: "fst (on_thread H operation ?b path (started p\<lparr>g_corePath := path\<rparr>)) =
      fst (on_thread H operation ?b path (started w))"
    by (rule quiet_on_thread(1) [OF assms(1) quiet]) (simp add: assms(7))
  have worker: "fst (after (on_thread H operation ?b path) verdict (started w)) = Inr e"
    using assms(6) by (simp add: main_in_process(3) [OF assms(1,3)] PerformOperationOOP_def assms(2) after_def)
  then have ip: "fst (main H [exe, operation, ascii ''IP'', thread, path] p) = Inr e"
    using same by (simp add: main_in_process(1) [OF assms(1,3)] fst_after_ended fst_after [OF fst_spoken_verdict]
        PerformScenario_def assms(2))
  have e: "wait_of e \<in> {WaitExited 0, WaitExited 1}"
    using worker quiet_on_thread(2) [OF assms(1) quiet, of H ?b path "started w"] by (auto simp: fst_after_ended)
  have arg: "ascii (if ?b then ''BackgroundThread'' else ''MainThread'') = thread"
    using assms(3) by (auto simp: known_thread_def)
  have "fst (main H [exe, operation, ascii ''OOP'', thread, path] p) = Inr (Returns (if wait_of e = WaitExited 0 then 0 else 1))"
    using e assms(5)
    by (auto simp: main_in_process(2) [OF assms(1,3)] PerformScenario_def LaunchOOPWorkerForOperation_def
        CreateOOPWorker_def assms(2,4,8) arg after_def ended_def fst_spoken_verdict)
  with ip e show ?thesis by blast
qed

lemma worker_gives_same_verdict_witness:
  "fst (main demo_host [ascii ''/bin/dumpTester'', ascii ''CreateCore'', ascii ''OOP'', ascii ''MainThread'', ascii ''core'']
     demo_process) = Inr (Returns 0)"
proof -
  let ?exe = "ascii ''/bin/dumpTester''" and ?op = "ascii ''CreateCore''" and ?th = "ascii ''MainThread''" and ?path = "ascii ''core''"
  have op: "map_of g_operations ?op = Some Op_CreateCoreFile" and crash: "\<not> is_crash ?op" and th: "known_thread ?th"
    by code_simp+
  obtain p' where "CreateCoreFileImpl demo_host 1 ?path None (started demo_process) = (Inr (Returns True), p')"
    using demo_create by blast
  then have worker: "main demo_host [?exe, ascii ''OOPWorker'', ?op, ?th, ?path] demo_process = (Inr (Returns 0), p')"
    by (simp add: main_in_process(3) [OF op th] PerformOperationOOP_def crash after_def on_thread_def op thread_names(1)
        CreateCoreFile_def ended_def)
  from worker_gives_same_verdict [OF op crash th _ _ worker refl, of 100] show ?thesis by simp
qed

text \<open>C9. A crash in a worker process gives the same file from the outside: the program that launched the
  worker reads the context which the worker's signal handler wrote to the pipe, leaves at the path
  the core file of the worker's task with the registers of the crash, kills the worker, waits for
  it however often it is interrupted, and ends with status 0.\<close>

theorem worker_crash_reaches_core_file:
  assumes "map_of g_operations operation = Some op" and "access_of op = Some a" and "signal_of H a = Some s"
    and "s \<noteq> SIGKILL" and "\<forall>s. s \<noteq> SIGKILL \<longrightarrow> sigaction_ok H s" and "known_thread thread"
    and "NSGetExecutablePath H = Some exe" and "sys_pipe H = Some (rd, wr)"
    and "posix_spawn H [exe, ascii ''OOPWorker'', operation, thread, path] True = Some pid"
    and "task_for_pid H pid = Some task"
    and "\<forall>c. last (host_calls (snd (main H [exe, ascii ''OOPWorker'', operation, thread, path] w))) = WriteContext c \<longrightarrow>
      read_context H rd = Some c"
    and "C = crash_context H a (thread = ascii ''BackgroundThread'')"
    and "dumpable (host_env H) (kernel_of H task) (Some C) task tr threads rs ms P ss"
    and "posix_of H = regular_file fd" and "\<forall>f. fst (sys_create H path f) \<ge> 0" and "books_balance H"
    and "kill_ok H pid" and "waitpid H pid n = WaitSignaled SIGKILL" and "\<forall>m < n. waitpid H pid m = WaitInterrupted"
  shows "\<exists>p'. main H [exe, operation, ascii ''OOP'', thread, path] p = (Inr (Returns 0), p') \<and>
    f_contents (files p') = file_image (core_builder P
      (dump_builder (host_env H) (kernel_of H task) (Some C) rs ms threads)) (payload_list P) ss \<and>
    KillProcess pid SIGKILL \<in> set (host_calls p')"
proof -
  let ?b = "thread = ascii ''BackgroundThread''" and ?p = "started p\<lparr>g_corePath := path\<rparr>"
  let ?argv = "[exe, ascii ''OOPWorker'', operation, thread, path]"
  let ?q = "host_call (CloseFd wr) (host_call (SpawnWorker ?argv True) ?p)"
  have crash: "is_crash operation" using crash_names_match [OF assms(1)] assms(2) by simp
  have ctx: "read_context H rd = Some C"
    using worker_sends_context [OF assms(1-6), of exe path w] assms(11,12) by auto
  have "ascii (if ?b then ''BackgroundThread'' else ''MainThread'') = thread"
    using assms(6) by (auto simp: known_thread_def)
  then have worker: "CreateOOPWorker H operation ?b True path ?p = (Some (pid, rd), ?q)"
    using assms(7-9) by (simp add: CreateOOPWorker_def)
  have "fst (sys_create H path (files (host_call (CloseFd rd) ?q))) \<ge> 0" using assms(15) by blast
  from CreateCoreFileImpl_writes [OF assms(13,14) this assms(16)]
  obtain p' where run: "CreateCoreFileImpl H task path (Some C) (host_call (CloseFd rd) ?q) = (Inr (Returns True), p')"
    and img: "f_contents (files p') = file_image (core_builder P
      (dump_builder (host_env H) (kernel_of H task) (Some C) rs ms threads)) (payload_list P) ss"
    by (elim exE conjE) (rule that)
  let ?p' = "host_call (WaitFor pid) (host_call (KillProcess pid SIGKILL) p')"
  have "main H [exe, operation, ascii ''OOP'', thread, path] p = (Inr (Returns 0), ?p')"
    using LaunchOOPWorker_crash [OF crash worker assms(10) ctx run assms(17-19)]
    by (simp add: main_in_process(2) [OF assms(1,6)] PerformScenario_def after_def spoken_verdict_def)
  moreover have "f_contents (files ?p') = f_contents (files p')" "KillProcess pid SIGKILL \<in> set (host_calls ?p')"
    by (simp_all add: host_call_def)
  ultimately show ?thesis using img by (intro exI [of _ ?p']) simp
qed

lemma worker_crash_reaches_core_file_witness:
  "\<exists>p'. main demo_worker_host [ascii ''/bin/dumpTester'', ascii ''CrashNullPtrCall'', ascii ''OOP'', ascii ''MainThread'',
      ascii ''core''] demo_process = (Inr (Returns 0), p') \<and>
    f_contents (files p') = file_image (core_builder demo_request_payloads (dump_builder demo_request_env demo_request_kernel
      (Some demo_crash) demo_request_regions demo_modules [5, 7, 9])) (payload_list demo_request_payloads)
      [[7, 7, 7, 7, 7, 7, 7, 7]]"
proof -
  let ?H = demo_worker_host
  have op: "map_of g_operations (ascii ''CrashNullPtrCall'') = Some Op_CrashNullPtrCall"
    and th: "known_thread (ascii ''MainThread'')"
    by code_simp+
  have s: "signal_of ?H (CallTo 0) = Some SIGSEGV" "SIGSEGV \<noteq> SIGKILL" "\<forall>s. s \<noteq> SIGKILL \<longrightarrow> sigaction_ok ?H s"
    "\<forall>f. 0 \<le> fst (sys_create ?H (ascii ''core'') f)"
    by (simp_all add: demo_worker_host_fields)
  have c: "\<forall>c. last (host_calls (snd (main ?H [ascii ''/bin/dumpTester'', ascii ''OOPWorker'', ascii ''CrashNullPtrCall'',
      ascii ''MainThread'', ascii ''core''] demo_process))) = WriteContext c \<longrightarrow> read_context ?H 4 = Some c"
    using worker_sends_context [OF op access_of.simps(2) s(1-3) th, of "ascii ''/bin/dumpTester''" "ascii ''core''" demo_process]
    by (auto simp: demo_worker_host_fields) (simp add: demo_worker_host_def)
  have w: "waitpid ?H 100 1 = WaitSignaled SIGKILL" "\<forall>m < 1. waitpid ?H 100 m = WaitInterrupted"
    by (simp_all add: demo_worker_host_def)
  show ?thesis
    using worker_crash_reaches_core_file [OF op access_of.simps(2) s(1-3) th demo_worker_host_fields(10,11,12,9) c refl _
        demo_worker_host_fields(4) s(4) demo_worker_host_fields(13,8) w, unfolded demo_worker_host_fields,
        OF demo_crash_dumpable, of demo_process]
    by blast
qed

end
