(* ===== verification/DumpErrors.thy ===== *)
theory DumpErrors
  imports DumpFile
begin

text \<open>
  How a request fails. Each step that can end it is one case, in the order of the code, with what
  the stream holds then; once the stream was emptied nothing touches it before \<open>Build\<close>, which
  gets the threads and segments that were collected.
\<close>

subsection \<open>The module list\<close>

lemma MarkAsExecuting_empty: "snd (MarkAsExecuting a m) = [] \<longleftrightarrow> m = []"
  by (simp add: MarkAsExecuting_def split: option.split)

lemma add_ips_empty: "td_modules (fold add_ip ips d) = [] \<longleftrightarrow> td_modules d = []"
  by (induction ips arbitrary: d) (simp_all add: add_ip_def MarkAsExecuting_empty)

lemma add_stack_modules: "td_modules (add_stack crash rs this p sp d) = td_modules d"
  by (simp add: add_stack_def Let_def split: option.split)

lemma add_thread_empty:
  "add_thread E K crash rs this p d = Inr d' \<Longrightarrow> td_modules d' = [] \<longleftrightarrow> td_modules d = []"
  by (auto simp: add_thread_def Let_def res_simps add_stack_modules add_ips_empty split: option.splits)

lemma AddThreadsToCore_cases:
  assumes "AddThreadsToCore E K crash b modules ids tr = (Inr (ok, b', modules', ids'), tr')"
  shows "if task_threads K (tr @ [SendRight (mach_thread_self K)]) = None then \<not> ok
    else ok \<and> (modules' = [] \<longleftrightarrow> modules = [])"
proof (cases "task_threads K (tr @ [SendRight (mach_thread_self K)])")
  case None
  then show ?thesis using assms by (simp add: AddThreadsToCore_def Let_def leave_def)
next
  case (Some threads)
  let ?refs = "map (\<lambda>p. Wrap p (mach_task_self K)) threads" and ?start =
    "\<lparr>td_builder = b, td_modules = modules, td_ids = [], td_ranges = []\<rparr>"
  obtain u where "reserve K 8 (length threads) = Inr u"
    using assms Some by (cases "reserve K 8 (length threads)") (simp_all add: AddThreadsToCore_def Let_def leave_def)
  then obtain rs d where ok and "modules' = td_modules d"
    and d: "rfold (\<lambda>r. add_thread E K crash rs (mach_thread_self K) (PortRef.Get r)) ?refs ?start = Inr d"
    using assms Some by (auto simp: AddThreadsToCore_def Let_def leave_def res_simps)
  moreover have "td_modules d = [] \<longleftrightarrow> modules = []"
    by (rule rfold_invariant [OF d]) (auto simp: add_thread_empty)
  ultimately show ?thesis using Some by simp
qed

subsection \<open>The payload of the images\<close>

lemma length_poke: "poke buf off d = Inr buf' \<Longrightarrow> length buf' = length buf"
  by (auto simp: poke_def split: if_splits)

lemma payload_lengths:
  "rfold put_entry ms s = Inr s' \<Longrightarrow> length (buffer s') = length (buffer s)"
  "rfold put_segment segs st = Inr st' \<Longrightarrow> length (fst st') = length (fst st)"
  "rfold put_path ms st = Inr st' \<Longrightarrow> length (fst st') = length (fst st)"
proof -
  show "length (buffer s') = length (buffer s)" if "rfold put_entry ms s = Inr s'"
    by (rule rfold_invariant [OF that]) (auto simp: put_entry_def Let_def res_simps dest: length_poke)
  have "length (fst t) = length (fst t0)" if "put_segment x t0 = Inr t" for x t0 t
    using that length_poke by (cases t0) (fastforce simp: put_segment_def res_simps)
  then show "length (fst st') = length (fst st)" if "rfold put_segment segs st = Inr st'"
    by (rule_tac rfold_invariant [OF that]) simp_all
  have "length (fst t) = length (fst t0)" if "put_path x t0 = Inr t" for x t0 t
    using that length_poke by (cases t0) (fastforce simp: put_path_def res_simps)
  then show "length (fst st') = length (fst st)" if "rfold put_path ms st = Inr st'"
    by (rule_tac rfold_invariant [OF that]) simp_all
qed

text \<open>The payload is empty only where there is no list of modules.\<close>

lemma CreateAllImageInfosPayload_empty:
  "CreateAllImageInfosPayload off modules = Inr [] \<longleftrightarrow> modules = []"
proof
  assume empty: "CreateAllImageInfosPayload off modules = Inr []"
  show "modules = []"
  proof (rule ccontr)
    assume "modules \<noteq> []"
    have "24 \<le> length buf" if "poke (replicate n 0) 0 (enc_AllImageInfosHeader h) = Inr buf" for n h buf
      using that by (auto simp: poke_def patch_def split: if_splits)
    with empty \<open>modules \<noteq> []\<close> show False
      by (fastforce simp: CreateAllImageInfosPayload_def ModuleList.IsValid_def Let_def res_simps dest!: payload_lengths)
  qed
qed (simp add: CreateAllImageInfosPayload_def ModuleList.IsValid_def)

subsection \<open>The builder that is written\<close>

text \<open>
  The same threads and segments in the same order; the file offsets of the segments are filled in
  later and left out of the comparison.
\<close>

definition unplaced :: "segment_entry \<Rightarrow> segment_entry" where
  "unplaced sc = ((fst sc)\<lparr>sc_fileoff := 0\<rparr>, snd sc)"

definition same_commands :: "builder \<Rightarrow> builder \<Rightarrow> bool" where
  "same_commands b b' \<longleftrightarrow> thread_cmds b' = thread_cmds b \<and>
     map unplaced (segment_cmds b') = map unplaced (segment_cmds b)"

lemma same_commands_refl [simp]: "same_commands b b"
  by (simp add: same_commands_def)

lemma same_commands_trans [trans]:
  "same_commands b b' \<Longrightarrow> same_commands b' b'' \<Longrightarrow> same_commands b b''"
  by (simp add: same_commands_def)

lemma same_commands_add_payload: "add_payload E K owner d b = Inr b' \<Longrightarrow> same_commands b b'"
  by (auto simp: add_payload_def AddDataProviderForNoteCommand_def same_commands_def res_simps split: option.splits)

lemma same_commands_Finalize: "same_commands b (FinalizeLoadCommands b)"
  by (simp add: FinalizeLoadCommands_def same_commands_def)

lemma same_commands_AddNote: "same_commands b (snd (AddNoteCommand owner p b))"
  by (auto simp: AddNoteCommand_def same_commands_def Let_def split: option.split)

lemma same_commands_AddNotes: "AddNotesToCore b = (ok, b') \<Longrightarrow> same_commands b b'"
  using same_commands_AddNote same_commands_trans
  by (auto simp: AddNotesToCore_def Let_def) meson

lemma same_commands_update: "update_segment_offset cfg i b = Inr b' \<Longrightarrow> same_commands b b'"
proof -
  assume "update_segment_offset cfg i b = Inr b'"
  then obtain off where b': "b' = set_segment_offset i off b" by (auto simp: update_segment_offset_def res_simps)
  show ?thesis
  proof (cases "i < length (segment_cmds b)")
    case True
    then show ?thesis
      by (auto simp: b' set_segment_offset_def same_commands_def map_update unplaced_def
          list_update_same_conv split: option.split)
  next
    case False
    then have "(segment_cmds b)[i := sc] = segment_cmds b" for sc by (simp add: list_update_beyond)
    then show ?thesis by (simp add: b' set_segment_offset_def same_commands_def split: option.split)
  qed
qed

lemma same_commands_updates: "rfold (update_segment_offset cfg) is b = Inr b' \<Longrightarrow> same_commands b b'"
  by (rule rfold_invariant) (auto intro: same_commands_trans same_commands_update)

text \<open>
  What a request hands to \<open>Build\<close> when the task was stopped by the calls \<open>stop\<close>: the thread and
  segment commands that \<open>AddThreadsToCore\<close> collected from there, in a new builder and without an
  error.
\<close>

definition request_builder ::
  "dump_env \<Rightarrow> 'z dump_kernel_scheme \<Rightarrow> CrashContext option \<Rightarrow> ModuleInfos \<Rightarrow> event list \<Rightarrow> builder \<Rightarrow> bool"
where
  "request_builder E K crash ms stop b \<longleftrightarrow>
     (\<exists>b1 ms1 ids tr. AddThreadsToCore E K crash (new_MachOCoreDumpBuilder (env_config E)) ms [] stop =
          (Inr (True, b1, ms1, ids), tr) \<and> same_commands b1 b)"

subsection \<open>The steps of a request\<close>

lemma AddPayloadsAndWrite_cases:
  assumes "AddPayloadsAndWrite E K S modules ids (b, s) = Inr (ok, b', s')"
  shows "if address_bits K = None \<or> modules = [] then \<not> ok \<and> s' = s
    else \<exists>b1. same_commands b b1 \<and> Build K (env_config E) (env_offset E) S (b1, s) = Inr (ok, b', s')"
proof (cases "address_bits K = None \<or> modules = []")
  case True
  then show ?thesis
    using assms CreateAllImageInfosPayload_empty [of _ modules]
    by (auto simp: AddPayloadsAndWrite_def Let_def res_simps split: if_splits option.splits)
next
  case False
  then obtain n where bits: "address_bits K = Some n" by auto
  obtain b1 b2 infos b3 b4 b5 where
    b1: "add_payload E K AddrableBitsOwner (enc_AddrableBitsInfo \<lparr>ab_version = 3, nBits = n, ab_unused = 0\<rparr>) b = Inr b1"
    and b2: "add_payload E K ProcessMetadataOwner (CreateProcessMetadataPayload ids) b1 = Inr b2"
    and b3: "add_payload E K AllImageInfosOwner infos (FinalizeLoadCommands b2) = Inr b3"
    and b4: "\<exists>d. add_payload E K MainBinSpecOwner d b3 = Inr b4"
    and b5: "rfold (update_segment_offset (env_config E)) [0..<GetNumberOfSegmentCommands b4] b4 = Inr b5"
    and built: "Build K (env_config E) (env_offset E) S (b5, s) = Inr (ok, b', s')"
    using assms False bits CreateAllImageInfosPayload_empty [of _ modules]
    by (auto simp: AddPayloadsAndWrite_def Let_def res_simps split: if_splits) metis
  have "same_commands b b2"
    using same_commands_add_payload [OF b1] same_commands_add_payload [OF b2] by (rule same_commands_trans)
  also have "same_commands b2 b3"
    using same_commands_Finalize same_commands_add_payload [OF b3] by (rule same_commands_trans)
  also have "same_commands b3 b4" using b4 same_commands_add_payload by blast
  also have "same_commands b4 b5" by (rule same_commands_updates [OF b5])
  finally show ?thesis using False built by auto
qed

lemma dump_body_cases:
  assumes "dump_body E K S crash s stop = (Inr (ok, s'), tr)"
  shows "\<exists>ms. new_ModuleList (env_config E) K (env_dyld E) = Inr ms \<and>
    (if task_threads K (stop @ [SendRight (mach_thread_self K)]) = None \<or> ms = [] \<or> address_bits K = None
     then \<not> ok \<and> s' = s
     else \<exists>b b'. request_builder E K crash ms stop b \<and>
       Build K (env_config E) (env_offset E) S (b, s) = Inr (ok, b', s'))"
proof -
  let ?b = "new_MachOCoreDumpBuilder (env_config E)"
  obtain ms where m: "new_ModuleList (env_config E) K (env_dyld E) = Inr ms"
    using assms by (cases "new_ModuleList (env_config E) K (env_dyld E)") (simp_all add: dump_body_def Let_def)
  obtain r tr1 where t: "AddThreadsToCore E K crash ?b ms [] stop = (r, tr1)" by fastforce
  obtain ok1 b1 ms1 ids where r: "r = Inr (ok1, b1, ms1, ids)"
    using assms m t by (cases r) (auto simp: dump_body_def Let_def)
  note threads = AddThreadsToCore_cases [OF t [unfolded r]]
  obtain b2 where n: "AddNotesToCore b1 = (True, b2)" by (simp add: AddNotesToCore_def Let_def)
  show ?thesis
  proof (cases ok1)
    case True
    then obtain b3 where w: "AddPayloadsAndWrite E K S ms1 ids (b2, s) = Inr (ok, b3, s')"
      using assms m t r n by (auto simp: dump_body_def Let_def res_simps)
    have "request_builder E K crash ms stop b" if "same_commands b2 b" for b
    proof -
      have "same_commands b1 b" using same_commands_AddNotes [OF n] that by (rule same_commands_trans)
      then show ?thesis
        using t r True unfolding request_builder_def
        by (intro exI [of _ b1] exI [of _ ms1] exI [of _ ids] exI [of _ tr1]) simp
    qed
    with AddPayloadsAndWrite_cases [OF w] show ?thesis
      using m threads True by (auto split: if_splits)
  next
    case False
    then show ?thesis using assms m t r threads by (auto simp: dump_body_def Let_def split: if_splits)
  qed
qed

lemma not_suspended:
  assumes "SuspendAllThreadsExceptCurrentOne K [] = (Inr (False, refs), tr)"
  shows "task_threads K [SendRight (mach_thread_self K)] = None"
proof (rule ccontr)
  assume "task_threads K [SendRight (mach_thread_self K)] \<noteq> None"
  then obtain threads where t: "task_threads K [SendRight (mach_thread_self K)] = Some threads" by blast
  show False
    using assms
    by (cases "reserve K 8 (length threads)")
      (auto simp: SuspendAllThreadsExceptCurrentOne_def Let_def t leave_def split: prod.splits sum.splits)
qed

lemma leave_result: "leave d rt = (r, tr) \<Longrightarrow> \<exists>tr1. rt = (r, tr1)"
  by (cases rt) (simp add: leave_def)

text \<open>The result of a request whose task was stopped by the calls \<open>stop\<close>.\<close>

definition body_result ::
  "dump_env \<Rightarrow> 'z dump_kernel_scheme \<Rightarrow> 's IRandomAccessBinaryOStream \<Rightarrow> CrashContext option \<Rightarrow> 's \<Rightarrow>
     event list \<Rightarrow> bool \<Rightarrow> 's \<Rightarrow> bool"
where
  "body_result E K S crash s stop ok s' \<longleftrightarrow>
     (\<exists>ms. new_ModuleList (env_config E) K (env_dyld E) = Inr ms \<and>
       (if task_threads K (stop @ [SendRight (mach_thread_self K)]) = None \<or> ms = [] \<or> address_bits K = None
        then \<not> ok \<and> s' = s
        else \<exists>b b'. request_builder E K crash ms stop b \<and>
          Build K (env_config E) (env_offset E) S (b, s) = Inr (ok, b', s')))"

lemma Impl_cases:
  assumes "MiniDumpWriteDumpImpl E K S task crash s [] = (Inr (ok, s'), tr)"
  shows "if \<not> pid_for_task_ok K then \<not> ok \<and> s' = s
    else case os_SetSize S 0 s of (sized, s1) \<Rightarrow>
      if \<not> sized \<or> (task \<noteq> mach_task_self K \<and> \<not> task_suspend_ok K) \<or>
         (task = mach_task_self K \<and> task_threads K [SendRight (mach_thread_self K)] = None)
      then \<not> ok \<and> s' = s1
      else \<exists>stop. stopped K task stop \<and> body_result E K S crash s1 stop ok s'"
proof -
  obtain sized s1 where size: "os_SetSize S 0 s = (sized, s1)" by fastforce
  note body = dump_body_cases [of E K S crash s1 _ ok s', folded body_result_def]
  show ?thesis
  proof (cases "pid_for_task_ok K \<and> sized")
    case False
    then show ?thesis using assms size by (auto simp: MiniDumpWriteDumpImpl_def split: if_splits)
  next
    case start: True
    show ?thesis
    proof (cases "task = mach_task_self K")
      case True
      obtain r tr1 where sus: "SuspendAllThreadsExceptCurrentOne K [] = (r, tr1)" by fastforce
      with assms start size True obtain suspended refs where r: "r = Inr (suspended, refs)"
        by (cases r) (auto simp: MiniDumpWriteDumpImpl_def)
      note sus = sus [unfolded r]
      show ?thesis
      proof (cases suspended)
        case False
        with sus have "task_threads K [SendRight (mach_thread_self K)] = None" by (simp add: not_suspended)
        then show ?thesis using assms start size True sus False by (simp add: MiniDumpWriteDumpImpl_def)
      next
        case suspended: True
        with sus have stop: "stopped K task tr1" using True by (simp add: stopped_def)
        have listed: "task_threads K [SendRight (mach_thread_self K)] \<noteq> None"
        proof
          assume "task_threads K [SendRight (mach_thread_self K)] = None"
          then show False
            using sus suspended by (simp add: SuspendAllThreadsExceptCurrentOne_def Let_def leave_def)
        qed
        have "leave (ResumeThreads refs @ delete_refs (mach_task_self K) refs) (dump_body E K S crash s1 tr1) = (Inr (ok, s'), tr)"
          using assms start size True sus suspended by (simp add: MiniDumpWriteDumpImpl_def)
        from leave_result [OF this] body have "body_result E K S crash s1 tr1 ok s'" by blast
        with stop listed show ?thesis using start size True by auto
      qed
    next
      case False
      show ?thesis
      proof (cases "task_suspend_ok K")
        case True
        then have "leave [TaskResume] (dump_body E K S crash s1 [TaskSuspend]) = (Inr (ok, s'), tr)"
          using assms start size False by (simp add: MiniDumpWriteDumpImpl_def)
        from leave_result [OF this] body have "body_result E K S crash s1 [TaskSuspend] ok s'" by blast
        then show ?thesis using start size False True by (auto simp: stopped_def)
      next
        case no: False
        then show ?thesis using assms start size False by (simp add: MiniDumpWriteDumpImpl_def)
      qed
    qed
  qed
qed

subsection \<open>Properties\<close>

text \<open>C34. What a request answers, by cases in the order of the code. A port that is not one of a task
  gives false and leaves the stream alone; when the stream cannot be emptied, the foreign task not
  be suspended or the threads of the own task not be listed, the answer is false and the stream
  as the emptying left it. After that the task is stopped: when then its threads cannot be
  listed, there is no list of modules or no number of address bits, the answer is false and
  nothing was written; and in every other case it is the answer of \<open>Build\<close>, on the emptied stream
  and for the threads and segments that were collected.\<close>

theorem request_result_has_cause:
  assumes "MiniDumpWriteDump E K S task crash s = (Inr (ok, Some s'), tr)"
  shows "if \<not> pid_for_task_ok K then \<not> ok \<and> s' = s
    else case os_SetSize S 0 s of (sized, s1) \<Rightarrow>
      if \<not> sized \<or> (task \<noteq> mach_task_self K \<and> \<not> task_suspend_ok K) \<or>
         (task = mach_task_self K \<and> task_threads K [SendRight (mach_thread_self K)] = None)
      then \<not> ok \<and> s' = s1
      else \<exists>stop ms. stopped K task stop \<and> new_ModuleList (env_config E) K (env_dyld E) = Inr ms \<and>
        (if task_threads K (stop @ [SendRight (mach_thread_self K)]) = None \<or> ms = [] \<or> address_bits K = None
         then \<not> ok \<and> s' = s1
         else \<exists>b b'. request_builder E K crash ms stop b \<and>
           Build K (env_config E) (env_offset E) S (b, s1) = Inr (ok, b', s'))"
proof -
  have "MiniDumpWriteDumpImpl E K S task crash s [] = (Inr (ok, s'), tr)"
    using assms by (auto simp: MiniDumpWriteDump_def split: prod.splits sum.splits if_splits)
  from Impl_cases [OF this] show ?thesis by (simp add: body_result_def cong: if_cong)
qed

lemma request_result_has_cause_witness:
  "\<exists>s' s1 b b' stop tr. MiniDumpWriteDump demo_request_env demo_request_kernel (FileOStream_vtable (regular_file 3)) 1 None
      empty_file = (Inr (True, Some s'), tr) \<and>
    os_SetSize (FileOStream_vtable (regular_file 3)) 0 empty_file = (True, s1) \<and>
    request_builder demo_request_env demo_request_kernel None demo_modules stop b \<and>
    Build demo_request_kernel (env_config demo_request_env) (env_offset demo_request_env)
      (FileOStream_vtable (regular_file 3)) (b, s1) = Inr (True, b', s')"
proof -
  have "file_usable 3 empty_file" "f_position (os_state empty_file) = 0" by (simp_all add: empty_file_def file_usable_def)
  from request_writes_file [OF demo_request_dumpable this] obtain s' tr where
    run: "MiniDumpWriteDump demo_request_env demo_request_kernel (FileOStream_vtable (regular_file 3)) 1 None empty_file =
      (Inr (True, Some s'), tr)"
    by blast
  have ms: "new_ModuleList (env_config demo_request_env) demo_request_kernel (env_dyld demo_request_env) = Inr demo_modules"
    using demo_request_dumpable by (simp add: dumpable_def)
  from request_result_has_cause [OF run] run ms show ?thesis
    by (auto split: prod.splits if_splits)
qed

end
