(* ===== verification/Snapshot.thy ===== *)
theory Snapshot
  imports DumpFile DumpTrace
begin

text \<open>
  A dump while the task lives on. The threads of the task take steps of their own between the
  calls of the library, as long as they are not suspended; what is in the core file is
  nevertheless the memory of one instant, unless a thread is created too late to be listed.
\<close>

subsection \<open>The task and its threads\<close>

record task_state =
  live :: "port set" \<comment> \<open>the threads of the task\<close>
  suspend_counts :: "port \<Rightarrow> nat"
  task_suspensions :: nat
  task_memory :: "u64 \<Rightarrow> u8"

definition runs :: "task_state \<Rightarrow> port \<Rightarrow> bool" where
  "runs t p \<longleftrightarrow> p \<in> live t \<and> suspend_counts t p = 0 \<and> task_suspensions t = 0"

text \<open>What the calls of the library do to the task; the kernel counts suspensions.\<close>

fun call_effect :: "event \<Rightarrow> task_state \<Rightarrow> task_state" where
  "call_effect (ThreadSuspend p) t = t\<lparr>suspend_counts := (suspend_counts t)(p := suspend_counts t p + 1)\<rparr>"
| "call_effect (ThreadResume p) t = t\<lparr>suspend_counts := (suspend_counts t)(p := suspend_counts t p - 1)\<rparr>"
| "call_effect TaskSuspend t = t\<lparr>task_suspensions := task_suspensions t + 1\<rparr>"
| "call_effect TaskResume t = t\<lparr>task_suspensions := task_suspensions t - 1\<rparr>"
| "call_effect _ t = t"

text \<open>
  A step between two calls, while the thread \<open>me\<close> is in the library: a running thread writes to
  memory, creates a thread or ends; \<open>me\<close> itself writes to the addresses \<open>W\<close> only, its own stack
  and the zone of the library.
\<close>

inductive other_step :: "port \<Rightarrow> u64 set \<Rightarrow> task_state \<Rightarrow> task_state \<Rightarrow> bool" for me W where
  writes: "\<lbrakk>runs t p; p \<noteq> me\<rbrakk> \<Longrightarrow> other_step me W t (t\<lparr>task_memory := (task_memory t)(a := b)\<rparr>)"
| creates: "\<lbrakk>runs t p; p \<noteq> me; q \<notin> live t; suspend_counts t q = 0; q \<noteq> me\<rbrakk> \<Longrightarrow>
    other_step me W t (t\<lparr>live := insert q (live t)\<rparr>)"
| ends: "\<lbrakk>runs t p; p \<noteq> me\<rbrakk> \<Longrightarrow> other_step me W t (t\<lparr>live := live t - {p}\<rparr>)"
| writes_own: "a \<in> W \<Longrightarrow> other_step me W t (t\<lparr>task_memory := (task_memory t)(a := b)\<rparr>)"

inductive interleaved :: "port \<Rightarrow> u64 set \<Rightarrow> task_state \<Rightarrow> event list \<Rightarrow> task_state \<Rightarrow> bool" for me W where
  no_call: "interleaved me W t [] t"
| other: "\<lbrakk>other_step me W t t1; interleaved me W t1 tr t'\<rbrakk> \<Longrightarrow> interleaved me W t tr t'"
| call: "interleaved me W (call_effect e t) tr t' \<Longrightarrow> interleaved me W t (e # tr) t'"

inductive_cases other_stepE: "other_step me W t t'"

subsection \<open>Runs\<close>

lemma interleaved_trans:
  "interleaved me W t a s \<Longrightarrow> interleaved me W s b t' \<Longrightarrow> interleaved me W t (a @ b) t'"
  by (induction rule: interleaved.induct) (auto intro: interleaved.intros)

lemma interleaved_split:
  assumes "interleaved me W t (a @ b) t'"
  shows "\<exists>s. interleaved me W t a s \<and> interleaved me W s b t'"
  using assms
proof (induction t "a @ b" t' arbitrary: a rule: interleaved.induct)
  case (no_call t)
  then show ?case by (auto intro: interleaved.intros)
next
  case (other t t1 t')
  then show ?case by (blast intro: interleaved.other)
next
  case (call e t tr t')
  show ?case
  proof (cases a)
    case Nil
    then show ?thesis using call by (auto intro: interleaved.intros)
  next
    case (Cons e' a')
    then obtain s where "interleaved me W (call_effect e t) a' s" "interleaved me W s b t'"
      using call by auto
    with Cons call.hyps(3) show ?thesis by (auto intro: interleaved.call)
  qed
qed

lemma other_step_counts:
  "other_step me W t t' \<Longrightarrow> suspend_counts t' = suspend_counts t \<and> task_suspensions t' = task_suspensions t"
  by (auto elim: other_stepE)

text \<open>A run that suspends only, and one that resumes only.\<close>

lemma interleaved_pauses:
  assumes "interleaved me W t tr t'" and "\<forall>p. resumes p tr = 0" and "count_list tr TaskResume = 0"
  shows "suspend_counts t' p = suspend_counts t p + pauses p tr"
    and "task_suspensions t' = task_suspensions t + count_list tr TaskSuspend"
  using assms
proof (induction arbitrary: p rule: interleaved.induct)
  case (other t t1 tr t')
  { case 1 then show ?case using other other_step_counts by simp }
  { case 2 then show ?case using other other_step_counts by simp }
next
  case (call e t tr t')
  { case 1 then show ?case using call by (cases e) (auto simp: pauses_def resumes_def split: if_splits) }
  { case 2 then show ?case using call by (cases e) (auto simp: resumes_def split: if_splits) }
qed simp_all


subsection \<open>A frozen task\<close>






lemma quiet_effect: "quiet (e # evs) \<Longrightarrow> call_effect e t = t \<and> quiet evs"
  by (cases e) (auto simp: quiet_def)


subsection \<open>Suspending all threads of a list\<close>

definition pauses_list :: "'z dump_kernel_scheme \<Rightarrow> port \<Rightarrow> port list \<Rightarrow> event list \<Rightarrow> event list \<Rightarrow> bool" where
  "pauses_list K this ps tr tr' \<longleftrightarrow> (\<forall>p. pauses p tr \<le> pauses p tr' \<and>
     (p \<notin> set ps \<longrightarrow> pauses p tr' = pauses p tr) \<and>
     (p \<in> set ps \<longrightarrow> p \<noteq> this \<longrightarrow> (\<forall>tr. thread_suspend_ok K tr p) \<longrightarrow> pauses p tr < pauses p tr'))"

lemma suspend_loop_pauses:
  "suspend_loop K this refs susp tr = (Inr (), refs', susp', tr') \<Longrightarrow> pauses_list K this (map m_port refs) tr tr'"
proof (induction refs arbitrary: susp tr refs')
  case Nil
  then show ?case by (simp add: pauses_list_def)
next
  case (Cons t refs)
  show ?case
  proof (cases "PortRef.Get t = this \<or> \<not> thread_suspend_ok K tr (PortRef.Get t)")
    case True
    then obtain refs1 where "suspend_loop K this refs susp tr = (Inr (), refs1, susp', tr')"
      using Cons.prems by (auto split: prod.splits if_splits)
    from Cons.IH [OF this] True show ?thesis by (auto simp: pauses_list_def PortRef.Get_def)
  next
    case False
    obtain n m where mv: "move_construct t = (n, m)" by (cases "move_construct t")
    obtain susp1 where pb: "push_back K 8 susp n = Inr susp1"
      using Cons.prems False mv by (cases "push_back K 8 susp n") (simp_all add: Let_def)
    obtain refs1 where "suspend_loop K this refs susp1 (tr @ [ThreadSuspend (PortRef.Get t)]) = (Inr (), refs1, susp', tr')"
      using Cons.prems False mv pb by (auto simp: Let_def split: prod.splits if_splits)
    note IH = Cons.IH [OF this]
    show ?thesis
      unfolding pauses_list_def
    proof
      fix p
      have "pauses p tr + (if m_port t = p then 1 else 0) \<le> pauses p tr'"
        and "p \<notin> set (map m_port refs) \<Longrightarrow> pauses p tr' = pauses p tr + (if m_port t = p then 1 else 0)"
        and "\<lbrakk>p \<in> set (map m_port refs); p \<noteq> this; \<forall>tr. thread_suspend_ok K tr p\<rbrakk> \<Longrightarrow>
          pauses p tr + (if m_port t = p then 1 else 0) < pauses p tr'"
        using IH unfolding pauses_list_def by (simp_all add: PortRef.Get_def)
      then show "pauses p tr \<le> pauses p tr' \<and> (p \<notin> set (map m_port (t # refs)) \<longrightarrow> pauses p tr' = pauses p tr) \<and>
          (p \<in> set (map m_port (t # refs)) \<longrightarrow> p \<noteq> this \<longrightarrow> (\<forall>tr. thread_suspend_ok K tr p) \<longrightarrow> pauses p tr < pauses p tr')"
        by (cases "m_port t = p") (auto intro: order_le_less_trans)
    qed
  qed
qed

lemma suspend_loop_appends:
  "suspend_loop K this refs susp tr = (r, refs', susp', tr') \<Longrightarrow> \<exists>evs. tr' = tr @ evs"
proof (induction refs arbitrary: susp tr refs')
  case (Cons t refs)
  have rest: "\<exists>evs. tr' = tr @ evs"
    if "suspend_loop K this refs susp1 (tr @ evs1) = (r, refs1, susp', tr')" for susp1 refs1 evs1
    using Cons.IH [OF that] by auto
  show ?case using Cons.prems rest [of _ "[]"] rest
    by (auto simp: Let_def split: prod.splits if_splits sum.splits)
qed simp

lemma SuspendAll_pauses:
  assumes "SuspendAllThreadsExceptCurrentOne K [] = (Inr (True, refs), tr)"
  shows "\<exists>threads post. task_threads K [SendRight (mach_thread_self K)] = Some threads \<and>
    tr = SendRight (mach_thread_self K) # map SendRight threads @ post \<and>
    pauses_list K (mach_thread_self K) threads [] tr"
proof -
  let ?self = "mach_task_self K" and ?own = "mach_thread_self K"
  obtain threads where t: "task_threads K [SendRight ?own] = Some threads"
    using assms by (cases "task_threads K [SendRight ?own]") (auto simp: SuspendAllThreadsExceptCurrentOne_def Let_def leave_def)
  let ?refs = "map (\<lambda>p. Wrap p ?self) threads" and ?tr = "SendRight ?own # map SendRight threads"
  obtain r1 refs' susp tr1 where loop: "suspend_loop K ?own ?refs [] ?tr = (r1, refs', susp, tr1)"
    by (metis prod_cases4)
  have rsv: "reserve K 8 (length threads) = Inr ()"
    using assms reserve_threads [OF t] by (auto simp: SuspendAllThreadsExceptCurrentOne_def Let_def t leave_def)
  have r1: "r1 = Inr ()"
    using assms by (cases r1) (auto simp: SuspendAllThreadsExceptCurrentOne_def Let_def t rsv loop leave_def)
  then have "tr = tr1 @ [VmDeallocate] @ delete_refs ?self refs' @ delete_SendRightRef ?self (Wrap ?own ?self)"
    using assms by (simp add: SuspendAllThreadsExceptCurrentOne_def Let_def t rsv loop leave_def)
  moreover have "pauses_list K ?own threads ?tr tr1"
    using suspend_loop_pauses [OF loop [unfolded r1]] by (simp add: comp_def)
  moreover obtain evs where "tr1 = ?tr @ evs"
    using suspend_loop_appends [OF loop] by blast
  ultimately show ?thesis using t by (auto simp: pauses_list_def quiet_deletes)
qed

subsection \<open>The calls of a request\<close>



subsection \<open>What the task is stopped by\<close>







lemma interleaved_calls: "interleaved me W t evs (fold call_effect evs t)"
  by (induction evs arbitrary: t) (auto intro: interleaved.intros)

lemma quiet_fold: "quiet evs \<Longrightarrow> fold call_effect evs t = t"
proof (induction evs)
  case (Cons e evs)
  then show ?case using quiet_effect [of e evs t] by simp
qed simp

text \<open>Calls that only suspend: who is not suspended by them runs on, who is does not.\<close>

lemma interleaved_runs:
  assumes "interleaved me W t evs t'" and "\<forall>p. resumes p evs = 0" and "count_list evs TaskResume = 0"
    and "count_list evs TaskSuspend = 0"
  shows "p \<in> live t' \<Longrightarrow> runs t' p \<longleftrightarrow> suspend_counts t p = 0 \<and> task_suspensions t = 0 \<and> pauses p evs = 0"
    and "0 < pauses p evs \<Longrightarrow> \<not> runs t' p"
  using interleaved_pauses [OF assms(1-3)] assms(4) by (auto simp: runs_def)

lemma live_calls: "live (fold call_effect evs t) = live t"
proof (induction evs arbitrary: t)
  case (Cons e evs)
  then show ?case by (cases e) simp_all
qed simp

subsection \<open>A concrete run\<close>

text \<open>The threads 5, which asks, and 7; the memory is the one of the concrete request.\<close>

definition demo_task :: task_state where
  "demo_task = \<lparr>live = {5, 7}, suspend_counts = (\<lambda>p. 0), task_suspensions = 0,
     task_memory = (\<lambda>a. if a - 0x1000 < 288 then demo_memory ! unat (a - 0x1000) else 0)\<rparr>"


subsection \<open>Properties\<close>



text \<open>C35. The threads to suspend are listed once. A thread \<open>q\<close> that another one creates after that (the
  race that a comment in \<open>MiniDumpWriteDumpImpl\<close> calls unavoidable) is suspended by none of the
  calls that follow: however the threads go on, when the suspending is over \<open>q\<close> runs unless it has
  ended, while every thread of the list that can be suspended does not. And \<open>q\<close> can then write to any
  address between the calls of the dump.\<close>

theorem late_thread_runs_during_dump:
  assumes "SuspendAllThreadsExceptCurrentOne K [] = (Inr (True, refs), stop)"
    and "task_threads K [SendRight (mach_thread_self K)] = Some threads"
    and "runs s p" and "p \<noteq> mach_thread_self K"
    and "q \<notin> live s" and "suspend_counts s q = 0" and "q \<notin> set threads" and "q \<noteq> mach_thread_self K"
  shows "\<exists>post t. stop = SendRight (mach_thread_self K) # map SendRight threads @ post \<and>
    other_step (mach_thread_self K) {} s t \<and> live t = insert q (live s) \<and>
    (\<forall>W t1. interleaved (mach_thread_self K) W t post t1 \<longrightarrow>
       (q \<in> live t1 \<longrightarrow> runs t1 q) \<and>
       (\<forall>x \<in> set threads. x \<noteq> mach_thread_self K \<longrightarrow> (\<forall>tr. thread_suspend_ok K tr x) \<longrightarrow> \<not> runs t1 x)) \<and>
    (\<exists>t1. interleaved (mach_thread_self K) {} t post t1 \<and> runs t1 q \<and>
       (\<forall>evs a b. quiet evs \<longrightarrow> (\<exists>t2. interleaved (mach_thread_self K) {} t1 evs t2 \<and> runs t2 q \<and>
          task_memory t2 = (task_memory t1)(a := b))))"
proof -
  let ?me = "mach_thread_self K" and ?t = "s\<lparr>live := insert q (live s)\<rparr>"
  obtain post where post: "stop = SendRight ?me # map SendRight threads @ post"
    and pl: "pauses_list K ?me threads [] stop"
    using SuspendAll_pauses [OF assms(1)] assms(2) by auto
  have eff: "\<forall>x. resumes x post = 0" "count_list post TaskResume = 0" "count_list post TaskSuspend = 0"
    using SuspendAll_effect [OF assms(1)] by (simp_all add: suspended_effect_def post)
  have same: "pauses x post = pauses x stop" for x by (simp add: post)
  have q: "pauses q post = 0" using pl assms(7) by (simp add: pauses_list_def same)
  have step: "other_step ?me {} s ?t" by (rule other_step.creates [OF assms(3-6,8)])
  have free: "suspend_counts ?t q = 0" "task_suspensions ?t = 0" using assms(3,6) by (simp_all add: runs_def)
  have all: "(q \<in> live t1 \<longrightarrow> runs t1 q) \<and>
      (\<forall>x \<in> set threads. x \<noteq> ?me \<longrightarrow> (\<forall>tr. thread_suspend_ok K tr x) \<longrightarrow> \<not> runs t1 x)"
    if run: "interleaved ?me W ?t post t1" for W t1
    using interleaved_runs [OF run eff] free q pl by (simp add: pauses_list_def same)
  let ?t1 = "fold call_effect post ?t"
  have run1: "interleaved ?me {} ?t post ?t1" by (rule interleaved_calls)
  with all have runs1: "runs ?t1 q" by (simp add: live_calls)
  have "\<exists>t2. interleaved ?me {} ?t1 evs t2 \<and> runs t2 q \<and> task_memory t2 = (task_memory ?t1)(a := b)"
    if "quiet evs" for evs a b
  proof -
    let ?t2 = "?t1\<lparr>task_memory := (task_memory ?t1)(a := b)\<rparr>"
    have "other_step ?me {} ?t1 ?t2" by (rule other_step.writes [OF runs1 assms(8)])
    then have "interleaved ?me {} ?t1 evs (fold call_effect evs ?t2)"
      by (rule interleaved.other) (rule interleaved_calls)
    moreover have "runs ?t2 q" using runs1 by (simp add: runs_def)
    ultimately show ?thesis using quiet_fold [OF that, of ?t2] by (intro exI [of _ ?t2]) simp
  qed
  with post step all run1 runs1 show ?thesis by (intro exI [of _ post] exI [of _ ?t]) auto
qed

lemma late_thread_runs_during_dump_witness:
  "\<exists>post t t1 t2. demo_request_trace = [SendRight 5, SendRight 5, SendRight 7, SendRight 9] @ post \<and>
     other_step 5 {} demo_task t \<and> interleaved 5 {} t post t1 \<and> runs t1 8 \<and> \<not> runs t1 7 \<and>
     interleaved 5 {} t1 [VmDeallocate] t2 \<and> task_memory t2 0x1118 = 66"
proof -
  have me: "mach_thread_self demo_request_kernel = 5" by (simp add: demo_request_fields)
  have ok: "thread_suspend_ok demo_request_kernel tr 7" for tr
    by (simp add: demo_request_kernel_def demo_dump_kernel_def dyld_kernel.defs)
  have "runs demo_task 7" by (simp add: runs_def demo_task_def)
  from late_thread_runs_during_dump [OF demo_request_answers(1) demo_request_fields(1) this, of 8]
  obtain post t t1 where run: "demo_request_trace = [SendRight 5, SendRight 5, SendRight 7, SendRight 9] @ post"
      "other_step 5 {} demo_task t" "interleaved 5 {} t post t1" "runs t1 8"
    and stopped: "\<forall>W t1. interleaved 5 W t post t1 \<longrightarrow> \<not> runs t1 7"
    and mem: "\<forall>evs a b. quiet evs \<longrightarrow>
      (\<exists>t2. interleaved 5 {} t1 evs t2 \<and> runs t2 8 \<and> task_memory t2 = (task_memory t1)(a := b))"
    by (auto simp: me ok demo_task_def)
  obtain t2 where "interleaved 5 {} t1 [VmDeallocate] t2" "task_memory t2 = (task_memory t1)(0x1118 := 66)"
    using mem [rule_format, of "[VmDeallocate]" "0x1118" 66] quiet_simps(1) by auto
  with run stopped show ?thesis by (metis fun_upd_same)
qed

end
