(* ===== verification/ThreadStates.thy ===== *)
theory ThreadStates
  imports DumpFile
begin

text \<open>
  Thread commands from the side of the reader. A debugger takes a thread command apart by the
  kinds and word counts of its register sets, and decodes the states by the layouts of
  \<open>Misc/core.hsl\<close>; what it gets are the registers that the dump captured.
\<close>

subsection \<open>Decoding register states\<close>

definition words64 :: "nat \<Rightarrow> nat \<Rightarrow> bytes \<Rightarrow> u64 list" where
  "words64 off n d = map (\<lambda>i. le_word (chunk (off + 8 * i) 8 d)) [0..<n]"

definition dec_thread_state :: "arch \<Rightarrow> bytes \<Rightarrow> thread_state option" where
  "dec_thread_state t d =
     (if length d \<noteq> sizeof_thread_state t then None
      else case t of
        Arm64 \<Rightarrow> Some (ArmTS
          \<lparr>arm_x = words64 0 29 d, arm_fp = le_word (chunk 232 8 d), arm_lr = le_word (chunk 240 8 d),
           arm_sp = le_word (chunk 248 8 d), arm_pc = le_word (chunk 256 8 d),
           arm_cpsr = le_word (chunk 264 4 d), arm_flags = le_word (chunk 268 4 d)\<rparr>)
      | X86_64 \<Rightarrow> Some (X86TS
          \<lparr>x86_rax_to_rsi = words64 0 6 d, x86_rbp = le_word (chunk 48 8 d), x86_rsp = le_word (chunk 56 8 d),
           x86_r8_to_r15 = words64 64 8 d, x86_rip = le_word (chunk 128 8 d),
           x86_rflags = le_word (chunk 136 8 d), x86_cs_fs_gs = words64 144 3 d\<rparr>))"

definition dec_exception_state :: "arch \<Rightarrow> bytes \<Rightarrow> exception_state option" where
  "dec_exception_state t d =
     (if length d \<noteq> sizeof_exception_state then None
      else case t of
        Arm64 \<Rightarrow> Some (ArmES
          \<lparr>arm_far = le_word (chunk 0 8 d), arm_esr = le_word (chunk 8 4 d), arm_exception = le_word (chunk 12 4 d)\<rparr>)
      | X86_64 \<Rightarrow> Some (X86ES
          \<lparr>x86_trapno = le_word (chunk 0 4 d), x86_err = le_word (chunk 4 4 d),
           x86_faultvaddr = le_word (chunk 8 8 d)\<rparr>))"

lemma words64_at:
  assumes "off = length pre" and "n = length xs"
  shows "words64 off n (pre @ concat (map le64 xs) @ post) = xs"
proof (rule nth_equalityI)
  show "length (words64 off n (pre @ concat (map le64 xs) @ post)) = length xs"
    by (simp add: words64_def assms(2))
  fix i assume "i < length (words64 off n (pre @ concat (map le64 xs) @ post))"
  then have i: "i < length xs" by (simp add: words64_def assms(2))
  have "length (concat (take i (map le64 xs))) = 8 * i"
    using i length_concat_le64 [of "take i xs"] by (simp add: take_map)
  then have "chunk (off + 8 * i) 8 (pre @ concat (map le64 xs) @ post) = le64 (xs ! i)"
    using chunk_concat [of i "map le64 xs" "off + 8 * i" pre post] i assms(1) by simp
  then show "words64 off n (pre @ concat (map le64 xs) @ post) ! i = xs ! i"
    using i assms(2) by (simp add: words64_def)
qed

lemma words64_first: "n = length xs \<Longrightarrow> words64 0 n (concat (map le64 xs) @ post) = xs"
  using words64_at [of 0 "[]" n xs post] by simp

lemma words64_all: "n = length xs \<Longrightarrow> words64 0 n (concat (map le64 xs)) = xs"
  using words64_first [of n xs "[]"] by simp

lemma words64_skip: "length pre \<le> off \<Longrightarrow> words64 off n (pre @ d) = words64 (off - length pre) n d"
  by (simp add: words64_def chunk_skip)

lemma dec_enc_thread_state:
  assumes "state_of_target t s"
  shows "dec_thread_state t (enc_thread_state s) = Some s"
proof (cases s)
  case (ArmTS r)
  then have "t = Arm64" "length (arm_x r) = 29" using assms by (cases t; simp)+
  then show ?thesis using ArmTS length_enc_thread_state [OF assms]
    by (simp add: dec_thread_state_def words64_first byte_simps)
next
  case (X86TS r)
  then have "t = X86_64" "length (x86_rax_to_rsi r) = 6" "length (x86_r8_to_r15 r) = 8" "length (x86_cs_fs_gs r) = 3"
    using assms by (cases t; simp)+
  then show ?thesis using X86TS length_enc_thread_state [OF assms]
    by (simp add: dec_thread_state_def words64_first words64_all words64_skip byte_simps)
qed

lemma dec_enc_exception_state:
  "exception_of_target t e \<Longrightarrow> dec_exception_state t (enc_exception_state e) = Some e"
  by (cases t; cases e) (simp_all add: dec_exception_state_def sizeof_exception_state_def byte_simps)

subsection \<open>Decoding thread commands\<close>

text \<open>The register sets behind the two fields of a thread command: a kind, a count of 32-bit words,
  and that many words.\<close>

function read_states :: "bytes \<Rightarrow> (u32 \<times> bytes) list res" where
  "read_states d =
     (if d = [] then Inr []
      else if length d < 8 then Inl OutOfBounds
      else let n = 4 * unat (le_word (chunk 4 4 d) :: u32) in
        if length d < 8 + n then Inl OutOfBounds
        else rbind (read_states (drop (8 + n) d)) (\<lambda>sets. Inr ((le_word (chunk 0 4 d), chunk 8 n d) # sets)))"
  by pat_completeness auto
termination
  by (relation "measure length") auto

declare read_states.simps [simp del]

lemma read_states_Nil [simp]: "read_states [] = Inr []"
  by (subst read_states.simps) simp

lemma read_states_Cons:
  assumes "4 * unat n = length s"
  shows "read_states (le32 k @ le32 n @ s @ rest) = rbind (read_states rest) (\<lambda>sets. Inr ((k, s) # sets))"
proof -
  have "le32 k \<noteq> []" by (simp add: length_0_conv [symmetric] del: length_0_conv)
  then show ?thesis by (subst read_states.simps) (simp add: assms byte_simps Let_def)
qed

definition dec_thread_command :: "arch \<Rightarrow> bytes \<Rightarrow> (thread_state \<times> exception_state) option" where
  "dec_thread_command t c =
     (if cmd_of c \<noteq> LC_THREAD then None
      else case read_states (drop 8 c) of
        Inr [(k, d), (k', d')] \<Rightarrow>
          if k = RegSetKind_GPR t \<and> k' = RegSetKind_EXC t then
            (case dec_thread_state t d of
               None \<Rightarrow> None
             | Some ts \<Rightarrow> map_option (Pair ts) (dec_exception_state t d'))
          else None
      | _ \<Rightarrow> None)"

definition typed_exceptions :: "dump_env \<Rightarrow> 'z dump_kernel_scheme \<Rightarrow> CrashContext option \<Rightarrow> bool" where
  "typed_exceptions E K crash \<longleftrightarrow>
     (\<forall>p ts es. thread_registers K crash p = Some (ts, es) \<longrightarrow> exception_of_target (target (env_config E)) es)"

lemma dec_thread_command_enc:
  assumes "state_of_target t ts" and "exception_of_target t es"
  shows "dec_thread_command t (le32 LC_THREAD @ le32 n @ enc_GPR (make_GPR t ts) @ enc_EXC (make_EXC t es)) = Some (ts, es)"
proof -
  let ?g = "make_GPR t ts" and ?e = "make_EXC t es"
  have "read_states (enc_GPR ?g @ enc_EXC ?e) = Inr [(gpr_kind ?g, enc_thread_state ts), (exc_kind ?e, enc_exception_state es)]"
    using read_states_Cons [OF word_counts(1) [OF assms(1)]]
      read_states_Cons [OF word_counts(2) [OF assms(1), of es], of _ "[]"]
    by (simp add: enc_GPR_def enc_EXC_def) (simp add: make_GPR_def make_EXC_def)
  moreover have "gpr_kind ?g = RegSetKind_GPR t" "exc_kind ?e = RegSetKind_EXC t"
    by (simp_all add: make_GPR_def make_EXC_def)
  ultimately show ?thesis
    using dec_enc_thread_state [OF assms(1)] dec_enc_exception_state [OF assms(2)]
    by (simp add: dec_thread_command_def cmd_of_def)
qed

lemma dec_thread_command_of_thread:
  assumes "typed_states E K crash" and "typed_exceptions E K crash" and "captured K crash p"
  shows "dec_thread_command (target (env_config E)) (thread_command E K crash p) = thread_registers K crash p"
proof -
  obtain ts es where r: "thread_registers K crash p = Some (ts, es)" using assms(3) by (auto simp: captured_def)
  then have "state_of_target (target (env_config E)) ts" "exception_of_target (target (env_config E)) es"
    using assms(1,2) by (auto simp: typed_states_def typed_exceptions_def)
  then show ?thesis by (simp add: thread_command_def r gpr_of_def exc_of_def dec_thread_command_enc)
qed

text \<open>Among the load commands of a core file the thread commands are the ones with the registers.\<close>

lemma cmd_of_enc:
  "length (data_owner c) = 16 \<Longrightarrow> cmd_of (enc_note c) = nc_cmd c"
  "length (sc_segname sc) = 16 \<Longrightarrow> cmd_of (enc_segment sc) = sc_cmd sc"
  by (simp_all add: cmd_of_def enc_note_def enc_segment_def)

lemma final_commands_of:
  assumes "structured b"
  shows "filter (\<lambda>c. cmd_of c = LC_THREAD)
    (map (\<lambda>i. enc_note (final_note b i)) [0..<length (note_cmds b)] @ thread_cmds b @
     map (\<lambda>i. enc_segment (final_segment b i)) [0..<length (segment_cmds b)]) = thread_cmds b"
proof -
  have "cmd_of (enc_note (final_note b i)) \<noteq> LC_THREAD" if "i < length (note_cmds b)" for i
  proof -
    have "note_ok (note_cmds b ! i)" using assms that by (simp add: structured_iff)
    then show ?thesis by (simp add: cmd_of_enc final_note_def note_ok_def macho_constants)
  qed
  then have no_notes: "filter (\<lambda>c. cmd_of c = LC_THREAD) (map (\<lambda>i. enc_note (final_note b i)) [0..<length (note_cmds b)]) = []"
    by (auto simp: filter_empty_conv)
  have "cmd_of (enc_segment (final_segment b i)) \<noteq> LC_THREAD" if "i < length (segment_cmds b)" for i
  proof -
    have "segment_ok (segment_cmds b ! i)" using assms that by (simp add: structured_iff)
    then show ?thesis by (simp add: cmd_of_enc final_segment_def segment_ok_def macho_constants)
  qed
  then have "filter (\<lambda>c. cmd_of c = LC_THREAD) (map (\<lambda>i. enc_segment (final_segment b i)) [0..<length (segment_cmds b)]) = []"
    by (auto simp: filter_empty_conv)
  moreover have "filter (\<lambda>c. cmd_of c = LC_THREAD) (thread_cmds b) = thread_cmds b"
    using assms by (auto simp: filter_id_conv structured_iff thread_ok_def)
  ultimately show ?thesis using no_notes by simp
qed

lemma captured_registers:
  assumes "thread_registers K crash p = Some (ts, es)"
  shows "(\<forall>c. crash = Some c \<and> crashedTID c = thread_tid K p \<longrightarrow> ts = crash_ss c \<and> es = crash_es c) \<and>
    ((\<forall>c. crash = Some c \<longrightarrow> crashedTID c \<noteq> thread_tid K p) \<longrightarrow>
       thread_get_gpr K p = Some ts \<and> thread_get_exc K p = Some es)"
  using assms by (auto simp: thread_registers_def split: option.splits if_splits)

subsection \<open>Properties\<close>

text \<open>C4. A debugger gets the registers of every thread out of the file: after a dump the thread commands
  among the load commands decode, one for each captured thread and in the order of the kernel's
  list, to two register sets of the kinds of the target: the registers of the crash context for
  the thread that crashed, and those that the kernel gave for any other thread.\<close>

theorem registers_read_back:
  assumes "dumpable E K crash task tr threads rs ms P ss" and "file_usable fd s" and "f_position (os_state s) = 0"
    and "typed_exceptions E K crash"
  shows "\<exists>s' tr' h cmds. MiniDumpWriteDump E K (FileOStream_vtable (regular_file fd)) task crash s = (Inr (True, Some s'), tr') \<and>
    dec_header (f_contents (os_state s')) = Inr h \<and>
    read_commands (unat (ncmds h)) (f_contents (os_state s')) 32 [] = Inr cmds \<and>
    list_all2 (\<lambda>c p. \<exists>ts es. dec_thread_command (target (env_config E)) c = Some (ts, es) \<and>
        (\<forall>x. crash = Some x \<and> crashedTID x = thread_tid K p \<longrightarrow> ts = crash_ss x \<and> es = crash_es x) \<and>
        ((\<forall>x. crash = Some x \<longrightarrow> crashedTID x \<noteq> thread_tid K p) \<longrightarrow>
           thread_get_gpr K p = Some ts \<and> thread_get_exc K p = Some es))
      (filter (\<lambda>c. cmd_of c = LC_THREAD) cmds) (filter (captured K crash) threads)"
proof -
  let ?b = "dump_builder E K crash rs ms threads" and ?t = "target (env_config E)"
  let ?B = "core_builder P ?b"
  have typed: "typed_states E K crash" using assms(1) by (simp add: dumpable_def)
  have collected: "threads_collected K P ?b ss" by (rule dump_builder_collected [OF assms(1)])
  then have str: "structured ?B" by (simp add: threads_collected_def core_builder_def with_notes_structured)
  have fields: "length (note_cmds ?B) = 4" "thread_cmds ?B = map (thread_command E K crash) (filter (captured K crash) threads)"
    by (simp_all add: core_builder_def four_notes_def) (simp add: dump_builder_def)
  have len: "length (segment_cmds ?B) = length ss"
    using collected by (auto simp: threads_collected_def core_builder_def list_all2_lengthD)
  obtain s' tr' h where "MiniDumpWriteDump E K (FileOStream_vtable (regular_file fd)) task crash s = (Inr (True, Some s'), tr')"
    and "dec_header (f_contents (os_state s')) = Inr h"
    and "read_commands (unat (ncmds h)) (f_contents (os_state s')) 32 [] = Inr
      (map (\<lambda>i. enc_note (final_note ?B i)) [0..<4] @
       map (thread_command E K crash) (filter (captured K crash) threads) @
       map (\<lambda>i. enc_segment (final_segment ?B i)) [0..<length ss])"
    using request_reads_back [OF assms(1-3) refl] by (elim exE conjE) (rule that)
  moreover have "\<exists>ts es. dec_thread_command ?t (thread_command E K crash p) = Some (ts, es) \<and>
      (\<forall>x. crash = Some x \<and> crashedTID x = thread_tid K p \<longrightarrow> ts = crash_ss x \<and> es = crash_es x) \<and>
      ((\<forall>x. crash = Some x \<longrightarrow> crashedTID x \<noteq> thread_tid K p) \<longrightarrow>
         thread_get_gpr K p = Some ts \<and> thread_get_exc K p = Some es)" if "captured K crash p" for p
  proof -
    obtain ts es where r: "thread_registers K crash p = Some (ts, es)" using \<open>captured K crash p\<close> by (auto simp: captured_def)
    show ?thesis
      unfolding dec_thread_command_of_thread [OF typed assms(4) that] r
      by (intro exI [of _ ts] exI [of _ es] conjI [OF refl] captured_registers [OF r])
  qed
  ultimately show ?thesis
    using final_commands_of [OF str, unfolded fields len]
    by (intro exI [of _ s'] exI [of _ tr'] exI [of _ h] exI conjI) (assumption, assumption, assumption,
      simp only: list_all2_map1, rule list.rel_refl_strong, simp only: set_filter mem_Collect_eq)
qed

lemma registers_read_back_witness:
  "\<exists>s' tr' (h :: mach_header_64) cmds c. MiniDumpWriteDump demo_request_env demo_request_kernel (FileOStream_vtable (regular_file 3)) 1 None
      empty_file = (Inr (True, Some s'), tr') \<and>
    read_commands (unat (ncmds h)) (f_contents (os_state s')) 32 [] = Inr cmds \<and>
    filter (\<lambda>c. cmd_of c = LC_THREAD) cmds = [c] \<and>
    dec_thread_command Arm64 c = Some (demo_request_state, demo_request_exception)"
proof -
  have usable: "file_usable 3 empty_file" "f_position (os_state empty_file) = 0"
    by (simp_all add: empty_file_def file_usable_def)
  have typed: "typed_exceptions demo_request_env demo_request_kernel None"
    by (simp add: typed_exceptions_def demo_request_fields demo_config_def demo_request_exception_def)
  have kept: "filter (captured demo_request_kernel None) [5, 7, 9] = [7]"
    by (simp add: demo_request_captured)
  have known: "thread_get_gpr demo_request_kernel 7 = Some demo_request_state"
    "thread_get_exc demo_request_kernel 7 = Some demo_request_exception"
    by (simp_all add: demo_request_kernel_def)
  have target: "target (env_config demo_request_env) = Arm64"
    by (simp add: demo_request_fields demo_config_def)
  show ?thesis
    using registers_read_back [OF demo_request_dumpable usable typed]
    unfolding kept target
    by (auto simp: known list_all2_Cons2)
qed

end
