(* ===== verification/ZoneAllocator.thy ===== *)
theory ZoneAllocator
  imports MiniDump
begin

text \<open>
  \<open>ZoneAllocator.cpp\<close> and \<open>ZoneAllocator.hpp\<close>: the dedicated malloc zone of the library and the
  operations that allocate in it. The malloc library is a parameter: its answers may depend on
  every call made so far. The state is the global \<open>g_zone\<close> and the calls. An operation returns its
  value or its exception together with the state, which both outlive.
\<close>

subsection \<open>The malloc library and the state\<close>

text \<open>Zones and blocks are addresses; 0 is the null pointer.\<close>

datatype zone_call =
    CreateZone
  | SetZoneName u64 bytes
  | DefaultZone
  | DestroyZone u64
  | ZoneMalloc u64 u64 \<comment> \<open>zone, size\<close>
  | ZoneMemalign u64 u64 u64 \<comment> \<open>zone, alignment, size\<close>
  | ZoneFree u64 u64 \<comment> \<open>zone, block\<close>

record malloc_library =
  created_zone :: "zone_call list \<Rightarrow> u64" \<comment> \<open>\<open>malloc_create_zone\<close>\<close>
  default_zone :: u64 \<comment> \<open>\<open>malloc_default_zone\<close>\<close>
  new_block :: "zone_call list \<Rightarrow> u64" \<comment> \<open>\<open>malloc_zone_malloc\<close>, \<open>malloc_zone_memalign\<close>\<close>

record zone_state =
  g_zone :: u64
  zone_calls :: "zone_call list"

type_synonym 'a zone_step = "zone_state \<Rightarrow> 'a res \<times> zone_state"

definition call :: "zone_call \<Rightarrow> zone_state \<Rightarrow> zone_state" where
  "call c st = st\<lparr>zone_calls := zone_calls st @ [c]\<rparr>"

definition start_state :: zone_state where \<comment> \<open>before the constructors of the image run\<close>
  "start_state = \<lparr>g_zone = 0, zone_calls = []\<rparr>"

definition MMDZone :: bytes where
  "MMDZone = map of_char ''MMDZone''"

subsection \<open>Constructor and destructor of the image\<close>

definition InitZone :: "malloc_library \<Rightarrow> zone_state \<Rightarrow> zone_state" where
  "InitZone L st =
     (let st = call CreateZone st;
          zone = created_zone L (zone_calls st)
      in if zone = 0 then (call DefaultZone st)\<lparr>g_zone := default_zone L\<rparr>
         else (call (SetZoneName zone MMDZone) st)\<lparr>g_zone := zone\<rparr>)"

definition FreeZone :: "malloc_library \<Rightarrow> config \<Rightarrow> unit zone_step" where
  "FreeZone L cfg st =
     (case cpp_assert cfg (g_zone st \<noteq> 0) of
        Inl e \<Rightarrow> (Inl e, st)
      | Inr _ \<Rightarrow>
          let st = call DefaultZone st;
              st = (if g_zone st \<noteq> default_zone L then call (DestroyZone (g_zone st)) st else st)
          in (Inr (), st\<lparr>g_zone := 0\<rparr>))"

subsection \<open>Allocation\<close>

definition GetZone :: "config \<Rightarrow> zone_state \<Rightarrow> u64 res" where
  "GetZone cfg st = rbind (cpp_assert cfg (g_zone st \<noteq> 0)) (\<lambda>_. Inr (g_zone st))"

definition in_zone :: "config \<Rightarrow> (u64 \<Rightarrow> 'a zone_step) \<Rightarrow> 'a zone_step" where
  "in_zone cfg f st = (case GetZone cfg st of Inl e \<Rightarrow> (Inl e, st) | Inr zone \<Rightarrow> f zone st)"

definition Malloc :: "malloc_library \<Rightarrow> config \<Rightarrow> u64 \<Rightarrow> u64 zone_step" where
  "Malloc L cfg size_in_bytes = in_zone cfg (\<lambda>zone st.
     let st = call (ZoneMalloc zone size_in_bytes) st in (Inr (new_block L (zone_calls st)), st))"

definition MallocAligned :: "malloc_library \<Rightarrow> config \<Rightarrow> u64 \<Rightarrow> u64 \<Rightarrow> u64 zone_step" where
  "MallocAligned L cfg size_in_bytes alignment = in_zone cfg (\<lambda>zone st.
     let st = call (ZoneMemalign zone alignment size_in_bytes) st in (Inr (new_block L (zone_calls st)), st))"

definition Free :: "config \<Rightarrow> u64 \<Rightarrow> unit zone_step" where
  "Free cfg ptr = in_zone cfg (\<lambda>zone st. (Inr (), call (ZoneFree zone ptr) st))"

text \<open>\<open>if (p == nullptr) throw std::bad_alloc ();\<close>\<close>

definition or_bad_alloc :: "u64 zone_step \<Rightarrow> u64 zone_step" where
  "or_bad_alloc m st =
     (case m st of
        (Inl e, st) \<Rightarrow> (Inl e, st)
      | (Inr p, st) \<Rightarrow> (if p = 0 then Inl BadAlloc else Inr p, st))"

text \<open>The allocator of the containers; \<open>ZoneAllocator::allocate\<close> calls the zone itself.\<close>

definition allocate :: "malloc_library \<Rightarrow> config \<Rightarrow> u64 \<Rightarrow> u64 \<Rightarrow> u64 zone_step" where
  "allocate L cfg size_of_T n = or_bad_alloc (in_zone cfg (\<lambda>zone st.
     let st = call (ZoneMalloc zone (n * size_of_T)) st in (Inr (new_block L (zone_calls st)), st)))"

definition deallocate :: "config \<Rightarrow> u64 \<Rightarrow> u64 \<Rightarrow> unit zone_step" where
  "deallocate cfg p n = in_zone cfg (\<lambda>zone st. (Inr (), call (ZoneFree zone p) st))"

definition allocators_equal :: bool where \<comment> \<open>\<open>operator==\<close>\<close>
  "allocators_equal = True"

definition MakeUnique :: "malloc_library \<Rightarrow> config \<Rightarrow> u64 \<Rightarrow> u64 zone_step" where
  "MakeUnique L cfg size_of_T = or_bad_alloc (Malloc L cfg size_of_T)"

definition MakeUniqueArray_in_zone :: "malloc_library \<Rightarrow> config \<Rightarrow> u64 \<Rightarrow> u64 \<Rightarrow> u64 zone_step" where
  "MakeUniqueArray_in_zone L cfg count size_of_T = or_bad_alloc (Malloc L cfg (count * size_of_T))"

definition MakeUniqueArrayAligned_in_zone ::
  "malloc_library \<Rightarrow> config \<Rightarrow> u64 \<Rightarrow> u64 \<Rightarrow> u64 \<Rightarrow> u64 zone_step" where
  "MakeUniqueArrayAligned_in_zone L cfg count size_of_T alignment =
     or_bad_alloc (MallocAligned L cfg (count * size_of_T) alignment)"

definition ZoneDeleter :: "config \<Rightarrow> u64 \<Rightarrow> unit zone_step" where
  "ZoneDeleter cfg ptr st = (if ptr \<noteq> 0 then Free cfg ptr st else (Inr (), st))"

definition ZoneDeleter_array :: "config \<Rightarrow> u64 \<Rightarrow> unit zone_step" where
  "ZoneDeleter_array cfg ptr = Free cfg ptr"

text \<open>The operators of \<open>ZoneAllocated\<close>: unlike the others they hand a null pointer on.\<close>

definition operator_new :: "malloc_library \<Rightarrow> config \<Rightarrow> u64 \<Rightarrow> u64 zone_step" where
  "operator_new L cfg size_in_bytes = Malloc L cfg size_in_bytes"

definition operator_new_aligned :: "malloc_library \<Rightarrow> config \<Rightarrow> u64 \<Rightarrow> u64 \<Rightarrow> u64 zone_step" where
  "operator_new_aligned L cfg size_in_bytes alignment = MallocAligned L cfg size_in_bytes alignment"

definition operator_delete :: "config \<Rightarrow> u64 \<Rightarrow> unit zone_step" where
  "operator_delete cfg ptr = Free cfg ptr"

definition operator_delete_aligned :: "config \<Rightarrow> u64 \<Rightarrow> u64 \<Rightarrow> unit zone_step" where
  "operator_delete_aligned cfg ptr alignment = Free cfg ptr"

definition operator_new_array :: "malloc_library \<Rightarrow> config \<Rightarrow> u64 \<Rightarrow> u64 zone_step" where
  "operator_new_array L cfg size_in_bytes = Malloc L cfg size_in_bytes"

definition operator_delete_array :: "config \<Rightarrow> u64 \<Rightarrow> unit zone_step" where
  "operator_delete_array cfg ptr = Free cfg ptr"

subsection \<open>A run of the library\<close>

datatype zone_op =
    OpMalloc u64 | OpMallocAligned u64 u64 | OpFree u64
  | OpAllocate u64 u64 | OpDeallocate u64 u64
  | OpMakeUnique u64 | OpMakeUniqueArray u64 u64 | OpMakeUniqueArrayAligned u64 u64 u64
  | OpDeleter u64 | OpDeleterArray u64
  | OpNew u64 | OpNewAligned u64 u64 | OpDelete u64 | OpDeleteAligned u64 u64 | OpNewArray u64 | OpDeleteArray u64

fun run_op :: "malloc_library \<Rightarrow> config \<Rightarrow> zone_op \<Rightarrow> zone_state \<Rightarrow> zone_state" where
  "run_op L cfg (OpMalloc n) st = snd (Malloc L cfg n st)"
| "run_op L cfg (OpMallocAligned n a) st = snd (MallocAligned L cfg n a st)"
| "run_op L cfg (OpFree p) st = snd (Free cfg p st)"
| "run_op L cfg (OpAllocate sz n) st = snd (allocate L cfg sz n st)"
| "run_op L cfg (OpDeallocate p n) st = snd (deallocate cfg p n st)"
| "run_op L cfg (OpMakeUnique n) st = snd (MakeUnique L cfg n st)"
| "run_op L cfg (OpMakeUniqueArray n sz) st = snd (MakeUniqueArray_in_zone L cfg n sz st)"
| "run_op L cfg (OpMakeUniqueArrayAligned n sz a) st = snd (MakeUniqueArrayAligned_in_zone L cfg n sz a st)"
| "run_op L cfg (OpDeleter p) st = snd (ZoneDeleter cfg p st)"
| "run_op L cfg (OpDeleterArray p) st = snd (ZoneDeleter_array cfg p st)"
| "run_op L cfg (OpNew n) st = snd (operator_new L cfg n st)"
| "run_op L cfg (OpNewAligned n a) st = snd (operator_new_aligned L cfg n a st)"
| "run_op L cfg (OpDelete p) st = snd (operator_delete cfg p st)"
| "run_op L cfg (OpDeleteAligned p a) st = snd (operator_delete_aligned cfg p a st)"
| "run_op L cfg (OpNewArray n) st = snd (operator_new_array L cfg n st)"
| "run_op L cfg (OpDeleteArray p) st = snd (operator_delete_array cfg p st)"

text \<open>From loading the image to unloading it.\<close>

definition zone_run :: "malloc_library \<Rightarrow> config \<Rightarrow> zone_op list \<Rightarrow> unit res \<times> zone_state" where
  "zone_run L cfg ops = FreeZone L cfg (fold (run_op L cfg) ops (InitZone L start_state))"

text \<open>The zone that a call allocates or frees in.\<close>

fun zone_of :: "zone_call \<Rightarrow> u64 option" where
  "zone_of (ZoneMalloc z n) = Some z"
| "zone_of (ZoneMemalign z a n) = Some z"
| "zone_of (ZoneFree z p) = Some z"
| "zone_of _ = None"

fun destroyed :: "zone_call list \<Rightarrow> u64 list" where
  "destroyed [] = []"
| "destroyed (DestroyZone z # calls) = z # destroyed calls"
| "destroyed (_ # calls) = destroyed calls"

definition library_zone :: "malloc_library \<Rightarrow> u64" where
  "library_zone L = (if created_zone L [CreateZone] = 0 then default_zone L else created_zone L [CreateZone])"

lemma zone_calls_call [simp]: "zone_calls (call c st) = zone_calls st @ [c]" "g_zone (call c st) = g_zone st"
  by (simp_all add: call_def)

lemma destroyed_append [simp]: "destroyed (a @ b) = destroyed a @ destroyed b"
  by (induction a rule: destroyed.induct) simp_all

lemma destroyed_in_zone [simp]: "zone_of c = Some z \<Longrightarrow> destroyed [c] = []"
  by (cases c) simp_all

lemma in_zone_nonzero: "g_zone st \<noteq> 0 \<Longrightarrow> in_zone cfg f st = f (g_zone st) st"
  by (simp add: in_zone_def GetZone_def)

definition all_in_zone :: "u64 \<Rightarrow> zone_state \<Rightarrow> bool" where
  "all_in_zone z st \<longleftrightarrow> g_zone st = z \<and> destroyed (zone_calls st) = [] \<and>
     (\<forall>c \<in> set (zone_calls st). zone_of c \<in> {None, Some z})"

lemma all_in_zone_call:
  "all_in_zone z st \<Longrightarrow> zone_of c = Some z \<Longrightarrow> all_in_zone z (call c st)"
  by (auto simp: all_in_zone_def)

lemma or_bad_alloc_state [simp]: "snd (or_bad_alloc m st) = snd (m st)"
  by (simp add: or_bad_alloc_def split: prod.split sum.split)

lemma all_in_zone_op:
  assumes "all_in_zone z st" and "z \<noteq> 0"
  shows "all_in_zone z (run_op L cfg a st)"
proof -
  have z: "g_zone st = z" "g_zone st \<noteq> 0" using assms by (simp_all add: all_in_zone_def)
  show ?thesis
    using assms(1) z(1)
    by (cases a)
      (simp_all add: Malloc_def MallocAligned_def Free_def allocate_def deallocate_def MakeUnique_def
        MakeUniqueArray_in_zone_def MakeUniqueArrayAligned_in_zone_def ZoneDeleter_def ZoneDeleter_array_def
        operator_new_def operator_new_aligned_def operator_delete_def operator_delete_aligned_def
        operator_new_array_def operator_delete_array_def in_zone_nonzero [OF z(2)] Let_def all_in_zone_call)
qed

lemma all_in_zone_run:
  assumes "library_zone L \<noteq> 0"
  shows "all_in_zone (library_zone L) (fold (run_op L cfg) ops (InitZone L start_state))"
proof -
  have "all_in_zone (library_zone L) (InitZone L start_state)"
    by (auto simp: InitZone_def start_state_def all_in_zone_def library_zone_def Let_def)
  then show ?thesis
  proof (induction ops rule: rev_induct)
    case (snoc a ops)
    then show ?case using all_in_zone_op [OF _ assms] by simp
  qed simp
qed

subsection \<open>Properties\<close>

text \<open>A library that gives every zone and every block an address, but no block of 16 bytes.\<close>

definition demo_library :: malloc_library where
  "demo_library =
     \<lparr>created_zone = (\<lambda>calls. 0x9000), default_zone = 0x8000,
      new_block = (\<lambda>calls. case last calls of ZoneMalloc z n \<Rightarrow> if n = 16 then 0 else 0x100 + of_nat (length calls)
        | ZoneMemalign z a n \<Rightarrow> 0x200 + of_nat (length calls) | _ \<Rightarrow> 0)\<rparr>"

text \<open>C37. From the loading of the library to its unloading every block is allocated and freed in one
  zone: the dedicated one if it could be created, the default one otherwise. Unloading destroys the
  dedicated zone, exactly once, and never the default zone.\<close>

theorem one_zone_for_all_allocations:
  assumes "default_zone L \<noteq> 0" and "zone_run L cfg ops = (r, st)"
  shows "r = Inr () \<and> g_zone st = 0 \<and>
    (\<forall>c \<in> set (zone_calls st). zone_of c \<in> {None, Some (library_zone L)}) \<and>
    destroyed (zone_calls st) = (if library_zone L \<noteq> default_zone L then [library_zone L] else [])"
proof -
  let ?st = "fold (run_op L cfg) ops (InitZone L start_state)"
  have "library_zone L \<noteq> 0" using assms(1) by (simp add: library_zone_def)
  moreover from all_in_zone_run [OF this, of cfg ops] have "g_zone ?st = library_zone L" "destroyed (zone_calls ?st) = []"
    "\<forall>c \<in> set (zone_calls ?st). zone_of c \<in> {None, Some (library_zone L)}"
    by (simp_all add: all_in_zone_def)
  ultimately show ?thesis using assms(2) by (auto simp: zone_run_def FreeZone_def Let_def)
qed

lemma one_zone_for_all_allocations_witness:
  "destroyed (zone_calls (snd (zone_run demo_library demo_config [OpNew 8, OpAllocate 8 4, OpDelete 0x103]))) = [0x9000]"
proof -
  have "default_zone demo_library \<noteq> 0" by (simp add: demo_library_def)
  from one_zone_for_all_allocations [OF this prod.collapse [symmetric]] show ?thesis
    by (simp add: library_zone_def demo_library_def)
qed

end
