(* ===== verification/Spec2Isabelle.thy ===== *)
theory Spec2Isabelle
  imports TesterRuns DumpErrors Snapshot ThreadStates StackFrame ZoneAllocator
begin

text \<open>
  A verification development for macMiniDump, a C++ library that writes a Mach-O core file (a
  minidump) of a macOS task: the calling one or another one. The sources are under
  \<open>src/Sources/macMiniDump\<close>; the clients under \<open>src/Sources/examples\<close> and
  \<open>src/Sources/macMiniDumpTests/dumpTester\<close>.

  \<^bold>\<open>The program.\<close> \<open>MiniDumpWriteDump\<close> (\<open>MacMiniDump.cpp\<close>) stops the task, or the other threads of its
  own task, and lists the modules loaded in the task (\<open>ModuleList.cpp\<close>, over the reads of
  \<open>ReadProcessMemory.cpp\<close>). \<open>AddThreadsToCore\<close> lists the memory regions (\<open>MemoryRegionList.cpp\<close>) and
  goes through the threads: it takes the registers of each, adds a thread command to the builder,
  walks the stack (\<open>StackWalk.cpp\<close>, with \<open>StackFrame.cpp\<close> to tell whether the function on top has a
  frame), and inserts the memory around each return address and the stack itself into a set of
  disjoint intervals, whose pieces become segments. \<open>AddPayloadsAndWrite\<close> makes the payloads of four
  notes, computes where each lies in the file, and has the core builder
  (\<open>MachOCoreDumpBuilder.cpp\<close>) write everything to a stream (\<open>FileOStream.cpp\<close>). At the end everything
  that was stopped is resumed. Rights to Mach ports are held by \<open>MachPortSendRightRef\<close>; all memory
  comes from a malloc zone of the library's own (\<open>ZoneAllocator.cpp\<close>).

  \<^bold>\<open>The theories\<close>, in the order in which they build on each other.

  \<^item> \<open>Prelude\<close>: machine types, the result type (below), bounds-checked reads and writes on bytes,
    little-endian integers, the C string functions. \<open>OrderedMap\<close> (\<open>std::map\<close> as a sorted association
    list, an interface with its laws) and \<open>AddressIndex\<close> (lookup of the entry at or below an address,
    shared by the region and the module list).
  \<^item> \<open>IntervalSet\<close>: \<open>DisjointIntervalSet\<close> with the loop over iterators that merges. The intervals stay
    separated and cover exactly the bytes inserted, in whatever order.
  \<^item> \<open>ProcessMemory\<close>: \<open>ReadProcessMemory.cpp\<close>. A string read is the memory up to its terminator.
    \<open>MemoryRegionList\<close>: the constructor's loop (a \<open>partial_function\<close>, it may never end) and the lookup.
  \<^item> \<open>MachO\<close>: headers and load commands with their bytes. \<open>ModuleList\<close>: segments and UUID of an image,
    the construction of the list, lookup by code address, marking.
  \<^item> \<open>DataAccess\<close>, \<open>OStream\<close>: data providers and streams; the stream interface is the locale
    \<open>byte_stream\<close>, interpreted on \<open>FileOStream\<close> over a regular file.
  \<^item> \<open>CoreInternal\<close>, \<open>Payloads\<close>, \<open>ImageInfos\<close>: \<open>MachOCoreInternal\<close> for both targets (register sets,
    \<open>GPRPointers\<close>, \<open>Pointer\<close>, \<open>ThreadInfo\<close>) and the functions that make the payloads of the notes.
  \<^item> \<open>CoreBuilder\<close> (every operation of \<open>MachOCoreDumpBuilder\<close>, the debug overlap check included),
    \<open>BuilderOps\<close> (its invariant), \<open>CoreFile\<close> (the file as a specification: offsets, order, padding),
    \<open>CoreBuild\<close> (\<open>Build\<close> writes that file), \<open>CoreContents\<close> (the file decodes to what went in).
  \<^item> \<open>StackFrame\<close>: the compact unwind lookup, both binary searches against a scan of the table.
    \<open>StackWalk\<close>: the walk over the frames; which addresses it gives, exactly when it returns, and how
    many entries a stack whose frame records ascend can give.
  \<^item> \<open>PortRef\<close>: \<open>MachPortSendRightRef\<close> over objects in memory, with moves and aliasing; each right is
    returned to the kernel, released to the caller or still held. \<open>ZoneAllocator\<close>: the zone from the
    constructor of the library to its destructor.
  \<^item> \<open>MiniDump\<close>: the rest of \<open>MacMiniDump.cpp\<close>, from the entry points to the payloads, with the calls on
    tasks, threads and ports as a list of events in their order. Three theories prove about it:
    \<open>DumpTrace\<close> that everything suspended is resumed and every right returned, on every path that
    returns, failures and \<open>std::bad_alloc\<close> included; \<open>DumpThreads\<close> which commands and segments the
    threads become, and that stacks and the code around return addresses are covered; \<open>DumpFile\<close> that
    a dump leaves exactly the file that \<open>CoreFile\<close> specifies for the builder which \<open>DumpThreads\<close>
    describes, and that the bytes of its segments are the memory of the task.
  \<^item> \<open>DumpErrors\<close>: the result of a request by cases, which call failed and what the stream holds then.
  \<^item> \<open>ThreadStates\<close>: decoders for thread commands, and that a debugger gets the registers of every
    thread out of the file. \<open>Snapshot\<close>: the task as a state with threads that take steps of their own
    between the calls of the library (an inductive relation); the file holds the memory of one
    instant, unless a thread is created after the threads to suspend were listed, which then runs on.
  \<^item> \<open>DumpTester\<close>: the clients. The test program as a whole, with its operations, signal handlers and
    worker process. \<open>TesterRuns\<close> has the theorems about it, on top of those about the dump: what a
    crash test leaves behind, in the process itself and through a worker, and when the checker of
    leaks ends the process.

  \<^bold>\<open>Conventions.\<close> A class is a record of its members, a \<open>std::map\<close> a sorted association list, an
  \<open>enum\<close> a datatype, an integer a word of its width; sums and products wrap around as in the code. A
  function that can fail to return has a value in \<open>'a res\<close>, the sum of a \<open>fault\<close> and its result:
  reading or writing outside of an object, division by zero, a failed \<open>assert\<close> (when compiled in),
  a loop without end, \<open>std::bad_alloc\<close>. Functions on objects return the object after the call. What
  the build decides (target, \<open>NDEBUG\<close>, \<open>_DEBUG\<close>) is the record \<open>config\<close>. The loops that may not end
  (\<open>region_loop\<close>, \<open>walk_loop\<close>, \<open>wait_loop\<close>) are partial functions with the value \<open>None\<close> then; there is
  no fuel anywhere, and theorems of their own say when they return. Every other loop is recursive
  on its data or comes with a measure.

  \<^bold>\<open>Parameters.\<close> What is not in the repository is an argument: the answers of the Mach kernel
  (\<open>mem_kernel\<close>, \<open>dyld_kernel\<close>, \<open>dump_kernel\<close>; answers that may change over time take the events so
  far), POSIX calls (\<open>posix\<close>), the malloc library (\<open>malloc_library\<close>), the layouts of system headers
  (\<open>dyld_abi\<close>, \<open>unwind_abi\<close>, \<open>vm_tags\<close>), the content of memory never written, and for the clients
  the operating system around a process (\<open>host\<close>). Theorems assume of them what is documented, by
  name: \<open>reads_exactly\<close> and \<open>coherent_reads\<close> (a read gives as many bytes as asked for, and the bytes of
  an overlapping read agree: the task is stopped), \<open>refs_reserved\<close> (there is memory for the vector of
  thread references; without it the code does leak, see the findings), \<open>books_balance\<close> (the kernel
  counts rights). \<open>dumpable\<close> collects what a dump needs to succeed: answered calls, readable memory,
  stacks that end, and sizes below \<open>2 ^ 32\<close> for the load commands (the width of \<open>sizeofcmds\<close>) and
  \<open>2 ^ 56\<close> for the file (so that offsets are positive for \<open>lseek\<close>). Each is met by a concrete task.

  \<^bold>\<open>Not modelled.\<close> Failing allocations inside containers, apart from the thread references, the
  vectors of the stack walk and of the thread ids, the buffers of \<open>MakeUniqueArray\<close> and the
  \<open>ZoneAllocated\<close> objects: the payload builders and strings take memory for granted. The state of
  the stream after an exception. The debug log (\<open>Utils/Logging.hpp\<close>). In the theories of the dump
  \<open>coherent_reads\<close> says that the memory read does not change; that this is so is what \<open>Snapshot\<close> is
  about, where only the threads which exist when the suspending is over need to have been listed.
  The unit \<open>IRandomAccessBinaryOStream.cpp\<close> (an empty destructor) and \<open>Tests.py\<close> (which drives LLDB).
  In the test program what the idle threads do, and the time that a worker waits for its end.
\<close>

end
